theory Spec2Isabelle
  imports Main "HOL-Library.Sublist"
begin

section \<open>The Python fragment the notebooks are written in\<close>

text \<open>
  The repository consists of three Jupyter notebooks. Their code cells are short Python
  scripts that call into the external \<open>synthesizer\<close> package, \<open>numpy\<close>, \<open>unyt\<close> and
  \<open>matplotlib\<close>. The cells are embedded as abstract syntax (one constant per code cell,
  statement by statement) and run by an interpreter in which every interaction with the
  Python runtime and the external libraries is a query answered by an arbitrary oracle.
\<close>

datatype binop = Mult | Div | Power

datatype expr =
    Name string
  | IntLit int
  | FloatLit string
  | StrLit string
  | BoolLit bool
  | NoneLit
  | Attribute expr string
  | Call expr "expr list" "(string \<times> expr) list"
  | MethodCall expr string "expr list" "(string \<times> expr) list"
  | Subscript expr expr
  | BinOp expr binop expr
  | TupleE "expr list"
  | ListE "expr list"
  | DictE "(expr \<times> expr) list"
  | JoinedStr "fpart list"
and fpart =
    Text string
  | FormattedValue expr string

datatype target =
    TName string
  | TTuple "target list"
  | TAttr expr string
  | TSub expr expr

datatype stmt =
    Import string "string option"
  | ImportFrom string "(string \<times> string option) list"
  | Assign target expr
  | ExprStmt expr
  | For target expr "stmt list"
  | IfStmt expr "stmt list" "stmt list"
  | TryStmt "stmt list" "stmt list"
  | FunctionDef string "string list" "stmt list"
  | ClassDef string "stmt list"

type_synonym cell = "stmt list"
type_synonym notebook = "cell list"

section \<open>Values, exceptions and the external world\<close>

datatype val =
    VNone
  | VBool bool
  | VInt int
  | VFloat string
  | VStr string
  | VTuple "val list"
  | VList "val list"
  | VDict "(val \<times> val) list"
  | VBuiltin string
  | VObj nat

datatype exn =
    NameError string
  | TypeError
  | ValueError
  | LibraryError string

datatype query =
    QImport string
  | QImportFrom string string
  | QGetAttr string
  | QSetAttr string
  | QCall "string list"
  | QMethod string "string list"
  | QSubscript
  | QSetItem
  | QBinOp binop
  | QIter
  | QFormat string
  | QTruth
  | QMakeFunction string
  | QMakeClass string

datatype event = Ev query "val list" "exn + val"

type_synonym world = "event list \<Rightarrow> query \<Rightarrow> val list \<Rightarrow> exn + val"

record state =
  env :: "string \<rightharpoonup> val"
  trace :: "event list"

type_synonym 'a result = "(exn \<times> state) + ('a \<times> state)"
type_synonym outcome = "(exn \<times> state) + state"

definition ask :: "world \<Rightarrow> query \<Rightarrow> val list \<Rightarrow> state \<Rightarrow> val result" where
  "ask W q args s =
     (case W (trace s) q args of
        Inl e \<Rightarrow> Inl (e, s\<lparr>trace := trace s @ [Ev q args (Inl e)]\<rparr>)
      | Inr v \<Rightarrow> Inr (v, s\<lparr>trace := trace s @ [Ev q args (Inr v)]\<rparr>))"

definition builtins :: "string list" where
  "builtins = [''print'', ''enumerate'', ''type'', ''len'', ''range'', ''open'', ''str'',
     ''int'', ''float'', ''list'', ''dict'', ''tuple'', ''zip'', ''sum'', ''min'', ''max'',
     ''abs'', ''round'', ''sorted'', ''repr'', ''input'', ''exec'', ''eval'', ''getattr'',
     ''setattr'', ''isinstance'']"

definition lookup :: "string \<Rightarrow> state \<Rightarrow> val result" where
  "lookup x s =
     (case env s x of
        Some v \<Rightarrow> Inr (v, s)
      | None \<Rightarrow> if x \<in> set builtins then Inr (VBuiltin x, s) else Inl (NameError x, s))"

definition bind_name :: "string \<Rightarrow> val \<Rightarrow> state \<Rightarrow> state" where
  "bind_name x v s = s\<lparr>env := (env s)(x \<mapsto> v)\<rparr>"

definition items :: "world \<Rightarrow> val \<Rightarrow> state \<Rightarrow> (val list) result" where
  "items W v s =
     (case v of
        VList xs \<Rightarrow> Inr (xs, s)
      | VTuple xs \<Rightarrow> Inr (xs, s)
      | _ \<Rightarrow>
        (case ask W QIter [v] s of
           Inl x \<Rightarrow> Inl x
         | Inr (r, s') \<Rightarrow>
           (case r of
              VList xs \<Rightarrow> Inr (xs, s')
            | VTuple xs \<Rightarrow> Inr (xs, s')
            | _ \<Rightarrow> Inl (TypeError, s'))))"

fun enumerate_from :: "int \<Rightarrow> val list \<Rightarrow> val list" where
  "enumerate_from i [] = []"
| "enumerate_from i (v # vs) = VTuple [VInt i, v] # enumerate_from (i + 1) vs"

definition call :: "world \<Rightarrow> val \<Rightarrow> val list \<Rightarrow> string list \<Rightarrow> val list \<Rightarrow> state \<Rightarrow> val result" where
  "call W f avs kwn kvs s =
     (if f = VBuiltin ''enumerate'' \<and> kwn = [] \<and> length avs = 1 then
        (case items W (hd avs) s of
           Inl x \<Rightarrow> Inl x
         | Inr (xs, s') \<Rightarrow> Inr (VList (enumerate_from 0 xs), s'))
      else ask W (QCall kwn) (f # avs @ kvs) s)"

definition list_append :: "expr \<Rightarrow> val \<Rightarrow> state \<Rightarrow> state" where
  "list_append r v s =
     (case r of
        Name x \<Rightarrow>
          (case env s x of
             Some (VList ys) \<Rightarrow> bind_name x (VList (ys @ [v])) s
           | _ \<Rightarrow> s)
      | _ \<Rightarrow> s)"

definition is_list :: "val \<Rightarrow> bool" where
  "is_list v = (case v of VList xs \<Rightarrow> True | _ \<Rightarrow> False)"

definition call_method ::
  "world \<Rightarrow> expr \<Rightarrow> val \<Rightarrow> string \<Rightarrow> val list \<Rightarrow> string list \<Rightarrow> val list \<Rightarrow> state \<Rightarrow> val result" where
  "call_method W r rv m avs kwn kvs s =
     (if is_list rv \<and> m = ''append'' \<and> kwn = [] \<and> length avs = 1
      then Inr (VNone, list_append r (hd avs) s)
      else ask W (QMethod m kwn) (rv # avs @ kvs) s)"

definition binary :: "world \<Rightarrow> binop \<Rightarrow> val \<Rightarrow> val \<Rightarrow> state \<Rightarrow> val result" where
  "binary W b l r s =
     (case (b, l, r) of
        (Mult, VInt m, VInt n) \<Rightarrow> Inr (VInt (m * n), s)
      | (Power, VInt m, VInt n) \<Rightarrow>
          if 0 \<le> n then Inr (VInt (m ^ nat n), s) else ask W (QBinOp b) [l, r] s
      | _ \<Rightarrow> ask W (QBinOp b) [l, r] s)"

definition format_field :: "world \<Rightarrow> val \<Rightarrow> string \<Rightarrow> state \<Rightarrow> string result" where
  "format_field W v spec s =
     (case (v, spec) of
        (VStr t, []) \<Rightarrow> Inr (t, s)
      | _ \<Rightarrow>
        (case ask W (QFormat spec) [v] s of
           Inl x \<Rightarrow> Inl x
         | Inr (r, s') \<Rightarrow> (case r of VStr t \<Rightarrow> Inr (t, s') | _ \<Rightarrow> Inl (TypeError, s'))))"

definition truth :: "world \<Rightarrow> val \<Rightarrow> state \<Rightarrow> bool result" where
  "truth W v s =
     (case v of
        VBool b \<Rightarrow> Inr (b, s)
      | VNone \<Rightarrow> Inr (False, s)
      | _ \<Rightarrow>
        (case ask W QTruth [v] s of
           Inl x \<Rightarrow> Inl x
         | Inr (r, s') \<Rightarrow> (case r of VBool b \<Rightarrow> Inr (b, s') | _ \<Rightarrow> Inl (TypeError, s'))))"

section \<open>The interpreter\<close>

function (sequential) eval :: "world \<Rightarrow> expr \<Rightarrow> state \<Rightarrow> val result"
  and evals :: "world \<Rightarrow> expr list \<Rightarrow> state \<Rightarrow> (val list) result"
  and eval_kws :: "world \<Rightarrow> (string \<times> expr) list \<Rightarrow> state \<Rightarrow> (val list) result"
  and eval_pairs :: "world \<Rightarrow> (expr \<times> expr) list \<Rightarrow> state \<Rightarrow> ((val \<times> val) list) result"
  and eval_parts :: "world \<Rightarrow> fpart list \<Rightarrow> state \<Rightarrow> string result"
  and eval_part :: "world \<Rightarrow> fpart \<Rightarrow> state \<Rightarrow> string result"
where
  "eval W (Name x) s = lookup x s"
| "eval W (IntLit n) s = Inr (VInt n, s)"
| "eval W (FloatLit t) s = Inr (VFloat t, s)"
| "eval W (StrLit t) s = Inr (VStr t, s)"
| "eval W (BoolLit b) s = Inr (VBool b, s)"
| "eval W NoneLit s = Inr (VNone, s)"
| "eval W (Attribute e a) s =
     (case eval W e s of
        Inl x \<Rightarrow> Inl x
      | Inr (v, s1) \<Rightarrow> ask W (QGetAttr a) [v] s1)"
| "eval W (Call f args kws) s =
     (case eval W f s of
        Inl x \<Rightarrow> Inl x
      | Inr (fv, s1) \<Rightarrow>
        (case evals W args s1 of
           Inl x \<Rightarrow> Inl x
         | Inr (avs, s2) \<Rightarrow>
           (case eval_kws W kws s2 of
              Inl x \<Rightarrow> Inl x
            | Inr (kvs, s3) \<Rightarrow> call W fv avs (map fst kws) kvs s3)))"
| "eval W (MethodCall r m args kws) s =
     (case eval W r s of
        Inl x \<Rightarrow> Inl x
      | Inr (rv, s1) \<Rightarrow>
        (case evals W args s1 of
           Inl x \<Rightarrow> Inl x
         | Inr (avs, s2) \<Rightarrow>
           (case eval_kws W kws s2 of
              Inl x \<Rightarrow> Inl x
            | Inr (kvs, s3) \<Rightarrow> call_method W r rv m avs (map fst kws) kvs s3)))"
| "eval W (Subscript e k) s =
     (case eval W e s of
        Inl x \<Rightarrow> Inl x
      | Inr (v, s1) \<Rightarrow>
        (case eval W k s1 of
           Inl x \<Rightarrow> Inl x
         | Inr (kv, s2) \<Rightarrow> ask W QSubscript [v, kv] s2))"
| "eval W (BinOp l b r) s =
     (case eval W l s of
        Inl x \<Rightarrow> Inl x
      | Inr (lv, s1) \<Rightarrow>
        (case eval W r s1 of
           Inl x \<Rightarrow> Inl x
         | Inr (rv, s2) \<Rightarrow> binary W b lv rv s2))"
| "eval W (TupleE es) s =
     (case evals W es s of
        Inl x \<Rightarrow> Inl x
      | Inr (vs, s1) \<Rightarrow> Inr (VTuple vs, s1))"
| "eval W (ListE es) s =
     (case evals W es s of
        Inl x \<Rightarrow> Inl x
      | Inr (vs, s1) \<Rightarrow> Inr (VList vs, s1))"
| "eval W (DictE kvs) s =
     (case eval_pairs W kvs s of
        Inl x \<Rightarrow> Inl x
      | Inr (ps, s1) \<Rightarrow> Inr (VDict ps, s1))"
| "eval W (JoinedStr ps) s =
     (case eval_parts W ps s of
        Inl x \<Rightarrow> Inl x
      | Inr (t, s1) \<Rightarrow> Inr (VStr t, s1))"
| "evals W [] s = Inr ([], s)"
| "evals W (e # es) s =
     (case eval W e s of
        Inl x \<Rightarrow> Inl x
      | Inr (v, s1) \<Rightarrow>
        (case evals W es s1 of
           Inl x \<Rightarrow> Inl x
         | Inr (vs, s2) \<Rightarrow> Inr (v # vs, s2)))"
| "eval_kws W [] s = Inr ([], s)"
| "eval_kws W ((k, e) # kws) s =
     (case eval W e s of
        Inl x \<Rightarrow> Inl x
      | Inr (v, s1) \<Rightarrow>
        (case eval_kws W kws s1 of
           Inl x \<Rightarrow> Inl x
         | Inr (vs, s2) \<Rightarrow> Inr (v # vs, s2)))"
| "eval_pairs W [] s = Inr ([], s)"
| "eval_pairs W ((k, e) # kvs) s =
     (case eval W k s of
        Inl x \<Rightarrow> Inl x
      | Inr (kv, s1) \<Rightarrow>
        (case eval W e s1 of
           Inl x \<Rightarrow> Inl x
         | Inr (v, s2) \<Rightarrow>
           (case eval_pairs W kvs s2 of
              Inl x \<Rightarrow> Inl x
            | Inr (ps, s3) \<Rightarrow> Inr ((kv, v) # ps, s3))))"
| "eval_parts W [] s = Inr ([], s)"
| "eval_parts W (p # ps) s =
     (case eval_part W p s of
        Inl x \<Rightarrow> Inl x
      | Inr (t, s1) \<Rightarrow>
        (case eval_parts W ps s1 of
           Inl x \<Rightarrow> Inl x
         | Inr (u, s2) \<Rightarrow> Inr (t @ u, s2)))"
| "eval_part W (Text t) s = Inr (t, s)"
| "eval_part W (FormattedValue e spec) s =
     (case eval W e s of
        Inl x \<Rightarrow> Inl x
      | Inr (v, s1) \<Rightarrow> format_field W v spec s1)"
  by pat_completeness auto

termination
  apply (relation "measure (case_sum
           (case_sum (\<lambda>(W, e, s). size e)
              (case_sum (\<lambda>(W, es, s). size_list size es)
                        (\<lambda>(W, kws, s). size_list (size_prod (\<lambda>x. 0) size) kws)))
           (case_sum (\<lambda>(W, ps, s). size_list (size_prod size size) ps)
              (case_sum (\<lambda>(W, ps, s). size_list size ps)
                        (\<lambda>(W, p, s). size p))))")
  apply simp_all
  done

function (sequential) assign :: "world \<Rightarrow> target \<Rightarrow> val \<Rightarrow> state \<Rightarrow> outcome"
  and assigns :: "world \<Rightarrow> target list \<Rightarrow> val list \<Rightarrow> state \<Rightarrow> outcome"
where
  "assign W (TName x) v s = Inr (bind_name x v s)"
| "assign W (TTuple ts) v s =
     (case items W v s of
        Inl x \<Rightarrow> Inl x
      | Inr (vs, s1) \<Rightarrow>
          if length vs = length ts then assigns W ts vs s1 else Inl (ValueError, s1))"
| "assign W (TAttr e a) v s =
     (case eval W e s of
        Inl x \<Rightarrow> Inl x
      | Inr (ov, s1) \<Rightarrow>
        (case ask W (QSetAttr a) [ov, v] s1 of
           Inl x \<Rightarrow> Inl x
         | Inr (u, s2) \<Rightarrow> Inr s2))"
| "assign W (TSub e k) v s =
     (case eval W e s of
        Inl x \<Rightarrow> Inl x
      | Inr (ov, s1) \<Rightarrow>
        (case eval W k s1 of
           Inl x \<Rightarrow> Inl x
         | Inr (kv, s2) \<Rightarrow>
           (case ask W QSetItem [ov, kv, v] s2 of
              Inl x \<Rightarrow> Inl x
            | Inr (u, s3) \<Rightarrow> Inr s3)))"
| "assigns W [] vs s = Inr s"
| "assigns W (t # ts) [] s = Inl (ValueError, s)"
| "assigns W (t # ts) (v # vs) s =
     (case assign W t v s of
        Inl x \<Rightarrow> Inl x
      | Inr s1 \<Rightarrow> assigns W ts vs s1)"
  by pat_completeness auto

termination
  apply (relation "measure (case_sum (\<lambda>(W, t, v, s). size t)
                                     (\<lambda>(W, ts, vs, s). size_list size ts))")
  apply simp_all
  done

definition top_package :: "string \<Rightarrow> string" where
  "top_package m = takeWhile (\<lambda>c. c \<noteq> CHR ''.'') m"

fun import_names :: "world \<Rightarrow> string \<Rightarrow> (string \<times> string option) list \<Rightarrow> state \<Rightarrow> outcome" where
  "import_names W m [] s = Inr s"
| "import_names W m ((n, a) # ns) s =
     (case ask W (QImportFrom m n) [] s of
        Inl x \<Rightarrow> Inl x
      | Inr (v, s1) \<Rightarrow>
          import_names W m ns (bind_name (case a of Some b \<Rightarrow> b | None \<Rightarrow> n) v s1))"

definition import_module :: "world \<Rightarrow> string \<Rightarrow> string option \<Rightarrow> state \<Rightarrow> outcome" where
  "import_module W m a s =
     (case ask W (QImport m) [] s of
        Inl x \<Rightarrow> Inl x
      | Inr (v, s1) \<Rightarrow>
        (case a of
           Some b \<Rightarrow> Inr (bind_name b v s1)
         | None \<Rightarrow>
             if top_package m = m then Inr (bind_name m v s1)
             else
               (case ask W (QImport (top_package m)) [] s1 of
                  Inl x \<Rightarrow> Inl x
                | Inr (p, s2) \<Rightarrow> Inr (bind_name (top_package m) p s2))))"

definition define_name :: "world \<Rightarrow> query \<Rightarrow> string \<Rightarrow> state \<Rightarrow> outcome" where
  "define_name W q x s =
     (case ask W q [] s of
        Inl e \<Rightarrow> Inl e
      | Inr (v, s1) \<Rightarrow> Inr (bind_name x v s1))"

function (sequential) exec :: "world \<Rightarrow> stmt \<Rightarrow> state \<Rightarrow> outcome"
  and execs :: "world \<Rightarrow> stmt list \<Rightarrow> state \<Rightarrow> outcome"
  and loop :: "world \<Rightarrow> target \<Rightarrow> stmt list \<Rightarrow> val list \<Rightarrow> state \<Rightarrow> outcome"
where
  "exec W (Import m a) s = import_module W m a s"
| "exec W (ImportFrom m ns) s = import_names W m ns s"
| "exec W (Assign t e) s =
     (case eval W e s of
        Inl x \<Rightarrow> Inl x
      | Inr (v, s1) \<Rightarrow> assign W t v s1)"
| "exec W (ExprStmt e) s =
     (case eval W e s of
        Inl x \<Rightarrow> Inl x
      | Inr (v, s1) \<Rightarrow> Inr s1)"
| "exec W (For t e body) s =
     (case eval W e s of
        Inl x \<Rightarrow> Inl x
      | Inr (v, s1) \<Rightarrow>
        (case items W v s1 of
           Inl x \<Rightarrow> Inl x
         | Inr (xs, s2) \<Rightarrow> loop W t body xs s2))"
| "exec W (IfStmt c a b) s =
     (case eval W c s of
        Inl x \<Rightarrow> Inl x
      | Inr (v, s1) \<Rightarrow>
        (case truth W v s1 of
           Inl x \<Rightarrow> Inl x
         | Inr (t, s2) \<Rightarrow> if t then execs W a s2 else execs W b s2))"
| "exec W (TryStmt body handler) s =
     (case execs W body s of
        Inl (e, s1) \<Rightarrow> execs W handler s1
      | Inr s1 \<Rightarrow> Inr s1)"
| "exec W (FunctionDef f params body) s = define_name W (QMakeFunction f) f s"
| "exec W (ClassDef c body) s = define_name W (QMakeClass c) c s"
| "execs W [] s = Inr s"
| "execs W (c # cs) s =
     (case exec W c s of
        Inl x \<Rightarrow> Inl x
      | Inr s1 \<Rightarrow> execs W cs s1)"
| "loop W t body [] s = Inr s"
| "loop W t body (v # vs) s =
     (case assign W t v s of
        Inl x \<Rightarrow> Inl x
      | Inr s1 \<Rightarrow>
        (case execs W body s1 of
           Inl x \<Rightarrow> Inl x
         | Inr s2 \<Rightarrow> loop W t body vs s2))"
  by pat_completeness auto

termination
  apply (relation "inv_image (less_than <*lex*> less_than) (case_sum
           (\<lambda>(W, c, s). (size c, 0))
           (case_sum (\<lambda>(W, cs, s). (size_list size cs, 0))
                     (\<lambda>(W, t, body, vs, s). (size_list size body, Suc (length vs)))))")
  apply auto
  done

section \<open>The notebooks\<close>

text \<open>
  One constant per code cell, in the order of the notebook; markdown cells carry no code.
  A float literal keeps its decimal text. The method-call form \<open>e.m(args)\<close> is
  \<^const>\<open>MethodCall\<close>; a raw or formatted string literal is the string it denotes.
\<close>

definition backslash :: char where
  "backslash = CHR 0x5C"

subsection \<open>Lines from Grid objects (src/unnamed/part_000)\<close>

definition part_000_cell1 :: cell where
  "part_000_cell1 =
    [Import ''matplotlib.pyplot'' (Some ''plt''),
     Import ''numpy'' (Some ''np''),
     Import ''synthesizer.line_ratios'' (Some ''line_ratios''),
     ImportFrom ''synthesizer.grid'' [(''Grid'', None)],
     ImportFrom ''synthesizer.line'' [(''get_diagram_labels'', None)]]"

definition part_000_cell2 :: cell where
  "part_000_cell2 =
    [ExprStmt (Call (Name ''print'') [Attribute (Name ''line_ratios'') ''Ha''] []),
     ExprStmt (Call (Name ''print'') [Attribute (Name ''line_ratios'') ''available_ratios''] []),
     ExprStmt (Call (Name ''print'') [Attribute (Name ''line_ratios'') ''available_diagrams''] [])]"

definition part_000_cell3 :: cell where
  "part_000_cell3 =
    [Assign (TName ''grid_dir'') (StrLit ''../../../tests/test_grid''),
     Assign (TName ''grid_name'') (StrLit ''test_grid''),
     Assign (TName ''grid'')
       (Call (Name ''Grid'') [Name ''grid_name''] [(''grid_dir'', Name ''grid_dir'')])]"

definition part_000_cell4 :: cell where
  "part_000_cell4 =
    [ExprStmt (Call (Name ''print'') [Attribute (Name ''grid'') ''available_lines''] [])]"

definition part_000_cell5 :: cell where
  "part_000_cell5 = [ExprStmt (Call (Name ''print'') [Name ''grid''] [])]"

definition part_000_cell6 :: cell where
  "part_000_cell6 =
    [Assign (TName ''log10age'') (FloatLit ''6.0''),
     Assign (TName ''metallicity'') (FloatLit ''0.01''),
     Assign (TName ''grid_point'')
       (MethodCall (Name ''grid'') ''get_grid_point''
          [TupleE [Name ''log10age'', Name ''metallicity'']] []),
     Assign (TName ''line_id'') (Attribute (Name ''line_ratios'') ''Hb''),
     Assign (TName ''line'')
       (MethodCall (Name ''grid'') ''get_line'' [Name ''grid_point'', Name ''line_id''] []),
     ExprStmt (Call (Name ''print'') [Name ''line''] [])]"

definition part_000_cell7 :: cell where
  "part_000_cell7 =
    [Assign (TName ''line'')
       (MethodCall (Name ''grid'') ''get_line''
          [Name ''grid_point'',
           ListE [Attribute (Name ''line_ratios'') ''Hb'',
                  Attribute (Name ''line_ratios'') ''O3r'',
                  Attribute (Name ''line_ratios'') ''O3b'']] []),
     ExprStmt (Call (Name ''print'') [Name ''line''] [])]"

definition part_000_cell8 :: cell where
  "part_000_cell8 =
    [Assign (TName ''lines'') (MethodCall (Name ''grid'') ''get_lines'' [Name ''grid_point''] []),
     ExprStmt (Call (Name ''print'') [Name ''lines''] [])]"

definition print_ratio :: stmt where
  "print_ratio =
     ExprStmt (Call (Name ''print'')
       [JoinedStr [FormattedValue (Name ''ratio_id'') [], Text '': '', FormattedValue (Name ''ratio'') ''.2f'']] [])"

definition part_000_cell9 :: cell where
  "part_000_cell9 =
    [Assign (TName ''ratio_id'') (StrLit ''BalmerDecrement''),
     Assign (TName ''ratio'') (MethodCall (Name ''lines'') ''get_ratio'' [Name ''ratio_id''] []),
     print_ratio,
     For (TName ''ratio_id'') (Attribute (Name ''lines'') ''available_ratios'')
       [Assign (TName ''ratio'') (MethodCall (Name ''lines'') ''get_ratio'' [Name ''ratio_id''] []),
        print_ratio]]"

definition part_000_cell10 :: cell where
  "part_000_cell10 =
    [ExprStmt (MethodCall (Name ''lines'') ''get_ratio''
       [ListE [StrLit ''Ne 4 1601.45A'', StrLit ''He 2 1640.41A'']] []),
     ExprStmt (MethodCall (Name ''lines'') ''get_ratio''
       [ListE [StrLit ''Ne 4 1601.45A, He 2 1640.41A'', StrLit ''O 3 1660.81A'']] [])]"

definition r23_loop_body :: "stmt list" where
  "r23_loop_body =
    [Assign (TName ''grid_point'') (TupleE [Name ''ia'', Name ''iZ'']),
     Assign (TName ''lines'') (MethodCall (Name ''grid'') ''get_lines'' [Name ''grid_point''] []),
     ExprStmt (MethodCall (Name ''ratios'') ''append''
       [MethodCall (Name ''lines'') ''get_ratio'' [Name ''ratio_id''] []] [])]"

definition r23_loop :: stmt where
  "r23_loop =
     For (TTuple [TName ''iZ'', TName ''Z''])
       (Call (Name ''enumerate'') [Attribute (Name ''grid'') ''metallicity''] [])
       r23_loop_body"

definition part_000_cell11 :: cell where
  "part_000_cell11 =
    [Assign (TName ''ratio_id'') (StrLit ''R23''),
     Assign (TName ''ia'') (IntLit 0),
     Assign (TName ''ratios'') (ListE []),
     r23_loop,
     Assign (TName ''Zsun'') (BinOp (Attribute (Name ''grid'') ''metallicity'') Div (FloatLit ''0.0124'')),
     ExprStmt (MethodCall (Name ''plt'') ''plot'' [Name ''Zsun'', Name ''ratios''] []),
     ExprStmt (MethodCall (Name ''plt'') ''xlim'' [ListE [FloatLit ''0.01'', IntLit 1]] []),
     ExprStmt (MethodCall (Name ''plt'') ''ylim'' [ListE [IntLit 1, IntLit 20]] []),
     ExprStmt (MethodCall (Name ''plt'') ''xscale'' [StrLit ''log''] []),
     ExprStmt (MethodCall (Name ''plt'') ''yscale'' [StrLit ''log''] []),
     ExprStmt (MethodCall (Name ''plt'') ''xlabel''
       [StrLit (''$Z/Z_{'' @ backslash # ''odot}$'')] []),
     ExprStmt (MethodCall (Name ''plt'') ''ylabel'' [JoinedStr [FormattedValue (Name ''ratio_id'') []]] []),
     ExprStmt (MethodCall (Name ''plt'') ''show'' [] [])]"

definition bpt_loop_body :: "stmt list" where
  "bpt_loop_body =
    [Assign (TName ''grid_point'') (TupleE [Name ''ia'', Name ''iZ'']),
     Assign (TName ''lines'') (MethodCall (Name ''grid'') ''get_lines'' [Name ''grid_point''] []),
     Assign (TTuple [TName ''x_'', TName ''y_''])
       (MethodCall (Name ''lines'') ''get_diagram'' [Name ''diagram_id''] []),
     ExprStmt (MethodCall (Name ''x'') ''append'' [Name ''x_''] []),
     ExprStmt (MethodCall (Name ''y'') ''append'' [Name ''y_''] [])]"

definition bpt_loop :: stmt where
  "bpt_loop =
     For (TTuple [TName ''iZ'', TName ''Z''])
       (Call (Name ''enumerate'') [Attribute (Name ''grid'') ''metallicity''] [])
       bpt_loop_body"

definition part_000_cell12 :: cell where
  "part_000_cell12 =
    [Assign (TName ''diagram_id'') (StrLit ''BPT-NII''),
     Assign (TName ''ia'') (IntLit 0),
     Assign (TName ''x'') (ListE []),
     Assign (TName ''y'') (ListE []),
     bpt_loop,
     Assign (TName ''logNII_Ha'')
       (MethodCall (Name ''np'') ''arange''
          [FloatLit ''-2.0'', FloatLit ''1.0'', FloatLit ''0.01''] []),
     Assign (TName ''logOIII_Hb'')
       (MethodCall (Name ''line_ratios'') ''get_bpt_kewley01'' [Name ''logNII_Ha''] []),
     ExprStmt (MethodCall (Name ''plt'') ''plot''
       [BinOp (IntLit 10) Power (Name ''logNII_Ha''), BinOp (IntLit 10) Power (Name ''logOIII_Hb'')]
       [(''c'', StrLit ''k''), (''lw'', StrLit ''2''), (''alpha'', FloatLit ''0.3'')]),
     ExprStmt (MethodCall (Name ''plt'') ''plot'' [Name ''x'', Name ''y''] []),
     ExprStmt (MethodCall (Name ''plt'') ''xlim'' [ListE [FloatLit ''0.01'', IntLit 10]] []),
     ExprStmt (MethodCall (Name ''plt'') ''ylim'' [ListE [FloatLit ''0.05'', IntLit 20]] []),
     ExprStmt (MethodCall (Name ''plt'') ''xscale'' [StrLit ''log''] []),
     ExprStmt (MethodCall (Name ''plt'') ''yscale'' [StrLit ''log''] []),
     Assign (TTuple [TName ''xlabel'', TName ''ylabel''])
       (Call (Name ''get_diagram_labels'') [Name ''diagram_id''] []),
     ExprStmt (MethodCall (Name ''plt'') ''xlabel''
       [JoinedStr [Text ''$'', FormattedValue (Name ''xlabel'') [], Text ''$'']] []),
     ExprStmt (MethodCall (Name ''plt'') ''ylabel''
       [JoinedStr [Text ''$'', FormattedValue (Name ''ylabel'') [], Text ''$'']] []),
     ExprStmt (MethodCall (Name ''plt'') ''show'' [] [])]"

definition part_000 :: notebook where
  "part_000 =
    [part_000_cell1, part_000_cell2, part_000_cell3, part_000_cell4, part_000_cell5,
     part_000_cell6, part_000_cell7, part_000_cell8, part_000_cell9, part_000_cell10,
     part_000_cell11, part_000_cell12]"

subsection \<open>Particle vs Parametric (src/unnamed/part_001)\<close>

definition part_001_cell1 :: cell where
  "part_001_cell1 =
    [Import ''numpy'' (Some ''np''),
     ImportFrom ''synthesizer.grid'' [(''Grid'', None)],
     ImportFrom ''synthesizer.parametric'' [(''SFH'', None), (''ZDist'', None)],
     ImportFrom ''synthesizer.parametric'' [(''Stars'', Some ''ParametricStars'')],
     ImportFrom ''synthesizer.particle.stars'' [(''sample_sfhz'', None)],
     ImportFrom ''unyt'' [(''Myr'', None)],
     Assign (TName ''grid_name'') (StrLit ''test_grid''),
     Assign (TName ''grid_dir'') (StrLit ''../../../tests/test_grid/''),
     Assign (TName ''grid'')
       (Call (Name ''Grid'') [Name ''grid_name''] [(''grid_dir'', Name ''grid_dir'')]),
     Assign (TName ''zh'')
       (MethodCall (Name ''ZDist'') ''DeltaConstant'' [] [(''metallicity'', FloatLit ''0.01'')]),
     Assign (TName ''sfh_p'')
       (DictE [(StrLit ''duration'', BinOp (IntLit 100) Mult (Name ''Myr''))]),
     Assign (TName ''sfh'')
       (MethodCall (Name ''SFH'') ''Constant'' []
          [(''duration'', BinOp (IntLit 100) Mult (Name ''Myr''))]),
     Assign (TName ''param_stars'')
       (Call (Name ''ParametricStars'')
          [Attribute (Name ''grid'') ''log10age'', Attribute (Name ''grid'') ''metallicity'']
          [(''sf_hist'', Name ''sfh''), (''metal_dist'', Name ''zh''),
           (''initial_mass'', BinOp (IntLit 10) Power (IntLit 9))]),
     Assign (TName ''n'') (IntLit 10000),
     Assign (TName ''part_stars'')
       (Call (Name ''sample_sfhz'') []
          [(''sfzh'', Attribute (Name ''param_stars'') ''sfzh''),
           (''log10ages'', Attribute (Name ''param_stars'') ''log10ages''),
           (''log10metallicities'', Attribute (Name ''param_stars'') ''log10metallicities''),
           (''nstar'', Name ''n''),
           (''current_masses'',
              MethodCall (Name ''np'') ''full''
                [Name ''n'', BinOp (BinOp (IntLit 10) Power (FloatLit ''8.7'')) Div (Name ''n'')] []),
           (''redshift'', IntLit 1),
           (''initial_mass'', BinOp (IntLit 10) Power (IntLit 6))]),
     ExprStmt (Call (Name ''print'') [Call (Name ''type'') [Name ''param_stars''] []] []),
     ExprStmt (Call (Name ''print'') [Call (Name ''type'') [Name ''part_stars''] []] [])]"

definition part_001_cell2 :: cell where
  "part_001_cell2 =
    [ImportFrom ''synthesizer'' [(''Galaxy'', None)],
     Assign (TName ''part_gal'')
       (Call (Name ''Galaxy'') []
          [(''stars'', Name ''part_stars''), (''gas'', NoneLit), (''black_holes'', NoneLit),
           (''redshift'', IntLit 1)]),
     ExprStmt (Call (Name ''print'') [Name ''part_gal''] []),
     ExprStmt (Call (Name ''print'') [] []),
     Assign (TName ''param_gal'')
       (Call (Name ''Galaxy'') [] [(''stars'', Name ''param_stars''), (''redshift'', IntLit 1)]),
     ExprStmt (Call (Name ''print'') [Name ''param_gal''] [])]"

definition part_001_cell3 :: cell where
  "part_001_cell3 =
    [ImportFrom ''synthesizer.particle'' [(''Galaxy'', None)],
     Assign (TName ''part_gal'')
       (Call (Name ''Galaxy'') []
          [(''stars'', Name ''part_stars''), (''gas'', NoneLit), (''black_holes'', NoneLit),
           (''redshift'', IntLit 1)]),
     ExprStmt (Call (Name ''print'') [Name ''part_gal''] [])]"

definition part_001_cell4 :: cell where
  "part_001_cell4 =
    [ImportFrom ''synthesizer.parametric'' [(''Galaxy'', None)],
     Assign (TName ''param_gal'')
       (Call (Name ''Galaxy'') [] [(''stars'', Name ''param_stars''), (''redshift'', IntLit 1)]),
     ExprStmt (Call (Name ''print'') [Name ''param_gal''] [])]"

definition part_001 :: notebook where
  "part_001 = [part_001_cell1, part_001_cell2, part_001_cell3, part_001_cell4]"

subsection \<open>Lines from Galaxy objects (src/docs/source/lines/galaxy_lines.ipynb)\<close>

definition three_lines :: expr where
  "three_lines =
     TupleE [Attribute (Name ''line_ratios'') ''Hb'',
             Attribute (Name ''line_ratios'') ''O3r'',
             Attribute (Name ''line_ratios'') ''O3b'']"

definition galaxy_lines_cell1 :: cell where
  "galaxy_lines_cell1 =
    [Import ''synthesizer.line_ratios'' (Some ''line_ratios''),
     ImportFrom ''synthesizer.emission_models'' [(''BimodalPacmanEmission'', None)],
     ImportFrom ''synthesizer.emission_models.attenuation'' [(''PowerLaw'', None)],
     ImportFrom ''synthesizer.emission_models.dust.emission'' [(''Blackbody'', None)],
     ImportFrom ''synthesizer.grid'' [(''Grid'', None)],
     ImportFrom ''synthesizer.parametric'' [(''SFH'', None), (''Stars'', None), (''ZDist'', None)],
     ImportFrom ''unyt'' [(''Myr'', None), (''kelvin'', None)],
     Assign (TName ''grid_dir'') (StrLit ''../../../tests/test_grid''),
     Assign (TName ''grid_name'') (StrLit ''test_grid''),
     Assign (TName ''grid'')
       (Call (Name ''Grid'') [Name ''grid_name''] [(''grid_dir'', Name ''grid_dir'')]),
     Assign (TName ''stellar_mass'') (BinOp (IntLit 10) Power (IntLit 12)),
     Assign (TName ''sfh'')
       (MethodCall (Name ''SFH'') ''Constant'' []
          [(''duration'', BinOp (IntLit 100) Mult (Name ''Myr''))]),
     Assign (TName ''metal_dist'')
       (MethodCall (Name ''ZDist'') ''Normal'' []
          [(''mean'', FloatLit ''0.01''), (''sigma'', FloatLit ''0.05'')]),
     Assign (TName ''stars'')
       (Call (Name ''Stars'')
          [Attribute (Name ''grid'') ''log10age'', Attribute (Name ''grid'') ''metallicity'']
          [(''sf_hist'', Name ''sfh''), (''metal_dist'', Name ''metal_dist''),
           (''initial_mass'', Name ''stellar_mass'')]),
     Assign (TName ''model'')
       (Call (Name ''BimodalPacmanEmission'') []
          [(''grid'', Name ''grid''),
           (''tau_v_ism'', FloatLit ''0.5''),
           (''tau_v_nebular'', FloatLit ''0.7''),
           (''dust_curve_ism'', Call (Name ''PowerLaw'') [] [(''slope'', FloatLit ''-1.3'')]),
           (''dust_curve_nebular'', Call (Name ''PowerLaw'') [] [(''slope'', FloatLit ''-0.7'')]),
           (''dust_emission_ism'',
              Call (Name ''Blackbody'') []
                [(''temperature'', BinOp (IntLit 100) Mult (Name ''kelvin''))]),
           (''dust_emission_nebular'',
              Call (Name ''Blackbody'') []
                [(''temperature'', BinOp (IntLit 30) Mult (Name ''kelvin''))]),
           (''fesc'', FloatLit ''0.2''),
           (''fesc_ly_alpha'', FloatLit ''0.9'')]),
     ExprStmt (MethodCall (Name ''stars'') ''get_spectra'' [Name ''model''] []),
     Assign (TName ''lines'')
       (MethodCall (Name ''stars'') ''get_lines'' [three_lines, Name ''model''] []),
     ExprStmt (Call (Name ''print'')
       [Subscript (Attribute (Name ''stars'') ''lines'') (StrLit ''emergent'')] [])]"

definition galaxy_lines_cell2 :: cell where
  "galaxy_lines_cell2 =
    [ImportFrom ''synthesizer.emission_models'' [(''PacmanEmission'', None)],
     ImportFrom ''synthesizer.load_data.load_camels'' [(''load_CAMELS_IllustrisTNG'', None)],
     Assign (TName ''stars'')
       (Attribute
          (Subscript
             (Call (Name ''load_CAMELS_IllustrisTNG'') [StrLit ''../../../tests/data/'']
                [(''snap_name'', StrLit ''camels_snap.hdf5''),
                 (''fof_name'', StrLit ''camels_subhalo.hdf5''),
                 (''physical'', BoolLit True)])
             (IntLit 0))
          ''stars''),
     Assign (TName ''model'')
       (Call (Name ''PacmanEmission'') []
          [(''grid'', Name ''grid''),
           (''tau_v'', FloatLit ''0.7''),
           (''dust_curve'', Call (Name ''PowerLaw'') [] [(''slope'', FloatLit ''-1.3'')]),
           (''dust_emission'',
              Call (Name ''Blackbody'') []
                [(''temperature'', BinOp (IntLit 50) Mult (Name ''kelvin''))]),
           (''fesc'', FloatLit ''0.2''),
           (''fesc_ly_alpha'', FloatLit ''0.9'')]),
     ExprStmt (MethodCall (Name ''stars'') ''get_spectra'' [Name ''model''] []),
     ExprStmt (MethodCall (Name ''stars'') ''get_lines'' [three_lines, Name ''model''] []),
     ExprStmt (Call (Name ''print'')
       [Subscript (Attribute (Name ''stars'') ''lines'') (StrLit ''emergent'')] []),
     ExprStmt (MethodCall (Name ''stars'') ''get_particle_spectra'' [Name ''model''] []),
     ExprStmt (MethodCall (Name ''stars'') ''get_particle_lines'' [three_lines, Name ''model''] []),
     ExprStmt (Call (Name ''print'')
       [Subscript (Attribute (Name ''stars'') ''particle_lines'') (StrLit ''emergent'')] [])]"

definition galaxy_lines :: notebook where
  "galaxy_lines = [galaxy_lines_cell1, galaxy_lines_cell2]"

definition notebooks :: "notebook list" where
  "notebooks = [part_000, part_001, galaxy_lines]"

definition initial :: state where
  "initial = \<lparr>env = Map.empty, trace = []\<rparr>"

definition run :: "world \<Rightarrow> notebook \<Rightarrow> outcome" where
  "run W nb = execs W (concat nb) initial"

section \<open>Syntactic analyses of a program\<close>

text \<open>
  All subexpressions of an expression, all nested statements of a statement list, and the
  queries a program can put to the runtime, read off its text.
\<close>

function (sequential) subexprs :: "expr \<Rightarrow> expr list"
  and subexprs_list :: "expr list \<Rightarrow> expr list"
  and subexprs_kws :: "(string \<times> expr) list \<Rightarrow> expr list"
  and subexprs_pairs :: "(expr \<times> expr) list \<Rightarrow> expr list"
  and subexprs_parts :: "fpart list \<Rightarrow> expr list"
  and subexprs_part :: "fpart \<Rightarrow> expr list"
where
  "subexprs (Attribute e a) = Attribute e a # subexprs e"
| "subexprs (Call f args kws) =
     Call f args kws # subexprs f @ subexprs_list args @ subexprs_kws kws"
| "subexprs (MethodCall r m args kws) =
     MethodCall r m args kws # subexprs r @ subexprs_list args @ subexprs_kws kws"
| "subexprs (Subscript e k) = Subscript e k # subexprs e @ subexprs k"
| "subexprs (BinOp l b r) = BinOp l b r # subexprs l @ subexprs r"
| "subexprs (TupleE es) = TupleE es # subexprs_list es"
| "subexprs (ListE es) = ListE es # subexprs_list es"
| "subexprs (DictE kvs) = DictE kvs # subexprs_pairs kvs"
| "subexprs (JoinedStr ps) = JoinedStr ps # subexprs_parts ps"
| "subexprs e = [e]"
| "subexprs_list [] = []"
| "subexprs_list (e # es) = subexprs e @ subexprs_list es"
| "subexprs_kws [] = []"
| "subexprs_kws ((k, e) # kws) = subexprs e @ subexprs_kws kws"
| "subexprs_pairs [] = []"
| "subexprs_pairs ((k, e) # kvs) = subexprs k @ subexprs e @ subexprs_pairs kvs"
| "subexprs_parts [] = []"
| "subexprs_parts (p # ps) = subexprs_part p @ subexprs_parts ps"
| "subexprs_part (Text t) = []"
| "subexprs_part (FormattedValue e spec) = subexprs e"
  by pat_completeness auto

termination
  apply (relation "measure (case_sum
           (case_sum size
              (case_sum (size_list size) (size_list (size_prod (\<lambda>x. 0) size))))
           (case_sum (size_list (size_prod size size))
              (case_sum (size_list size) size)))")
  apply simp_all
  done

fun target_exprs :: "target \<Rightarrow> expr list"
  and targets_exprs :: "target list \<Rightarrow> expr list"
where
  "target_exprs (TName x) = []"
| "target_exprs (TTuple ts) = targets_exprs ts"
| "target_exprs (TAttr e a) = [e]"
| "target_exprs (TSub e k) = [e, k]"
| "targets_exprs [] = []"
| "targets_exprs (t # ts) = target_exprs t @ targets_exprs ts"

fun substmts :: "stmt \<Rightarrow> stmt list"
  and substmts_list :: "stmt list \<Rightarrow> stmt list"
where
  "substmts (For t e body) = For t e body # substmts_list body"
| "substmts (IfStmt c a b) = IfStmt c a b # substmts_list a @ substmts_list b"
| "substmts (TryStmt a b) = TryStmt a b # substmts_list a @ substmts_list b"
| "substmts (FunctionDef f ps body) = FunctionDef f ps body # substmts_list body"
| "substmts (ClassDef c body) = ClassDef c body # substmts_list body"
| "substmts c = [c]"
| "substmts_list [] = []"
| "substmts_list (c # cs) = substmts c @ substmts_list cs"

fun stmt_exprs :: "stmt \<Rightarrow> expr list" where
  "stmt_exprs (Assign t e) = e # target_exprs t"
| "stmt_exprs (ExprStmt e) = [e]"
| "stmt_exprs (For t e body) = e # target_exprs t"
| "stmt_exprs (IfStmt c a b) = [c]"
| "stmt_exprs c = []"

definition all_exprs :: "stmt list \<Rightarrow> expr list" where
  "all_exprs p = subexprs_list (concat (map stmt_exprs (substmts_list p)))"


fun target_names :: "target \<Rightarrow> string list"
  and targets_names :: "target list \<Rightarrow> string list"
where
  "target_names (TName x) = [x]"
| "target_names (TTuple ts) = targets_names ts"
| "target_names (TAttr e a) = []"
| "target_names (TSub e k) = []"
| "targets_names [] = []"
| "targets_names (t # ts) = target_names t @ targets_names ts"

definition import_name :: "string \<times> string option \<Rightarrow> string" where
  "import_name na = (case snd na of Some b \<Rightarrow> b | None \<Rightarrow> fst na)"

fun binders :: "stmt \<Rightarrow> string list"
  and binders_list :: "stmt list \<Rightarrow> string list"
where
  "binders (Import m a) = [case a of Some b \<Rightarrow> b | None \<Rightarrow> top_package m]"
| "binders (ImportFrom m ns) = map import_name ns"
| "binders (Assign t e) = target_names t"
| "binders (ExprStmt e) = []"
| "binders (For t e body) = target_names t @ binders_list body"
| "binders (IfStmt c yes no) = binders_list yes @ binders_list no"
| "binders (TryStmt body handler) = binders_list body @ binders_list handler"
| "binders (FunctionDef f ps body) = [f]"
| "binders (ClassDef c body) = [c]"
| "binders_list [] = []"
| "binders_list (c # cs) = binders c @ binders_list cs"

fun is_try :: "stmt \<Rightarrow> bool" where
  "is_try (TryStmt a b) = True"
| "is_try c = False"

definition no_try :: "stmt list \<Rightarrow> bool" where
  "no_try cs = list_all (\<lambda>c. \<not> is_try c) (substmts_list cs)"


section \<open>Observations on a run\<close>

definition final :: "outcome \<Rightarrow> state" where
  "final r = (case r of Inl (e, s) \<Rightarrow> s | Inr s \<Rightarrow> s)"

definition result_state :: "'a result \<Rightarrow> state" where
  "result_state r = (case r of Inl (e, s) \<Rightarrow> s | Inr (v, s) \<Rightarrow> s)"

fun query_of :: "event \<Rightarrow> query" where
  "query_of (Ev q a r) = q"

fun part_query :: "fpart \<Rightarrow> query list" where
  "part_query (Text t) = []"
| "part_query (FormattedValue e spec) = [QFormat spec]"

fun expr_query :: "expr \<Rightarrow> query list" where
  "expr_query (Attribute e a) = [QGetAttr a]"
| "expr_query (Call f args kws) = [QCall (map fst kws), QIter]"
| "expr_query (MethodCall r m args kws) = [QMethod m (map fst kws)]"
| "expr_query (Subscript e k) = [QSubscript]"
| "expr_query (BinOp l b r) = [QBinOp b]"
| "expr_query (JoinedStr ps) = concat (map part_query ps)"
| "expr_query e = []"

definition expr_queries :: "expr list \<Rightarrow> query list" where
  "expr_queries es = concat (map expr_query es)"

fun target_queries :: "target \<Rightarrow> query list"
  and targets_queries :: "target list \<Rightarrow> query list"
where
  "target_queries (TName x) = []"
| "target_queries (TTuple ts) = QIter # targets_queries ts"
| "target_queries (TAttr e a) = [QSetAttr a]"
| "target_queries (TSub e k) = [QSetItem]"
| "targets_queries [] = []"
| "targets_queries (t # ts) = target_queries t @ targets_queries ts"

fun stmt_query :: "stmt \<Rightarrow> query list" where
  "stmt_query (Import m a) = [QImport m, QImport (top_package m)]"
| "stmt_query (ImportFrom m ns) = map (\<lambda>(n, a). QImportFrom m n) ns"
| "stmt_query (Assign t e) = target_queries t"
| "stmt_query (For t e body) = QIter # target_queries t"
| "stmt_query (IfStmt c a b) = [QTruth]"
| "stmt_query (FunctionDef f ps body) = [QMakeFunction f]"
| "stmt_query (ClassDef c body) = [QMakeClass c]"
| "stmt_query c = []"

definition queries_of :: "stmt list \<Rightarrow> query list" where
  "queries_of p =
     concat (map stmt_query (substmts_list p)) @ expr_queries (all_exprs p)"

fun ok_event :: "event \<Rightarrow> bool" where
  "ok_event (Ev q a (Inl e)) = False"
| "ok_event (Ev q a (Inr v)) = True"

definition extends :: "state \<Rightarrow> exn option \<Rightarrow> state \<Rightarrow> bool" where
  "extends s err s' =
     (\<exists>new. trace s' = trace s @ new \<and>
        (case err of
           None \<Rightarrow> list_all ok_event new
         | Some e \<Rightarrow> list_all ok_event new \<or>
             (\<exists>pre q a. new = pre @ [Ev q a (Inl e)] \<and> list_all ok_event pre)))"

definition result_ok :: "state \<Rightarrow> 'a result \<Rightarrow> bool" where
  "result_ok s r = (case r of Inl (e, s') \<Rightarrow> extends s (Some e) s' | Inr (v, s') \<Rightarrow> extends s None s')"

definition outcome_ok :: "state \<Rightarrow> outcome \<Rightarrow> bool" where
  "outcome_ok s r = (case r of Inl (e, s') \<Rightarrow> extends s (Some e) s' | Inr s' \<Rightarrow> extends s None s')"

definition issues :: "query list \<Rightarrow> state \<Rightarrow> state \<Rightarrow> bool" where
  "issues qs s s' = (\<exists>new. trace s' = trace s @ new \<and> list_all (\<lambda>ev. query_of ev \<in> set qs) new)"

definition keeps :: "string \<Rightarrow> state \<Rightarrow> state \<Rightarrow> bool" where
  "keeps x s s' = (env s x = None \<longrightarrow> env s' x = None)"

definition same :: "string \<Rightarrow> state \<Rightarrow> state \<Rightarrow> bool" where
  "same x s s' = (env s' x = env s x)"

section \<open>Worlds used to exercise the theorems\<close>

text \<open>
  \<open>library_world\<close> answers every query the way the library does on the test grid, as
  far as the notebooks can tell: \<open>grid.metallicity\<close> is one array object (the same at
  every read) that iterates to three metallicities; any other iteration yields two ratio
  names; \<open>print\<close> returns \<open>None\<close>; \<open>get_diagram\<close> returns a pair of
  fresh objects; formatting yields a string; anything else a fresh opaque object.
  \<open>failing_world\<close> raises on every plain call and answers everything else.
\<close>

definition library_world :: world where
  "library_world tr q args =
     (case q of
        QGetAttr a \<Rightarrow> if a = ''metallicity'' then Inr (VObj 1) else Inr (VObj (2 + length tr))
      | QIter \<Rightarrow>
          if args = [VObj 1] then Inr (VList [VFloat ''0.0001'', VFloat ''0.001'', VFloat ''0.01''])
          else Inr (VList [VStr ''BalmerDecrement'', VStr ''R23''])
      | QCall kw \<Rightarrow>
          if args \<noteq> [] \<and> hd args = VBuiltin ''print'' then Inr VNone else Inr (VObj (2 + length tr))
      | QMethod m kw \<Rightarrow>
          if m = ''get_diagram'' then Inr (VTuple [VObj (2 + length tr), VObj (1002 + length tr)])
          else Inr (VObj (2 + length tr))
      | QFormat spec \<Rightarrow> Inr (VStr ''1.00'')
      | _ \<Rightarrow> Inr (VObj (2 + length tr)))"

definition failing_world :: world where
  "failing_world tr q args =
     (case q of
        QCall kw \<Rightarrow> Inl (LibraryError ''FileNotFoundError'')
      | _ \<Rightarrow> Inr (VObj (length tr)))"

section \<open>Predicates the claims are stated with\<close>





text \<open>
  The order the galaxy notebook keeps: a \<open>get_lines\<close> call on an object with a model
  comes after an answered \<open>get_spectra\<close> call on the same object with the same model,
  and likewise \<open>get_particle_lines\<close> after \<open>get_particle_spectra\<close>.
  \<open>spectra_first seen tr\<close> checks the events of \<open>tr\<close> in order, \<open>seen\<close> being
  the events before them.
\<close>

fun answered :: "string \<Rightarrow> val list \<Rightarrow> event \<Rightarrow> bool" where
  "answered m args (Ev q a (Inr v)) = (q = QMethod m [] \<and> a = args)"
| "answered m args (Ev q a (Inl e)) = False"

definition spectra_for :: "string \<Rightarrow> string" where
  "spectra_for m = (if m = ''get_lines'' then ''get_spectra'' else ''get_particle_spectra'')"

fun lines_query :: "query \<Rightarrow> bool" where
  "lines_query (QMethod m kw) = (m = ''get_lines'' \<or> m = ''get_particle_lines'')"
| "lines_query q = False"

fun prepared :: "event list \<Rightarrow> event \<Rightarrow> bool" where
  "prepared seen (Ev (QMethod m kw) args r) =
     (if m = ''get_lines'' \<or> m = ''get_particle_lines'' then
        (case args of
           [st, ls, mo] \<Rightarrow> kw = [] \<and> list_ex (answered (spectra_for m) [st, mo]) seen
         | _ \<Rightarrow> False)
      else True)"
| "prepared seen ev = True"

fun spectra_first :: "event list \<Rightarrow> event list \<Rightarrow> bool" where
  "spectra_first seen [] = True"
| "spectra_first seen (ev # evs) = (prepared seen ev \<and> spectra_first (ev # seen) evs)"

definition ordered :: "state \<Rightarrow> state \<Rightarrow> bool" where
  "ordered s s' = (\<exists>new. trace s' = trace s @ new \<and> spectra_first [] new)"

definition stopping_world :: world where
  "stopping_world tr q args =
     (case q of
        QSubscript \<Rightarrow> Inl (LibraryError ''KeyError'')
      | _ \<Rightarrow> Inr (VObj (length tr)))"

text \<open>
  The events of the R23 loop, iteration by iteration from index \<open>i\<close>: the pair
  \<open>(L, r)\<close> of an iteration is the line collection the grid returned and the ratio that
  collection returned.
\<close>

fun r23_trace :: "val \<Rightarrow> int \<Rightarrow> (val \<times> val) list \<Rightarrow> event list" where
  "r23_trace g i [] = []"
| "r23_trace g i ((L, r) # ps) =
     [Ev (QMethod ''get_lines'' []) [g, VTuple [VInt 0, VInt i]] (Inr L),
      Ev (QMethod ''get_ratio'' []) [L, VStr ''R23''] (Inr r)] @ r23_trace g (i + 1) ps"

text \<open>
  \<open>r23_answers W g tr i ps\<close>: from the history \<open>tr\<close> on, the world \<open>W\<close>
  answers the calls of the R23 loop with the pairs \<open>ps\<close>, iteration by iteration.
\<close>

fun r23_answers :: "world \<Rightarrow> val \<Rightarrow> event list \<Rightarrow> int \<Rightarrow> (val \<times> val) list \<Rightarrow> bool" where
  "r23_answers W g tr i [] = True"
| "r23_answers W g tr i ((L, r) # ps) =
     (W tr (QMethod ''get_lines'' []) [g, VTuple [VInt 0, VInt i]] = Inr L \<and>
      W (tr @ [Ev (QMethod ''get_lines'' []) [g, VTuple [VInt 0, VInt i]] (Inr L)])
        (QMethod ''get_ratio'' []) [L, VStr ''R23''] = Inr r \<and>
      r23_answers W g (tr @ r23_trace g i [(L, r)]) (i + 1) ps)"

text \<open>Straight-line statements: imports, assignments and expression statements.\<close>

fun simple :: "stmt \<Rightarrow> bool" where
  "simple (Import m a) = True"
| "simple (ImportFrom m ns) = True"
| "simple (Assign t e) = True"
| "simple (ExprStmt e) = True"
| "simple c = False"

definition straight_line :: "stmt list \<Rightarrow> bool" where
  "straight_line p = list_all simple p"

















fun expr_name :: "expr \<Rightarrow> string list" where
  "expr_name (Name x) = [x]"
| "expr_name e = []"











text \<open>
  Names a cell reads before it has bound them itself (a loop body may run zero times, so
  what it binds is not bound for the statements after the loop), and the names a cell
  writes: each binding occurrence, a second time if it stands in a loop, and each list a
  cell appends to.
\<close>

definition unbound :: "string list \<Rightarrow> expr list \<Rightarrow> string list" where
  "unbound bs es = filter (\<lambda>x. x \<notin> set bs) (concat (map expr_name (subexprs_list es)))"

fun definitely_binds :: "stmt \<Rightarrow> string list" where
  "definitely_binds (Import m a) = binders (Import m a)"
| "definitely_binds (ImportFrom m ns) = binders (ImportFrom m ns)"
| "definitely_binds (Assign t e) = target_names t"
| "definitely_binds (FunctionDef f ps body) = [f]"
| "definitely_binds (ClassDef c body) = [c]"
| "definitely_binds c = []"

fun free_stmt :: "string list \<Rightarrow> stmt \<Rightarrow> string list"
  and free_list :: "string list \<Rightarrow> stmt list \<Rightarrow> string list"
where
  "free_stmt bs (Assign t e) = unbound bs (e # target_exprs t)"
| "free_stmt bs (ExprStmt e) = unbound bs [e]"
| "free_stmt bs (For t e body) =
     unbound bs (e # target_exprs t) @ free_list (target_names t @ bs) body"
| "free_stmt bs (IfStmt c yes no) = unbound bs [c] @ free_list bs yes @ free_list bs no"
| "free_stmt bs (TryStmt body handler) = free_list bs body @ free_list bs handler"
| "free_stmt bs (FunctionDef f ps body) = free_list (ps @ bs) body"
| "free_stmt bs (ClassDef c body) = free_list bs body"
| "free_stmt bs c = []"
| "free_list bs [] = []"
| "free_list bs (c # cs) = free_stmt bs c @ free_list (definitely_binds c @ bs) cs"

definition free_names :: "cell \<Rightarrow> string list" where
  "free_names c = remdups (free_list [] c)"

fun expr_appended :: "expr \<Rightarrow> string list" where
  "expr_appended (MethodCall (Name x) m args kws) = (if m = ''append'' then [x] else [])"
| "expr_appended e = []"

fun stmt_loop_writes :: "stmt \<Rightarrow> string list" where
  "stmt_loop_writes (For t e body) = target_names t @ binders_list body"
| "stmt_loop_writes c = []"

definition writes :: "cell \<Rightarrow> string list" where
  "writes c =
     binders_list c @ concat (map stmt_loop_writes (substmts_list c)) @
     concat (map expr_appended (all_exprs c))"

definition self_contained :: "cell \<Rightarrow> bool" where
  "self_contained c = list_all (\<lambda>x. x \<in> set builtins) (free_names c)"

text \<open>
  \<open>single_writer ws cs\<close>: every name a cell of \<open>cs\<close> reads from outside itself has
  been written exactly once by the cells before it (\<open>ws\<close> lists their writes), or never
  and is a builtin.
\<close>

fun single_writer :: "string list \<Rightarrow> cell list \<Rightarrow> bool" where
  "single_writer ws [] = True"
| "single_writer ws (c # cs) =
     (list_all (\<lambda>x. if x \<in> set ws then count_list ws x = 1 else x \<in> set builtins) (free_names c)
      \<and> single_writer (ws @ writes c) cs)"
text \<open>
  The state in which a loop over \<open>enumerate(grid.metallicity)\<close> starts: \<open>sa\<close>
  with the read of \<open>grid.metallicity\<close> (answered with the object \<open>a\<close>) and its
  iteration (answered with the elements \<open>ms\<close>) recorded.
\<close>

definition metallicity_read :: "state \<Rightarrow> val \<Rightarrow> nat \<Rightarrow> val list \<Rightarrow> state" where
  "metallicity_read sa g a ms =
     sa\<lparr>trace := trace sa @ [Ev (QGetAttr ''metallicity'') [g] (Inr (VObj a)),
                               Ev QIter [VObj a] (Inr (VList ms))]\<rparr>"

text \<open>
  \<open>interrupted_world\<close> is \<open>library_world\<close>, except that \<open>get_diagram\<close>
  answers once and raises from its second call on.
\<close>

definition interrupted_world :: world where
  "interrupted_world tr q args =
     (if q = QMethod ''get_diagram'' [] \<and> list_ex (\<lambda>ev. query_of ev = QMethod ''get_diagram'' []) tr
      then Inl (LibraryError ''KeyError'')
      else library_world tr q args)"

text \<open>
  The query sites of an expression, a target and a straight-line statement, in the order
  in which evaluation reaches them: one entry for every place in the text that can put a
  query to the world (a call has two, of which at most one is used: iteration, when the
  callee is \<open>enumerate\<close>, and the call itself otherwise).
\<close>

function (sequential) sites :: "expr \<Rightarrow> query list"
  and sites_list :: "expr list \<Rightarrow> query list"
  and sites_kws :: "(string \<times> expr) list \<Rightarrow> query list"
  and sites_pairs :: "(expr \<times> expr) list \<Rightarrow> query list"
  and sites_parts :: "fpart list \<Rightarrow> query list"
  and sites_part :: "fpart \<Rightarrow> query list"
where
  "sites (Attribute e a) = sites e @ [QGetAttr a]"
| "sites (Call f args kws) =
     sites f @ sites_list args @ sites_kws kws @ [QIter, QCall (map fst kws)]"
| "sites (MethodCall r m args kws) =
     sites r @ sites_list args @ sites_kws kws @ [QMethod m (map fst kws)]"
| "sites (Subscript e k) = sites e @ sites k @ [QSubscript]"
| "sites (BinOp l b r) = sites l @ sites r @ [QBinOp b]"
| "sites (TupleE es) = sites_list es"
| "sites (ListE es) = sites_list es"
| "sites (DictE kvs) = sites_pairs kvs"
| "sites (JoinedStr ps) = sites_parts ps"
| "sites e = []"
| "sites_list [] = []"
| "sites_list (e # es) = sites e @ sites_list es"
| "sites_kws [] = []"
| "sites_kws ((k, e) # kws) = sites e @ sites_kws kws"
| "sites_pairs [] = []"
| "sites_pairs ((k, e) # kvs) = sites k @ sites e @ sites_pairs kvs"
| "sites_parts [] = []"
| "sites_parts (p # ps) = sites_part p @ sites_parts ps"
| "sites_part (Text t) = []"
| "sites_part (FormattedValue e spec) = sites e @ [QFormat spec]"
  by pat_completeness auto

termination
  apply (relation "measure (case_sum
           (case_sum size
              (case_sum (size_list size) (size_list (size_prod (\<lambda>x. 0) size))))
           (case_sum (size_list (size_prod size size))
              (case_sum (size_list size) size)))")
  apply simp_all
  done

fun target_sites :: "target \<Rightarrow> query list"
  and targets_sites :: "target list \<Rightarrow> query list"
where
  "target_sites (TName x) = []"
| "target_sites (TTuple ts) = [QIter] @ targets_sites ts"
| "target_sites (TAttr e a) = sites e @ [QSetAttr a]"
| "target_sites (TSub e k) = sites e @ sites k @ [QSetItem]"
| "targets_sites [] = []"
| "targets_sites (t # ts) = target_sites t @ targets_sites ts"

fun stmt_sites :: "stmt \<Rightarrow> query list" where
  "stmt_sites (Import m a) = [QImport m, QImport (top_package m)]"
| "stmt_sites (ImportFrom m ns) = map (\<lambda>na. QImportFrom m (fst na)) ns"
| "stmt_sites (Assign t e) = sites e @ target_sites t"
| "stmt_sites (ExprStmt e) = sites e"
| "stmt_sites c = []"

definition program_sites :: "stmt list \<Rightarrow> query list" where
  "program_sites p = concat (map stmt_sites p)"

text \<open>
  \<open>within qs s s'\<close>: from \<open>s\<close> to \<open>s'\<close> the trace grew by events whose queries
  are, in order, a subsequence of \<open>qs\<close>.
\<close>

definition within :: "query list \<Rightarrow> state \<Rightarrow> state \<Rightarrow> bool" where
  "within qs s s' = (\<exists>new. trace s' = trace s @ new \<and> subseq (map query_of new) qs)"

text \<open>
  \<open>long_world n\<close> is \<open>library_world\<close> with a grid of \<open>n\<close> metallicities.
\<close>

definition long_world :: "nat \<Rightarrow> world" where
  "long_world n tr q args =
     (if q = QIter \<and> args = [VObj 1] then Inr (VList (replicate n (VFloat ''0.01'')))
      else library_world tr q args)"


section \<open>General facts about the interpreter\<close>

subsection \<open>Every event of a run carries a query that occurs in the program text\<close>

lemma issues_refl [simp]: "issues qs s s"
  by (simp add: issues_def)

lemma issues_trans: "issues qs s s1 \<Longrightarrow> issues qs s1 s2 \<Longrightarrow> issues qs s s2"
  by (auto simp: issues_def)

lemma issues_bind_name [simp]:
  "issues qs s (bind_name x v s') = issues qs s s'"
  "issues qs (bind_name x v s) s' = issues qs s s'"
  by (simp_all add: issues_def bind_name_def)

lemma issues_list_append [simp]: "issues qs s (list_append r v s') = issues qs s s'"
  by (auto simp: list_append_def split: expr.splits option.splits val.splits)

lemma issues_result_bind:
  "issues qs s (result_state m) \<Longrightarrow>
   (\<And>v s1. m = Inr (v, s1) \<Longrightarrow> issues qs s1 (result_state (f v s1))) \<Longrightarrow>
   issues qs s (result_state (case m of Inl x \<Rightarrow> Inl x | Inr (v, s1) \<Rightarrow> f v s1))"
  by (auto simp: result_state_def split: sum.splits intro: issues_trans)

lemma issues_result_return [simp]:
  "issues qs s (result_state (Inr (v, s')))  = issues qs s s'"
  "issues qs s (result_state (Inl (e, s')))  = issues qs s s'"
  by (simp_all add: result_state_def)

lemma ask_issues: "q \<in> set qs \<Longrightarrow> issues qs s (result_state (ask W q a s))"
  by (auto simp: ask_def issues_def result_state_def split: sum.splits)

lemma lookup_issues: "issues qs s (result_state (lookup x s))"
  by (auto simp: lookup_def split: option.splits)

lemma items_issues: "QIter \<in> set qs \<Longrightarrow> issues qs s (result_state (items W v s))"
  unfolding items_def
  by (cases v) (auto intro!: issues_result_bind ask_issues split: val.splits)

lemma call_issues:
  "QCall kwn \<in> set qs \<Longrightarrow> QIter \<in> set qs \<Longrightarrow> issues qs s (result_state (call W f avs kwn kvs s))"
  unfolding call_def
  by (auto intro!: issues_result_bind ask_issues items_issues)

lemma call_method_issues:
  "QMethod m kwn \<in> set qs \<Longrightarrow> issues qs s (result_state (call_method W r rv m avs kwn kvs s))"
proof (cases "is_list rv \<and> m = ''append'' \<and> kwn = [] \<and> length avs = 1")
  case True
  then show ?thesis by (simp add: call_method_def)
next
  case False
  assume "QMethod m kwn \<in> set qs"
  with False show ?thesis by (auto simp: call_method_def intro: ask_issues)
qed

lemma binary_issues: "QBinOp b \<in> set qs \<Longrightarrow> issues qs s (result_state (binary W b l r s))"
  unfolding binary_def
  by (auto intro!: ask_issues split: binop.splits val.splits)

lemma format_field_issues:
  "QFormat spec \<in> set qs \<Longrightarrow> issues qs s (result_state (format_field W v spec s))"
  unfolding format_field_def
  by (auto intro!: issues_result_bind ask_issues split: val.splits list.splits)

lemma truth_issues: "QTruth \<in> set qs \<Longrightarrow> issues qs s (result_state (truth W v s))"
  unfolding truth_def
  by (auto intro!: issues_result_bind ask_issues split: val.splits)

lemma expr_queries_simps [simp]:
  "expr_queries [] = []"
  "expr_queries (e # es) = expr_query e @ expr_queries es"
  "expr_queries (es @ fs) = expr_queries es @ expr_queries fs"
  by (simp_all add: expr_queries_def)

lemmas step_issues = ask_issues lookup_issues items_issues call_issues call_method_issues
  binary_issues format_field_issues truth_issues

lemma eval_issues:
  "set (expr_queries (subexprs e)) \<subseteq> set qs \<Longrightarrow> issues qs s (result_state (eval W e s))"
  "set (expr_queries (subexprs_list es)) \<subseteq> set qs \<Longrightarrow> issues qs s (result_state (evals W es s))"
  "set (expr_queries (subexprs_kws kws)) \<subseteq> set qs \<Longrightarrow> issues qs s (result_state (eval_kws W kws s))"
  "set (expr_queries (subexprs_pairs ps)) \<subseteq> set qs \<Longrightarrow> issues qs s (result_state (eval_pairs W ps s))"
  "set (concat (map part_query fs)) \<union> set (expr_queries (subexprs_parts fs)) \<subseteq> set qs \<Longrightarrow>
     issues qs s (result_state (eval_parts W fs s))"
  "set (part_query f) \<union> set (expr_queries (subexprs_part f)) \<subseteq> set qs \<Longrightarrow>
     issues qs s (result_state (eval_part W f s))"
proof (induction W e s and W es s and W kws s and W ps s and W fs s and W f s
    rule: eval_evals_eval_kws_eval_pairs_eval_parts_eval_part.induct)
qed (auto intro!: issues_result_bind step_issues)


lemma subexprs_list_append [simp]: "subexprs_list (es @ fs) = subexprs_list es @ subexprs_list fs"
  by (induction es) simp_all

lemma substmts_list_append [simp]: "substmts_list (cs @ ds) = substmts_list cs @ substmts_list ds"
  by (induction cs) simp_all

lemma subexprs_list_concat: "subexprs_list (concat ess) = concat (map subexprs_list ess)"
  by (induction ess) simp_all

lemma queries_of_append: "set (queries_of (cs @ ds)) = set (queries_of cs) \<union> set (queries_of ds)"
  by (auto simp: queries_of_def all_exprs_def)

lemma queries_of_Cons: "set (queries_of (c # cs)) = set (queries_of [c]) \<union> set (queries_of cs)"
  using queries_of_append[of "[c]" cs] by simp

lemma queries_of_Nil [simp]: "queries_of [] = []"
  by (simp add: queries_of_def all_exprs_def)

lemma queries_of_stmt:
  "set (queries_of [Import m a]) = {QImport m, QImport (top_package m)}"
  "set (queries_of [ImportFrom m ns]) = set (map (\<lambda>(n, a). QImportFrom m n) ns)"
  "set (queries_of [Assign t e]) =
     set (target_queries t) \<union> set (expr_queries (subexprs e)) \<union>
     set (expr_queries (subexprs_list (target_exprs t)))"
  "set (queries_of [ExprStmt e]) = set (expr_queries (subexprs e))"
  "set (queries_of [For t e body]) =
     insert QIter (set (target_queries t) \<union> set (expr_queries (subexprs e)) \<union>
       set (expr_queries (subexprs_list (target_exprs t))) \<union> set (queries_of body))"
  "set (queries_of [IfStmt c yes no]) =
     insert QTruth (set (expr_queries (subexprs c)) \<union> set (queries_of yes) \<union> set (queries_of no))"
  "set (queries_of [TryStmt yes no]) = set (queries_of yes) \<union> set (queries_of no)"
  "set (queries_of [FunctionDef f ps body]) = insert (QMakeFunction f) (set (queries_of body))"
  "set (queries_of [ClassDef d body]) = insert (QMakeClass d) (set (queries_of body))"
  by (auto simp: queries_of_def all_exprs_def)

lemma issues_outcome_bind:
  "issues qs s (final m) \<Longrightarrow> (\<And>s1. m = Inr s1 \<Longrightarrow> issues qs s1 (final (f s1))) \<Longrightarrow>
   issues qs s (final (case m of Inl x \<Rightarrow> Inl x | Inr s1 \<Rightarrow> f s1))"
  by (auto simp: final_def split: sum.splits intro: issues_trans)

lemma issues_mixed_bind:
  "issues qs s (result_state m) \<Longrightarrow>
   (\<And>v s1. m = Inr (v, s1) \<Longrightarrow> issues qs s1 (final (f v s1))) \<Longrightarrow>
   issues qs s (final (case m of Inl x \<Rightarrow> Inl x | Inr (v, s1) \<Rightarrow> f v s1))"
  by (auto simp: final_def result_state_def split: sum.splits intro: issues_trans)

lemma issues_final [simp]:
  "issues qs s (final (Inr s')) = issues qs s s'"
  "issues qs s (final (Inl (e, s'))) = issues qs s s'"
  by (simp_all add: final_def)

lemma assign_issues:
  "set (target_queries t) \<union> set (expr_queries (subexprs_list (target_exprs t))) \<subseteq> set qs \<Longrightarrow>
     issues qs s (final (assign W t v s))"
  "set (targets_queries ts) \<union> set (expr_queries (subexprs_list (targets_exprs ts))) \<subseteq> set qs \<Longrightarrow>
     issues qs s (final (assigns W ts vs s))"
proof (induction W t v s and W ts vs s rule: assign_assigns.induct)
qed (auto intro!: issues_mixed_bind issues_outcome_bind step_issues eval_issues)

lemma import_names_issues:
  "set (map (\<lambda>(n, a). QImportFrom m n) ns) \<subseteq> set qs \<Longrightarrow> issues qs s (final (import_names W m ns s))"
  by (induction W m ns s rule: import_names.induct)
     (auto intro!: issues_mixed_bind step_issues)

lemma import_module_issues:
  "QImport m \<in> set qs \<Longrightarrow> QImport (top_package m) \<in> set qs \<Longrightarrow>
   issues qs s (final (import_module W m a s))"
  unfolding import_module_def
  by (auto intro!: issues_mixed_bind step_issues split: option.splits)

lemma define_name_issues: "q \<in> set qs \<Longrightarrow> issues qs s (final (define_name W q x s))"
  unfolding define_name_def
  by (auto intro!: issues_mixed_bind step_issues)

lemma exec_issues:
  "set (queries_of [c]) \<subseteq> set qs \<Longrightarrow> issues qs s (final (exec W c s))"
  "set (queries_of cs) \<subseteq> set qs \<Longrightarrow> issues qs s (final (execs W cs s))"
  "set (target_queries t) \<union> set (expr_queries (subexprs_list (target_exprs t))) \<union>
     set (queries_of body) \<subseteq> set qs \<Longrightarrow> issues qs s (final (loop W t body vs s))"
proof (induction W c s and W cs s and W t body vs s rule: exec_execs_loop.induct)
  case (7 W body handler s)
  then show ?case
    by (auto simp: queries_of_stmt final_def split: sum.splits intro: issues_trans)
next
  case (11 W c cs s)
  then show ?case
    by (auto simp: queries_of_Cons[of c cs] intro!: issues_outcome_bind)
qed (auto simp: queries_of_stmt intro!: issues_mixed_bind issues_outcome_bind step_issues
      eval_issues assign_issues import_names_issues import_module_issues define_name_issues)



subsection \<open>A name no statement binds stays unbound\<close>

lemma keeps_refl [simp]: "keeps x s s"
  by (simp add: keeps_def)

lemma keeps_trans: "keeps x s s1 \<Longrightarrow> keeps x s1 s2 \<Longrightarrow> keeps x s s2"
  by (simp add: keeps_def)

lemma keeps_bind_name: "x \<noteq> y \<Longrightarrow> keeps x s (bind_name y v s)"
  by (simp add: keeps_def bind_name_def)

lemma keeps_list_append [simp]: "keeps x s (list_append r v s)"
  by (auto simp: keeps_def list_append_def bind_name_def split: expr.splits option.splits val.splits)

lemma keeps_result_bind:
  "keeps x s (result_state m) \<Longrightarrow>
   (\<And>v s1. m = Inr (v, s1) \<Longrightarrow> keeps x s1 (result_state (f v s1))) \<Longrightarrow>
   keeps x s (result_state (case m of Inl e \<Rightarrow> Inl e | Inr (v, s1) \<Rightarrow> f v s1))"
  by (auto simp: result_state_def split: sum.splits intro: keeps_trans)

lemma keeps_outcome_bind:
  "keeps x s (final m) \<Longrightarrow> (\<And>s1. m = Inr s1 \<Longrightarrow> keeps x s1 (final (f s1))) \<Longrightarrow>
   keeps x s (final (case m of Inl e \<Rightarrow> Inl e | Inr s1 \<Rightarrow> f s1))"
  by (auto simp: final_def split: sum.splits intro: keeps_trans)

lemma keeps_mixed_bind:
  "keeps x s (result_state m) \<Longrightarrow>
   (\<And>v s1. m = Inr (v, s1) \<Longrightarrow> keeps x s1 (final (f v s1))) \<Longrightarrow>
   keeps x s (final (case m of Inl e \<Rightarrow> Inl e | Inr (v, s1) \<Rightarrow> f v s1))"
  by (auto simp: final_def result_state_def split: sum.splits intro: keeps_trans)

lemma keeps_states [simp]:
  "keeps x s (result_state (Inr (v, s'))) = keeps x s s'"
  "keeps x s (result_state (Inl (e, s'))) = keeps x s s'"
  "keeps x s (final (Inr s')) = keeps x s s'"
  "keeps x s (final (Inl (e, s'))) = keeps x s s'"
  by (simp_all add: result_state_def final_def)

lemma ask_keeps: "keeps x s (result_state (ask W q a s))"
  by (auto simp: ask_def keeps_def result_state_def split: sum.splits)

lemma lookup_keeps: "keeps x s (result_state (lookup y s))"
  by (auto simp: lookup_def split: option.splits)

lemma items_keeps: "keeps x s (result_state (items W v s))"
  unfolding items_def
  by (cases v) (auto intro!: keeps_result_bind ask_keeps split: val.splits)

lemma call_keeps: "keeps x s (result_state (call W f avs kwn kvs s))"
  unfolding call_def
  by (auto intro!: keeps_result_bind ask_keeps items_keeps)

lemma call_method_keeps: "keeps x s (result_state (call_method W r rv m avs kwn kvs s))"
proof (cases "is_list rv \<and> m = ''append'' \<and> kwn = [] \<and> length avs = 1")
  case True
  then show ?thesis by (simp add: call_method_def)
next
  case False
  then show ?thesis by (auto simp: call_method_def intro: ask_keeps)
qed

lemma binary_keeps: "keeps x s (result_state (binary W b l r s))"
  unfolding binary_def
  by (auto intro!: ask_keeps split: binop.splits val.splits)

lemma format_field_keeps: "keeps x s (result_state (format_field W v spec s))"
  unfolding format_field_def
  by (auto intro!: keeps_result_bind ask_keeps split: val.splits list.splits)

lemma truth_keeps: "keeps x s (result_state (truth W v s))"
  unfolding truth_def
  by (auto intro!: keeps_result_bind ask_keeps split: val.splits)

lemmas step_keeps = ask_keeps lookup_keeps items_keeps call_keeps call_method_keeps
  binary_keeps format_field_keeps truth_keeps

lemma eval_keeps:
  "keeps x s (result_state (eval W e s))"
  "keeps x s (result_state (evals W es s))"
  "keeps x s (result_state (eval_kws W kws s))"
  "keeps x s (result_state (eval_pairs W ps s))"
  "keeps x s (result_state (eval_parts W fs s))"
  "keeps x s (result_state (eval_part W f s))"
proof (induction W e s and W es s and W kws s and W ps s and W fs s and W f s
    rule: eval_evals_eval_kws_eval_pairs_eval_parts_eval_part.induct)
qed (auto intro!: keeps_result_bind step_keeps)

lemma assign_keeps:
  "x \<notin> set (target_names t) \<Longrightarrow> keeps x s (final (assign W t v s))"
  "x \<notin> set (targets_names ts) \<Longrightarrow> keeps x s (final (assigns W ts vs s))"
proof (induction W t v s and W ts vs s rule: assign_assigns.induct)
qed (auto intro!: keeps_mixed_bind keeps_outcome_bind step_keeps eval_keeps keeps_bind_name)

lemma import_names_keeps:
  "y \<notin> set (map import_name ns) \<Longrightarrow> keeps y s (final (import_names W m ns s))"
proof (induction ns arbitrary: s)
  case Nil
  then show ?case by simp
next
  case (Cons na ns)
  obtain n a where na: "na = (n, a)" by (cases na)
  define z where "z = (case a of Some b \<Rightarrow> b | None \<Rightarrow> n)"
  from Cons.prems na have ne: "y \<noteq> z" and rest: "y \<notin> set (map import_name ns)"
    by (auto simp: import_name_def z_def split: option.splits)
  have first: "keeps y s (result_state (ask W (QImportFrom m n) [] s))"
    by (rule ask_keeps)
  show ?case
  proof (cases "ask W (QImportFrom m n) [] s")
    case (Inl err)
    with first show ?thesis
      by (cases err) (simp add: na)
  next
    case (Inr r)
    obtain v s1 where r: "r = (v, s1)" by (cases r)
    have "keeps y s s1" using first Inr r by simp
    moreover have "keeps y s1 (bind_name z v s1)"
      using ne by (rule keeps_bind_name)
    moreover have "keeps y (bind_name z v s1) (final (import_names W m ns (bind_name z v s1)))"
      using rest by (rule Cons.IH)
    ultimately have "keeps y s (final (import_names W m ns (bind_name z v s1)))"
      by (blast intro: keeps_trans)
    then show ?thesis using Inr r na by (simp add: z_def)
  qed
qed

lemma define_name_keeps: "y \<noteq> z \<Longrightarrow> keeps y s (final (define_name W q z s))"
  unfolding define_name_def
  by (rule keeps_mixed_bind[OF ask_keeps]) (simp add: keeps_bind_name)

lemma import_module_keeps:
  assumes "y \<noteq> (case a of Some b \<Rightarrow> b | None \<Rightarrow> top_package m)"
  shows "keeps y s (final (import_module W m a s))"
proof (cases a)
  case None
  with assms have ne: "y \<noteq> top_package m" by simp
  have inner: "keeps y s1 (final (case ask W (QImport (top_package m)) [] s1 of
        Inl x \<Rightarrow> Inl x | Inr (p, s2) \<Rightarrow> Inr (bind_name (top_package m) p s2)))" for s1
    by (rule keeps_mixed_bind[OF ask_keeps]) (simp add: keeps_bind_name ne)
  show ?thesis
    unfolding import_module_def
    by (rule keeps_mixed_bind[OF ask_keeps])
       (use None ne inner in \<open>auto simp: keeps_bind_name\<close>)
next
  case (Some b)
  with assms have ne: "y \<noteq> b" by simp
  show ?thesis
    unfolding import_module_def
    by (rule keeps_mixed_bind[OF ask_keeps]) (simp add: Some keeps_bind_name ne)
qed

lemma exec_keeps:
  "x \<notin> set (binders c) \<Longrightarrow> keeps x s (final (exec W c s))"
  "x \<notin> set (binders_list cs) \<Longrightarrow> keeps x s (final (execs W cs s))"
  "x \<notin> set (target_names t) \<union> set (binders_list body) \<Longrightarrow> keeps x s (final (loop W t body vs s))"
proof (induction W c s and W cs s and W t body vs s rule: exec_execs_loop.induct)
  case (7 W body handler s)
  then show ?case
    by (auto simp: final_def split: sum.splits intro: keeps_trans)
qed (auto intro!: keeps_mixed_bind keeps_outcome_bind step_keeps
      eval_keeps assign_keeps import_names_keeps import_module_keeps define_name_keeps)


subsection \<open>Without a try statement, the first failed query ends the run\<close>

lemma extends_refl: "extends s None s"
  by (simp add: extends_def)

lemma extends_refl_err: "extends s (Some e) s"
  by (simp add: extends_def)

lemma extends_trans: "extends s None s1 \<Longrightarrow> extends s1 err s2 \<Longrightarrow> extends s err s2"
  unfolding extends_def
  by (cases err) (auto simp: list_all_iff)

lemma extends_bind_name [simp]:
  "extends s err (bind_name x v s') = extends s err s'"
  "extends (bind_name x v s) err s' = extends s err s'"
  by (simp_all add: extends_def bind_name_def)

lemma result_ok_bind:
  "result_ok s m \<Longrightarrow> (\<And>v s1. m = Inr (v, s1) \<Longrightarrow> result_ok s1 (f v s1)) \<Longrightarrow>
   result_ok s (case m of Inl x \<Rightarrow> Inl x | Inr (v, s1) \<Rightarrow> f v s1)"
  by (auto simp: result_ok_def split: sum.splits intro: extends_trans)

lemma result_ok_return: "result_ok s (Inr (v, s))"
  by (simp add: result_ok_def extends_refl)

lemma result_ok_raise: "result_ok s (Inl (e, s))"
  by (simp add: result_ok_def extends_refl_err)

lemma ask_ok: "result_ok s (ask W q a s)"
  by (auto simp: result_ok_def ask_def extends_def split: sum.splits)

lemma lookup_ok: "result_ok s (lookup x s)"
  by (auto simp: lookup_def result_ok_return result_ok_raise split: option.splits)

lemma items_ok: "result_ok s (items W v s)"
  unfolding items_def
  by (cases v) (auto intro!: result_ok_bind ask_ok result_ok_return simp: result_ok_return result_ok_raise split: val.splits)


lemma call_ok: "result_ok s (call W f avs kwn kvs s)"
  unfolding call_def
  by (auto intro!: result_ok_bind ask_ok items_ok simp: result_ok_return)

lemma extends_list_append [simp]: "extends s err (list_append r v s') = extends s err s'"
  by (auto simp: list_append_def split: expr.splits option.splits val.splits)

lemma call_method_ok: "result_ok s (call_method W r rv m avs kwn kvs s)"
proof (cases "is_list rv \<and> m = ''append'' \<and> kwn = [] \<and> length avs = 1")
  case True
  then show ?thesis by (simp add: call_method_def result_ok_def extends_refl)
next
  case False
  then show ?thesis by (auto simp: call_method_def intro: ask_ok)
qed

lemma binary_ok: "result_ok s (binary W b l r s)"
  unfolding binary_def
  by (auto intro!: ask_ok simp: result_ok_return split: binop.splits val.splits)

lemma format_field_ok: "result_ok s (format_field W v spec s)"
  unfolding format_field_def
  by (auto intro!: result_ok_bind ask_ok simp: result_ok_return result_ok_raise split: val.splits list.splits)

lemma truth_ok: "result_ok s (truth W v s)"
  unfolding truth_def
  by (auto intro!: result_ok_bind ask_ok simp: result_ok_return result_ok_raise split: val.splits)

lemmas step_ok = ask_ok lookup_ok items_ok call_ok call_method_ok binary_ok format_field_ok truth_ok
  result_ok_return result_ok_raise

lemma eval_ok:
  "result_ok s (eval W e s)"
  "result_ok s (evals W es s)"
  "result_ok s (eval_kws W kws s)"
  "result_ok s (eval_pairs W ps s)"
  "result_ok s (eval_parts W fs s)"
  "result_ok s (eval_part W f s)"
proof (induction W e s and W es s and W kws s and W ps s and W fs s and W f s
    rule: eval_evals_eval_kws_eval_pairs_eval_parts_eval_part.induct)
qed (auto intro!: result_ok_bind step_ok)


lemma outcome_ok_bind:
  "outcome_ok s m \<Longrightarrow> (\<And>s1. m = Inr s1 \<Longrightarrow> outcome_ok s1 (f s1)) \<Longrightarrow>
   outcome_ok s (case m of Inl x \<Rightarrow> Inl x | Inr s1 \<Rightarrow> f s1)"
  by (auto simp: outcome_ok_def split: sum.splits intro: extends_trans)

lemma result_outcome_bind:
  "result_ok s m \<Longrightarrow> (\<And>v s1. m = Inr (v, s1) \<Longrightarrow> outcome_ok s1 (f v s1)) \<Longrightarrow>
   outcome_ok s (case m of Inl x \<Rightarrow> Inl x | Inr (v, s1) \<Rightarrow> f v s1)"
  by (auto simp: outcome_ok_def result_ok_def split: sum.splits intro: extends_trans)

lemma outcome_ok_return: "outcome_ok s (Inr s)"
  by (simp add: outcome_ok_def extends_refl)

lemma outcome_ok_bound: "outcome_ok s (Inr (bind_name x v s))"
  by (simp add: outcome_ok_def extends_refl)

lemma outcome_ok_raise: "outcome_ok s (Inl (e, s))"
  by (simp add: outcome_ok_def extends_refl_err)

lemma outcome_ok_bind_name [simp]: "outcome_ok (bind_name x v s) r = outcome_ok s r"
  by (simp add: outcome_ok_def split: sum.splits)

lemma assign_ok:
  "outcome_ok s (assign W t v s)"
  "outcome_ok s (assigns W ts vs s)"
proof (induction W t v s and W ts vs s rule: assign_assigns.induct)
qed (auto intro!: result_outcome_bind outcome_ok_bind step_ok eval_ok
      outcome_ok_return outcome_ok_raise outcome_ok_bound)

lemma import_names_ok: "outcome_ok s (import_names W m ns s)"
  by (induction W m ns s rule: import_names.induct)
     (auto intro!: result_outcome_bind step_ok outcome_ok_return)

lemma import_module_ok: "outcome_ok s (import_module W m a s)"
  unfolding import_module_def
  by (auto intro!: result_outcome_bind step_ok outcome_ok_return outcome_ok_bound split: option.splits)

lemma define_name_ok: "outcome_ok s (define_name W q x s)"
  unfolding define_name_def
  by (auto intro!: result_outcome_bind step_ok outcome_ok_return outcome_ok_bound)

lemma exec_ok:
  "no_try [c] \<Longrightarrow> outcome_ok s (exec W c s)"
  "no_try cs \<Longrightarrow> outcome_ok s (execs W cs s)"
  "no_try body \<Longrightarrow> outcome_ok s (loop W t body vs s)"
proof (induction W c s and W cs s and W t body vs s rule: exec_execs_loop.induct)
qed (auto simp: no_try_def intro!: result_outcome_bind outcome_ok_bind step_ok eval_ok assign_ok
      import_names_ok import_module_ok define_name_ok outcome_ok_return outcome_ok_raise)

subsection \<open>A name that is neither bound nor appended to keeps its value\<close>

lemma same_refl [simp]: "same x s s"
  by (simp add: same_def)

lemma same_trans: "same x s s1 \<Longrightarrow> same x s1 s2 \<Longrightarrow> same x s s2"
  by (simp add: same_def)

lemma same_bind_name: "x \<noteq> y \<Longrightarrow> same x s (bind_name y v s)"
  by (simp add: same_def bind_name_def)

lemma same_result_bind:
  "same x s (result_state m) \<Longrightarrow>
   (\<And>v s1. m = Inr (v, s1) \<Longrightarrow> same x s1 (result_state (f v s1))) \<Longrightarrow>
   same x s (result_state (case m of Inl e \<Rightarrow> Inl e | Inr (v, s1) \<Rightarrow> f v s1))"
  by (auto simp: result_state_def split: sum.splits intro: same_trans)

lemma same_outcome_bind:
  "same x s (final m) \<Longrightarrow> (\<And>s1. m = Inr s1 \<Longrightarrow> same x s1 (final (f s1))) \<Longrightarrow>
   same x s (final (case m of Inl e \<Rightarrow> Inl e | Inr s1 \<Rightarrow> f s1))"
  by (auto simp: final_def split: sum.splits intro: same_trans)

lemma same_mixed_bind:
  "same x s (result_state m) \<Longrightarrow>
   (\<And>v s1. m = Inr (v, s1) \<Longrightarrow> same x s1 (final (f v s1))) \<Longrightarrow>
   same x s (final (case m of Inl e \<Rightarrow> Inl e | Inr (v, s1) \<Rightarrow> f v s1))"
  by (auto simp: final_def result_state_def split: sum.splits intro: same_trans)

lemma same_states [simp]:
  "same x s (result_state (Inr (v, s'))) = same x s s'"
  "same x s (result_state (Inl (e, s'))) = same x s s'"
  "same x s (final (Inr s')) = same x s s'"
  "same x s (final (Inl (e, s'))) = same x s s'"
  by (simp_all add: result_state_def final_def)

lemma ask_same: "same x s (result_state (ask W q a s))"
  by (auto simp: ask_def same_def result_state_def split: sum.splits)

lemma lookup_same: "same x s (result_state (lookup y s))"
  by (auto simp: lookup_def split: option.splits)

lemma items_same: "same x s (result_state (items W v s))"
  unfolding items_def
  by (cases v) (auto intro!: same_result_bind ask_same split: val.splits)

lemma call_same: "same x s (result_state (call W f avs kwn kvs s))"
  unfolding call_def
  by (auto intro!: same_result_bind ask_same items_same)

lemma call_method_same:
  "QMethod ''append'' [] \<noteq> QMethod m kwn \<Longrightarrow>
   same x s (result_state (call_method W r rv m avs kwn kvs s))"
  by (auto simp: call_method_def intro: ask_same)

lemma binary_same: "same x s (result_state (binary W b l r s))"
  unfolding binary_def
  by (auto intro!: ask_same split: binop.splits val.splits)

lemma format_field_same: "same x s (result_state (format_field W v spec s))"
  unfolding format_field_def
  by (auto intro!: same_result_bind ask_same split: val.splits list.splits)

lemma truth_same: "same x s (result_state (truth W v s))"
  unfolding truth_def
  by (auto intro!: same_result_bind ask_same split: val.splits)

lemmas step_same = ask_same lookup_same items_same call_same call_method_same
  binary_same format_field_same truth_same

lemma eval_same:
  "QMethod ''append'' [] \<notin> set (expr_queries (subexprs e)) \<Longrightarrow> same x s (result_state (eval W e s))"
  "QMethod ''append'' [] \<notin> set (expr_queries (subexprs_list es)) \<Longrightarrow> same x s (result_state (evals W es s))"
  "QMethod ''append'' [] \<notin> set (expr_queries (subexprs_kws kws)) \<Longrightarrow> same x s (result_state (eval_kws W kws s))"
  "QMethod ''append'' [] \<notin> set (expr_queries (subexprs_pairs ps)) \<Longrightarrow> same x s (result_state (eval_pairs W ps s))"
  "QMethod ''append'' [] \<notin> set (expr_queries (subexprs_parts fs)) \<Longrightarrow> same x s (result_state (eval_parts W fs s))"
  "QMethod ''append'' [] \<notin> set (expr_queries (subexprs_part f)) \<Longrightarrow> same x s (result_state (eval_part W f s))"
proof (induction W e s and W es s and W kws s and W ps s and W fs s and W f s
    rule: eval_evals_eval_kws_eval_pairs_eval_parts_eval_part.induct)
qed (auto intro!: same_result_bind step_same)

lemma assign_same:
  "x \<notin> set (target_names t) \<Longrightarrow>
   QMethod ''append'' [] \<notin> set (expr_queries (subexprs_list (target_exprs t))) \<Longrightarrow>
   same x s (final (assign W t v s))"
  "x \<notin> set (targets_names ts) \<Longrightarrow>
   QMethod ''append'' [] \<notin> set (expr_queries (subexprs_list (targets_exprs ts))) \<Longrightarrow>
   same x s (final (assigns W ts vs s))"
proof (induction W t v s and W ts vs s rule: assign_assigns.induct)
qed (auto intro!: same_mixed_bind same_outcome_bind step_same eval_same same_bind_name)

lemma import_names_same:
  "y \<notin> set (map import_name ns) \<Longrightarrow> same y s (final (import_names W m ns s))"
proof (induction ns arbitrary: s)
  case Nil
  then show ?case by simp
next
  case (Cons na ns)
  obtain n a where na: "na = (n, a)" by (cases na)
  define z where "z = (case a of Some b \<Rightarrow> b | None \<Rightarrow> n)"
  from Cons.prems na have ne: "y \<noteq> z" and rest: "y \<notin> set (map import_name ns)"
    by (auto simp: import_name_def z_def split: option.splits)
  have first: "same y s (result_state (ask W (QImportFrom m n) [] s))"
    by (rule ask_same)
  show ?case
  proof (cases "ask W (QImportFrom m n) [] s")
    case (Inl err)
    with first show ?thesis
      by (cases err) (simp add: na)
  next
    case (Inr r)
    obtain v s1 where r: "r = (v, s1)" by (cases r)
    have "same y s s1" using first Inr r by simp
    moreover have "same y s1 (bind_name z v s1)"
      using ne by (rule same_bind_name)
    moreover have "same y (bind_name z v s1) (final (import_names W m ns (bind_name z v s1)))"
      using rest by (rule Cons.IH)
    ultimately have "same y s (final (import_names W m ns (bind_name z v s1)))"
      by (blast intro: same_trans)
    then show ?thesis using Inr r na by (simp add: z_def)
  qed
qed

lemma define_name_same: "y \<noteq> z \<Longrightarrow> same y s (final (define_name W q z s))"
  unfolding define_name_def
  by (rule same_mixed_bind[OF ask_same]) (simp add: same_bind_name)

lemma import_module_same:
  assumes "y \<noteq> (case a of Some b \<Rightarrow> b | None \<Rightarrow> top_package m)"
  shows "same y s (final (import_module W m a s))"
proof (cases a)
  case None
  with assms have ne: "y \<noteq> top_package m" by simp
  have inner: "same y s1 (final (case ask W (QImport (top_package m)) [] s1 of
        Inl x \<Rightarrow> Inl x | Inr (p, s2) \<Rightarrow> Inr (bind_name (top_package m) p s2)))" for s1
    by (rule same_mixed_bind[OF ask_same]) (simp add: same_bind_name ne)
  show ?thesis
    unfolding import_module_def
    by (rule same_mixed_bind[OF ask_same])
       (use None ne inner in \<open>auto simp: same_bind_name\<close>)
next
  case (Some b)
  with assms have ne: "y \<noteq> b" by simp
  show ?thesis
    unfolding import_module_def
    by (rule same_mixed_bind[OF ask_same]) (simp add: Some same_bind_name ne)
qed

lemma exec_same:
  "x \<notin> set (binders c) \<Longrightarrow> QMethod ''append'' [] \<notin> set (queries_of [c]) \<Longrightarrow>
     same x s (final (exec W c s))"
  "x \<notin> set (binders_list cs) \<Longrightarrow> QMethod ''append'' [] \<notin> set (queries_of cs) \<Longrightarrow>
     same x s (final (execs W cs s))"
  "x \<notin> set (target_names t) \<union> set (binders_list body) \<Longrightarrow>
   QMethod ''append'' [] \<notin> set (expr_queries (subexprs_list (target_exprs t))) \<union> set (queries_of body) \<Longrightarrow>
     same x s (final (loop W t body vs s))"
proof (induction W c s and W cs s and W t body vs s rule: exec_execs_loop.induct)
  case (7 W body handler s)
  then show ?case
    by (auto simp: queries_of_stmt final_def split: sum.splits intro: same_trans)
next
  case (11 W c cs s)
  then show ?case
    by (auto simp: queries_of_Cons[of c cs] intro!: same_outcome_bind)
qed (auto simp: queries_of_stmt intro!: same_mixed_bind same_outcome_bind step_same
      eval_same assign_same import_names_same import_module_same define_name_same)

subsection \<open>A straight-line program puts each of its query sites at most once, in order\<close>

lemma within_refl [simp]: "within qs s s"
  by (simp add: within_def)

lemma within_trans: "within a s s1 \<Longrightarrow> within b s1 s2 \<Longrightarrow> within (a @ b) s s2"
  by (auto simp: within_def intro: list_emb_append_mono)

lemma within_mono: "within a s s' \<Longrightarrow> subseq a b \<Longrightarrow> within b s s'"
  by (auto simp: within_def intro: subseq_order.order_trans)

lemma within_bind_name [simp]:
  "within qs s (bind_name x v s') = within qs s s'"
  "within qs (bind_name x v s) s' = within qs s s'"
  by (simp_all add: within_def bind_name_def)

lemma within_list_append [simp]: "within qs s (list_append r v s') = within qs s s'"
  by (auto simp: list_append_def split: expr.splits option.splits val.splits)

lemma within_states [simp]:
  "within qs s (result_state (Inr (v, s'))) = within qs s s'"
  "within qs s (result_state (Inl (e, s'))) = within qs s s'"
  "within qs s (final (Inr s')) = within qs s s'"
  "within qs s (final (Inl (e, s'))) = within qs s s'"
  by (simp_all add: result_state_def final_def)

lemma within_result_bind:
  "within a s (result_state m) \<Longrightarrow>
   (\<And>v s1. m = Inr (v, s1) \<Longrightarrow> within b s1 (result_state (f v s1))) \<Longrightarrow>
   within (a @ b) s (result_state (case m of Inl x \<Rightarrow> Inl x | Inr (v, s1) \<Rightarrow> f v s1))"
proof (cases m)
  case (Inl x)
  assume "within a s (result_state m)"
  then have "within (a @ b) s (result_state m)"
    by (rule within_mono) (simp add: prefix_imp_subseq)
  with Inl show ?thesis by (cases x) simp
next
  case (Inr y)
  obtain v s1 where y: "y = (v, s1)" by (cases y)
  assume a: "within a s (result_state m)"
    and b: "\<And>v s1. m = Inr (v, s1) \<Longrightarrow> within b s1 (result_state (f v s1))"
  from a Inr y have "within a s s1" by simp
  moreover from b Inr y have "within b s1 (result_state (f v s1))" by simp
  ultimately show ?thesis using Inr y by (auto intro: within_trans)
qed

lemma within_result_map:
  "within a s (result_state m) \<Longrightarrow>
   within a s (result_state (case m of Inl x \<Rightarrow> Inl x | Inr (v, s1) \<Rightarrow> Inr (g v, s1)))"
  by (auto simp: result_state_def split: sum.splits)

lemma ask_within: "within [q] s (result_state (ask W q a s))"
  by (auto simp: ask_def within_def result_state_def split: sum.splits)

lemma lookup_within: "within [] s (result_state (lookup x s))"
  by (auto simp: lookup_def split: option.splits)

lemma asked_within: "within [q] s (s\<lparr>trace := trace s @ [Ev q a r]\<rparr>)"
  by (simp add: within_def)

lemma ask_then_within:
  assumes "\<And>r s'. result_state (g r s') = s'"
  shows "within [q] s (result_state (case ask W q a s of Inl x \<Rightarrow> Inl x | Inr (r, s') \<Rightarrow> g r s'))"
proof (cases "W (trace s) q a")
  case (Inl e)
  then show ?thesis by (simp add: ask_def asked_within)
next
  case (Inr v)
  then show ?thesis by (simp add: ask_def assms asked_within)
qed

lemma items_within: "within [QIter] s (result_state (items W v s))"
proof -
  have g: "result_state (case r of VList xs \<Rightarrow> Inr (xs, s') | VTuple xs \<Rightarrow> Inr (xs, s')
                          | _ \<Rightarrow> Inl (TypeError, s')) = s'" for r s'
    by (cases r) (simp_all add: result_state_def)
  show ?thesis
    unfolding items_def
    by (cases v) (simp_all add: ask_then_within[where g = "\<lambda>r s'. case r of
        VList xs \<Rightarrow> Inr (xs, s') | VTuple xs \<Rightarrow> Inr (xs, s') | _ \<Rightarrow> Inl (TypeError, s')", OF g])
qed

lemma call_within: "within [QIter, QCall kwn] s (result_state (call W f avs kwn kvs s))"
proof (cases "f = VBuiltin ''enumerate'' \<and> kwn = [] \<and> length avs = 1")
  case True
  have "within [QIter] s (result_state (case items W (hd avs) s of
           Inl x \<Rightarrow> Inl x | Inr (xs, s') \<Rightarrow> Inr (VList (enumerate_from 0 xs), s')))"
    by (rule within_result_map) (rule items_within)
  then have "within [QIter] s (result_state (call W f avs kwn kvs s))"
    using True by (simp add: call_def)
  then show ?thesis by (rule within_mono) simp
next
  case False
  then have "within [QCall kwn] s (result_state (call W f avs kwn kvs s))"
    by (auto simp: call_def intro: ask_within)
  then show ?thesis by (rule within_mono) simp
qed

lemma call_method_within:
  "within [QMethod m kwn] s (result_state (call_method W r rv m avs kwn kvs s))"
proof (cases "is_list rv \<and> m = ''append'' \<and> kwn = [] \<and> length avs = 1")
  case True
  then show ?thesis by (simp add: call_method_def)
next
  case False
  then show ?thesis by (auto simp: call_method_def intro: ask_within)
qed

lemma binary_within: "within [QBinOp b] s (result_state (binary W b l r s))"
  unfolding binary_def
  by (auto intro!: ask_within split: binop.splits val.splits)

lemma format_field_within: "within [QFormat spec] s (result_state (format_field W v spec s))"
proof -
  have g: "result_state (case r of VStr u \<Rightarrow> Inr (u, s') | _ \<Rightarrow> Inl (TypeError, s')) = s'" for r s'
    by (cases r) (simp_all add: result_state_def)
  note a = ask_then_within[where g = "\<lambda>r s'. case r of
        VStr u \<Rightarrow> Inr (u, s') | _ \<Rightarrow> Inl (TypeError, s')", OF g]
  show ?thesis
    unfolding format_field_def
    by (cases v; cases spec) (simp_all add: a)
qed

lemmas step_within = ask_within lookup_within items_within call_within call_method_within
  binary_within format_field_within

lemma eval_within:
  "within (sites e) s (result_state (eval W e s))"
  "within (sites_list es) s (result_state (evals W es s))"
  "within (sites_kws kws) s (result_state (eval_kws W kws s))"
  "within (sites_pairs ps) s (result_state (eval_pairs W ps s))"
  "within (sites_parts fs) s (result_state (eval_parts W fs s))"
  "within (sites_part f) s (result_state (eval_part W f s))"
proof (induction W e s and W es s and W kws s and W ps s and W fs s and W f s
    rule: eval_evals_eval_kws_eval_pairs_eval_parts_eval_part.induct)
qed (auto intro!: within_result_bind within_result_map step_within)

lemma within_outcome_bind:
  "within a s (final m) \<Longrightarrow> (\<And>s1. m = Inr s1 \<Longrightarrow> within b s1 (final (f s1))) \<Longrightarrow>
   within (a @ b) s (final (case m of Inl x \<Rightarrow> Inl x | Inr s1 \<Rightarrow> f s1))"
proof (cases m)
  case (Inl x)
  assume "within a s (final m)"
  then have "within (a @ b) s (final m)"
    by (rule within_mono) (simp add: prefix_imp_subseq)
  with Inl show ?thesis by simp
next
  case (Inr s1)
  assume a: "within a s (final m)"
    and b: "\<And>s1. m = Inr s1 \<Longrightarrow> within b s1 (final (f s1))"
  from a Inr have "within a s s1" by simp
  moreover from b Inr have "within b s1 (final (f s1))" by simp
  ultimately show ?thesis using Inr by (auto intro: within_trans)
qed

lemma within_mixed_bind:
  "within a s (result_state m) \<Longrightarrow>
   (\<And>v s1. m = Inr (v, s1) \<Longrightarrow> within b s1 (final (f v s1))) \<Longrightarrow>
   within (a @ b) s (final (case m of Inl x \<Rightarrow> Inl x | Inr (v, s1) \<Rightarrow> f v s1))"
proof (cases m)
  case (Inl x)
  assume "within a s (result_state m)"
  then have "within (a @ b) s (result_state m)"
    by (rule within_mono) (simp add: prefix_imp_subseq)
  with Inl show ?thesis by (cases x) simp
next
  case (Inr y)
  obtain v s1 where y: "y = (v, s1)" by (cases y)
  assume a: "within a s (result_state m)"
    and b: "\<And>v s1. m = Inr (v, s1) \<Longrightarrow> within b s1 (final (f v s1))"
  from a Inr y have "within a s s1" by simp
  moreover from b Inr y have "within b s1 (final (f v s1))" by simp
  ultimately show ?thesis using Inr y by (auto intro: within_trans)
qed

lemma within_mixed_map:
  "within a s (result_state m) \<Longrightarrow>
   within a s (final (case m of Inl x \<Rightarrow> Inl x | Inr (v, s1) \<Rightarrow> Inr s1))"
  by (auto simp: result_state_def final_def split: sum.splits)

lemma assign_within:
  "within (target_sites t) s (final (assign W t v s))"
  "within (targets_sites ts) s (final (assigns W ts vs s))"
proof (induction W t v s and W ts vs s rule: assign_assigns.induct)
  case (2 W ts v s)
  have "within ([QIter] @ targets_sites ts) s
      (final (case items W v s of Inl x \<Rightarrow> Inl x
         | Inr (vs, s1) \<Rightarrow> if length vs = length ts then assigns W ts vs s1 else Inl (ValueError, s1)))"
    by (rule within_mixed_bind[OF items_within]) (use 2 in auto)
  then show ?case by simp
qed (auto intro!: within_mixed_bind within_outcome_bind within_mixed_map step_within eval_within)

lemma import_names_within:
  "within (map (\<lambda>na. QImportFrom m (fst na)) ns) s (final (import_names W m ns s))"
proof (induction ns arbitrary: s)
  case Nil
  then show ?case by simp
next
  case (Cons na ns)
  obtain n a where na: "na = (n, a)" by (cases na)
  have ih: "within (map (\<lambda>na. QImportFrom m (fst na)) ns) s1
      (final (import_names W m ns (bind_name x v s1)))" for x v s1
    using Cons.IH[of "bind_name x v s1"] by simp
  have "within ([QImportFrom m n] @ map (\<lambda>na. QImportFrom m (fst na)) ns) s
      (final (case ask W (QImportFrom m n) [] s of Inl x \<Rightarrow> Inl x
         | Inr (v, s1) \<Rightarrow> import_names W m ns (bind_name (case a of Some b \<Rightarrow> b | None \<Rightarrow> n) v s1)))"
    by (rule within_mixed_bind[OF ask_within]) (rule ih)
  then show ?case by (simp add: na)
qed

lemma import_module_within:
  "within [QImport m, QImport (top_package m)] s (final (import_module W m a s))"
proof -
  have inner: "within [QImport (top_package m)] s1
      (final (case a of Some b \<Rightarrow> Inr (bind_name b v s1)
         | None \<Rightarrow> if top_package m = m then Inr (bind_name m v s1)
             else (case ask W (QImport (top_package m)) [] s1 of Inl x \<Rightarrow> Inl x
                   | Inr (p, s2) \<Rightarrow> Inr (bind_name (top_package m) p s2))))" for v s1
  proof (cases a)
    case (Some b)
    then show ?thesis by simp
  next
    case None
    have "within [QImport (top_package m)] s1
        (final (case ask W (QImport (top_package m)) [] s1 of Inl x \<Rightarrow> Inl x
                   | Inr (p, s2) \<Rightarrow> Inr (bind_name (top_package m) p s2)))"
      using ask_within[of "QImport (top_package m)" s1 W "[]"]
      by (auto simp: result_state_def final_def split: sum.splits)
    with None show ?thesis by simp
  qed
  have "within ([QImport m] @ [QImport (top_package m)]) s (final (import_module W m a s))"
    unfolding import_module_def
    by (rule within_mixed_bind[OF ask_within]) (rule inner)
  then show ?thesis by simp
qed

lemma simple_within: "simple c \<Longrightarrow> within (stmt_sites c) s (final (exec W c s))"
proof (cases c)
  case (Import m a)
  then show ?thesis by (simp add: import_module_within)
next
  case (ImportFrom m ns)
  then show ?thesis by (simp add: import_names_within)
next
  case (Assign t e)
  then show ?thesis
    by (auto intro!: within_mixed_bind eval_within assign_within)
next
  case (ExprStmt e)
  then show ?thesis
    by (auto intro!: within_mixed_map eval_within)
qed simp_all

lemma straight_line_within:
  "straight_line p \<Longrightarrow> within (program_sites p) s (final (execs W p s))"
proof (induction p arbitrary: s)
  case Nil
  then show ?case by simp
next
  case (Cons c cs)
  then have c: "simple c" and cs: "straight_line cs" by (simp_all add: straight_line_def)
  have "within (stmt_sites c @ program_sites cs) s
      (final (case exec W c s of Inl x \<Rightarrow> Inl x | Inr s1 \<Rightarrow> execs W cs s1))"
    by (rule within_outcome_bind[OF simple_within[OF c]]) (rule Cons.IH[OF cs])
  then show ?case by (simp add: program_sites_def)
qed

lemma straight_line_bounded:
  assumes "straight_line p"
  shows "length (trace (final (run W [p]))) \<le> length (program_sites p)"
proof -
  from straight_line_within[OF assms, of initial W] obtain new where
    "trace (final (execs W p initial)) = new" "subseq (map query_of new) (program_sites p)"
    by (auto simp: within_def initial_def)
  then show ?thesis
    using list_emb_length[of "(=)" "map query_of new" "program_sites p"]
    by (simp add: run_def)
qed

subsection \<open>Runs of a notebook\<close>




section \<open>Unfolding the notebooks\<close>

lemmas part_000_cells =
  part_000_def part_000_cell1_def part_000_cell2_def part_000_cell3_def part_000_cell4_def
  part_000_cell5_def part_000_cell6_def part_000_cell7_def part_000_cell8_def
  part_000_cell9_def part_000_cell10_def part_000_cell11_def part_000_cell12_def
  print_ratio_def r23_loop_def r23_loop_body_def bpt_loop_def bpt_loop_body_def backslash_def

lemmas part_001_cells =
  part_001_def part_001_cell1_def part_001_cell2_def part_001_cell3_def part_001_cell4_def

lemmas galaxy_lines_cells =
  galaxy_lines_def galaxy_lines_cell1_def galaxy_lines_cell2_def three_lines_def

lemmas interp =
  ask_def lookup_def bind_name_def items_def call_def call_method_def is_list_def
  list_append_def binary_def format_field_def import_module_def define_name_def builtins_def
subsection \<open>Entering a loop over \<open>enumerate(grid.metallicity)\<close>\<close>

lemma take_length_plus: "take (length xs + n) (xs @ ys) = xs @ take n ys"
  by simp

lemma enumerate_loop_entry:
  assumes builtin: "env sa ''enumerate'' = None" and g: "env sa ''grid'' = Some g"
    and read: "W (trace sa) (QGetAttr ''metallicity'') [g] = Inr (VObj a)"
    and iter: "W (trace sa @ [Ev (QGetAttr ''metallicity'') [g] (Inr (VObj a))]) QIter [VObj a]
               = Inr (VList ms)"
  shows "exec W (For t (Call (Name ''enumerate'') [Attribute (Name ''grid'') ''metallicity''] []) body) sa =
     loop W t body (enumerate_from 0 ms)
       (sa\<lparr>trace := trace sa @ [Ev (QGetAttr ''metallicity'') [g] (Inr (VObj a)),
                                 Ev QIter [VObj a] (Inr (VList ms))]\<rparr>)"
  using assms by (simp add: lookup_def builtins_def call_def items_def ask_def)

lemma enumerate_unshadowed:
  assumes "execs W p initial = Inr sa" and "''enumerate'' \<notin> set (binders_list p)"
  shows "env sa ''enumerate'' = None"
proof -
  from assms(2) have "keeps ''enumerate'' initial (final (execs W p initial))"
    by (rule exec_keeps(2))
  with assms(1) show ?thesis by (simp add: keeps_def final_def initial_def)
qed

subsection \<open>The first ten cells of the grid-lines notebook under \<open>library_world\<close>\<close>

text \<open>
  The run is the same under any world that differs from \<open>library_world\<close> only in what
  \<open>get_diagram\<close> answers and in the elements of \<open>grid.metallicity\<close>.
\<close>

lemma library_run:
  assumes "\<And>tr q args. q \<noteq> QMethod ''get_diagram'' [] \<and> \<not> (q = QIter \<and> args = [VObj 1]) \<Longrightarrow>
     W tr q args = library_world tr q args"
  shows "\<exists>s. execs W (concat (take 10 part_000)) initial = Inr s \<and>
     length (trace s) = 39 \<and>
     \<not> list_ex (\<lambda>ev. query_of ev = QMethod ''get_diagram'' []) (trace s) \<and>
     env s ''grid'' = Some (VObj 13) \<and> env s ''plt'' = Some (VObj 2) \<and>
     env s ''np'' = Some (VObj 3) \<and> env s ''line_ratios'' = Some (VObj 4) \<and>
     env s ''enumerate'' = None"
  using assms by (simp add: initial_def part_000_cells interp library_world_def)

subsection \<open>The galaxy notebook under \<open>stopping_world\<close>\<close>

lemma stopped_run:
  "length (trace (final (run stopping_world galaxy_lines))) = 31"
  "drop 24 (trace (final (run stopping_world galaxy_lines))) =
     [Ev (QMethod ''get_spectra'' []) [VObj 16, VObj 23] (Inr (VObj 24)),
      Ev (QGetAttr ''Hb'') [VObj 0] (Inr (VObj 25)),
      Ev (QGetAttr ''O3r'') [VObj 0] (Inr (VObj 26)),
      Ev (QGetAttr ''O3b'') [VObj 0] (Inr (VObj 27)),
      Ev (QMethod ''get_lines'' []) [VObj 16, VTuple [VObj 25, VObj 26, VObj 27], VObj 23]
         (Inr (VObj 28)),
      Ev (QGetAttr ''lines'') [VObj 16] (Inr (VObj 29)),
      Ev QSubscript [VObj 29, VStr ''emergent''] (Inl (LibraryError ''KeyError''))]"
  by (simp_all add: run_def final_def initial_def galaxy_lines_cells interp stopping_world_def)


section \<open>Claims\<close>

subsection \<open>C2: exceptions propagate\<close>

lemma no_try_notebooks: "nb \<in> set notebooks \<Longrightarrow> no_try (concat nb)"
  by (auto simp: notebooks_def no_try_def part_000_cells part_001_cells galaxy_lines_cells)

lemma failed_not_ok: "list_all ok_event tr \<Longrightarrow> Ev q a (Inl e) \<notin> set tr"
  by (auto simp: list_all_iff)

lemma try_intercepts:
  "execs failing_world [TryStmt [ExprStmt (Call (Name ''print'') [] [])] []] initial =
     Inr (initial\<lparr>trace := [Ev (QCall []) [VBuiltin ''print''] (Inl (LibraryError ''FileNotFoundError''))]\<rparr>)"
  by (simp add: interp failing_world_def initial_def)

text \<open>
  C2. No notebook catches or classifies an exception. For every notebook and every world:
  if some query of the run (a library, plotting or runtime call) raised \<open>e\<close>, then the run
  of the notebook ends with that same exception \<open>e\<close>, the failed query is the last event of
  the run (nothing is executed after it), every query before it succeeded, and the notebook
  contains no try statement. (\<open>try_intercepts\<close> shows that a try statement would intercept.)
\<close>

theorem exceptions_propagate:
  assumes nb: "nb \<in> set notebooks"
    and ev: "Ev q a (Inl e) \<in> set (trace (final (run W nb)))"
  shows "no_try (concat nb) \<and>
    (\<exists>s' pre. run W nb = Inl (e, s') \<and> trace s' = pre @ [Ev q a (Inl e)] \<and> list_all ok_event pre)"
proof -
  have nt: "no_try (concat nb)" using nb by (rule no_try_notebooks)
  have ok: "outcome_ok initial (run W nb)"
    unfolding run_def using nt by (rule exec_ok(2))
  have "\<exists>s' pre. run W nb = Inl (e, s') \<and> trace s' = pre @ [Ev q a (Inl e)] \<and> list_all ok_event pre"
  proof (cases "run W nb")
    case (Inl p)
    obtain e' s' where p: "p = (e', s')" by (cases p)
    from ok Inl p have "extends initial (Some e') s'" by (simp add: outcome_ok_def)
    then have shape: "list_all ok_event (trace s') \<or>
        (\<exists>pre q' a'. trace s' = pre @ [Ev q' a' (Inl e')] \<and> list_all ok_event pre)"
      by (auto simp: extends_def initial_def)
    from ev Inl p have mem: "Ev q a (Inl e) \<in> set (trace s')" by (simp add: final_def)
    from shape show ?thesis
    proof
      assume "list_all ok_event (trace s')"
      with mem show ?thesis by (simp add: failed_not_ok)
    next
      assume "\<exists>pre q' a'. trace s' = pre @ [Ev q' a' (Inl e')] \<and> list_all ok_event pre"
      then obtain pre q' a' where tr: "trace s' = pre @ [Ev q' a' (Inl e')]"
        and pre: "list_all ok_event pre" by blast
      from mem tr have "Ev q a (Inl e) \<in> set pre \<or> Ev q a (Inl e) = Ev q' a' (Inl e')" by auto
      moreover have "Ev q a (Inl e) \<notin> set pre"
        using pre by (rule failed_not_ok)
      ultimately have "q' = q" "a' = a" "e' = e" by auto
      with Inl p tr pre show ?thesis by auto
    qed
  next
    case (Inr s')
    from ok Inr have "extends initial None s'" by (simp add: outcome_ok_def)
    then have "list_all ok_event (trace s')" by (auto simp: extends_def initial_def)
    moreover from ev Inr have "Ev q a (Inl e) \<in> set (trace s')" by (simp add: final_def)
    ultimately show ?thesis by (simp add: failed_not_ok)
  qed
  with nt show ?thesis ..
qed

theorem exceptions_propagate_witness:
  "part_001 \<in> set notebooks \<and>
   Ev (QCall [''grid_dir'']) [VObj 1, VStr ''test_grid'', VStr ''../../../tests/test_grid/'']
      (Inl (LibraryError ''FileNotFoundError''))
     \<in> set (trace (final (run failing_world part_001))) \<and>
   no_try (concat part_001) \<and>
   (\<exists>s' pre. run failing_world part_001 = Inl (LibraryError ''FileNotFoundError'', s') \<and>
      trace s' = pre @ [Ev (QCall [''grid_dir''])
          [VObj 1, VStr ''test_grid'', VStr ''../../../tests/test_grid/'']
          (Inl (LibraryError ''FileNotFoundError''))] \<and>
      list_all ok_event pre)"
proof -
  have nb: "part_001 \<in> set notebooks" by (simp add: notebooks_def)
  have ev: "Ev (QCall [''grid_dir'']) [VObj 1, VStr ''test_grid'', VStr ''../../../tests/test_grid/'']
      (Inl (LibraryError ''FileNotFoundError''))
     \<in> set (trace (final (run failing_world part_001)))"
    by (simp add: run_def final_def initial_def part_001_cells interp failing_world_def)
  from exceptions_propagate[OF nb ev] nb ev show ?thesis by blast
qed

subsection \<open>C5: library objects are used through their public interface only\<close>








subsection \<open>C10: spectra are generated before lines are requested\<close>

lemma prepared_mono: "set seen \<subseteq> set seen' \<Longrightarrow> prepared seen ev \<Longrightarrow> prepared seen' ev"
proof (cases ev)
  case (Ev q a r)
  assume sub: "set seen \<subseteq> set seen'" and p: "prepared seen ev"
  show ?thesis
  proof (cases q)
    case (QMethod m kw)
    with Ev p sub show ?thesis
      by (auto simp: list_ex_iff split: list.splits if_splits)
  qed (simp_all add: Ev)
qed

lemma spectra_first_mono:
  "spectra_first seen tr \<Longrightarrow> set seen \<subseteq> set seen' \<Longrightarrow> spectra_first seen' tr"
proof (induction tr arbitrary: seen seen')
  case Nil
  then show ?case by simp
next
  case (Cons ev tr)
  from Cons.prems(1) have p: "prepared seen ev" and r: "spectra_first (ev # seen) tr"
    by simp_all
  have "prepared seen' ev"
    using Cons.prems(2) p by (rule prepared_mono)
  moreover have "set (ev # seen) \<subseteq> set (ev # seen')"
    using Cons.prems(2) by auto
  with r have "spectra_first (ev # seen') tr"
    by (rule Cons.IH)
  ultimately show ?case by simp
qed

lemma spectra_first_append:
  "spectra_first seen (xs @ ys) = (spectra_first seen xs \<and> spectra_first (rev xs @ seen) ys)"
  by (induction xs arbitrary: seen) simp_all

lemma spectra_first_quiet:
  "list_all (\<lambda>ev. \<not> lines_query (query_of ev)) tr \<Longrightarrow> spectra_first seen tr"
proof (induction tr arbitrary: seen)
  case Nil
  then show ?case by simp
next
  case (Cons ev tr)
  obtain q a r where ev: "ev = Ev q a r" by (cases ev)
  from Cons.prems ev have "prepared seen ev" by (cases q) auto
  with Cons show ?case by simp
qed

lemma spectra_first_nth:
  "spectra_first seen tr \<Longrightarrow> j < length tr \<Longrightarrow> prepared (rev (take j tr) @ seen) (tr ! j)"
proof (induction tr arbitrary: seen j)
  case Nil
  then show ?case by simp
next
  case (Cons ev tr)
  show ?case
  proof (cases j)
    case 0
    with Cons.prems show ?thesis by simp
  next
    case (Suc k)
    with Cons.prems have "prepared (rev (take k tr) @ ev # seen) (tr ! k)"
      by (intro Cons.IH) simp_all
    with Suc show ?thesis by simp
  qed
qed

lemma ordered_refl [simp]: "ordered s s"
  by (simp add: ordered_def)

lemma ordered_trans: "ordered s s1 \<Longrightarrow> ordered s1 s2 \<Longrightarrow> ordered s s2"
proof -
  assume "ordered s s1" and "ordered s1 s2"
  then obtain xs ys where xs: "trace s1 = trace s @ xs" "spectra_first [] xs"
    and ys: "trace s2 = trace s1 @ ys" "spectra_first [] ys"
    unfolding ordered_def by blast
  from ys(2) have "spectra_first (rev xs @ []) ys"
    by (rule spectra_first_mono) simp
  with xs ys have "trace s2 = trace s @ (xs @ ys)" "spectra_first [] (xs @ ys)"
    by (simp_all add: spectra_first_append)
  then show "ordered s s2" unfolding ordered_def by blast
qed

lemma execs_append:
  "execs W (p @ q) s = (case execs W p s of Inl x \<Rightarrow> Inl x | Inr s1 \<Rightarrow> execs W q s1)"
  by (induction p arbitrary: s) (simp_all split: sum.splits)

lemma ordered_append:
  assumes "\<And>s. ordered s (final (execs W p s))" and "\<And>s. ordered s (final (execs W q s))"
  shows "ordered s (final (execs W (p @ q) s))"
proof (cases "execs W p s")
  case (Inl x)
  with assms(1)[of s] show ?thesis by (simp add: execs_append)
next
  case (Inr s1)
  with assms(1)[of s] have "ordered s s1" by (simp add: final_def)
  moreover have "ordered s1 (final (execs W q s1))" by (rule assms(2))
  ultimately show ?thesis using Inr by (auto simp: execs_append intro: ordered_trans)
qed

lemma ordered_quiet:
  assumes "list_all (\<lambda>q. \<not> lines_query q) (queries_of p)"
  shows "ordered s (final (execs W p s))"
proof -
  have "issues (queries_of p) s (final (execs W p s))"
    by (rule exec_issues(2)) simp
  then obtain new where new: "trace (final (execs W p s)) = trace s @ new"
    "list_all (\<lambda>ev. query_of ev \<in> set (queries_of p)) new"
    unfolding issues_def by blast
  from new(2) assms have "list_all (\<lambda>ev. \<not> lines_query (query_of ev)) new"
    by (auto simp: list_all_iff)
  then have "spectra_first [] new" by (rule spectra_first_quiet)
  with new(1) show ?thesis unfolding ordered_def by blast
qed

lemma spectra_then_lines:
  "ordered s (final (execs W
     [ExprStmt (MethodCall (Name ''stars'') ''get_spectra'' [Name ''model''] []),
      Assign (TName ''lines'')
        (MethodCall (Name ''stars'') ''get_lines'' [three_lines, Name ''model''] [])] s))"
  by (auto simp: interp ordered_def final_def three_lines_def spectra_for_def
      split: sum.splits option.splits)

lemma spectra_then_lines_stmt:
  "ordered s (final (execs W
     [ExprStmt (MethodCall (Name ''stars'') ''get_spectra'' [Name ''model''] []),
      ExprStmt (MethodCall (Name ''stars'') ''get_lines'' [three_lines, Name ''model''] [])] s))"
  by (auto simp: interp ordered_def final_def three_lines_def spectra_for_def
      split: sum.splits option.splits)

lemma particle_spectra_then_lines:
  "ordered s (final (execs W
     [ExprStmt (MethodCall (Name ''stars'') ''get_particle_spectra'' [Name ''model''] []),
      ExprStmt (MethodCall (Name ''stars'') ''get_particle_lines''
        [three_lines, Name ''model''] [])] s))"
  by (auto simp: interp ordered_def final_def three_lines_def spectra_for_def
      split: sum.splits option.splits)


lemma galaxy_lines_split:
  "concat galaxy_lines =
     take 15 galaxy_lines_cell1 @ take 2 (drop 15 galaxy_lines_cell1) @
     drop 17 galaxy_lines_cell1 @ take 4 galaxy_lines_cell2 @
     take 2 (drop 4 galaxy_lines_cell2) @ take 1 (drop 6 galaxy_lines_cell2) @
     take 2 (drop 7 galaxy_lines_cell2) @ drop 9 galaxy_lines_cell2"
  by (simp add: galaxy_lines_cells)

lemma galaxy_lines_quiet:
  "list_all (\<lambda>q. \<not> lines_query q) (queries_of (take 15 galaxy_lines_cell1))"
  "list_all (\<lambda>q. \<not> lines_query q) (queries_of (drop 17 galaxy_lines_cell1))"
  "list_all (\<lambda>q. \<not> lines_query q) (queries_of (take 4 galaxy_lines_cell2))"
  "list_all (\<lambda>q. \<not> lines_query q) (queries_of (take 1 (drop 6 galaxy_lines_cell2)))"
  "list_all (\<lambda>q. \<not> lines_query q) (queries_of (drop 9 galaxy_lines_cell2))"
  by (simp_all add: queries_of_def all_exprs_def expr_queries_def top_package_def
      galaxy_lines_cells)

lemma galaxy_lines_pairs:
  "take 2 (drop 15 galaxy_lines_cell1) =
     [ExprStmt (MethodCall (Name ''stars'') ''get_spectra'' [Name ''model''] []),
      Assign (TName ''lines'')
        (MethodCall (Name ''stars'') ''get_lines'' [three_lines, Name ''model''] [])]"
  "take 2 (drop 4 galaxy_lines_cell2) =
     [ExprStmt (MethodCall (Name ''stars'') ''get_spectra'' [Name ''model''] []),
      ExprStmt (MethodCall (Name ''stars'') ''get_lines'' [three_lines, Name ''model''] [])]"
  "take 2 (drop 7 galaxy_lines_cell2) =
     [ExprStmt (MethodCall (Name ''stars'') ''get_particle_spectra'' [Name ''model''] []),
      ExprStmt (MethodCall (Name ''stars'') ''get_particle_lines''
        [three_lines, Name ''model''] [])]"
  by (simp_all add: galaxy_lines_cell1_def galaxy_lines_cell2_def)

lemma galaxy_lines_ordered: "ordered s (final (execs W (concat galaxy_lines) s))"
proof -
  note quiet = galaxy_lines_quiet[THEN ordered_quiet]
  note pairs = spectra_then_lines spectra_then_lines_stmt particle_spectra_then_lines
  show ?thesis
    unfolding galaxy_lines_split
    by (intro ordered_append; (rule quiet | (simp only: galaxy_lines_pairs, rule pairs)))
qed

lemma answered_iff: "answered m args ev = (\<exists>v. ev = Ev (QMethod m []) args (Inr v))"
proof (cases ev)
  case (Ev q a r)
  then show ?thesis by (cases r) auto
qed

text \<open>
  C10. In every run of the galaxy-lines notebook, under every world: whenever
  \<open>get_lines\<close> (or \<open>get_particle_lines\<close>) is called, it is called on an object and
  with an emission model for which \<open>get_spectra\<close> (\<open>get_particle_spectra\<close>) was
  called, and answered, earlier in the run, with that same object and that same model.
\<close>

theorem spectra_before_lines:
  assumes j: "j < length (trace (final (run W galaxy_lines)))"
    and ev: "trace (final (run W galaxy_lines)) ! j = Ev (QMethod m kw) args r"
    and m: "m = ''get_lines'' \<or> m = ''get_particle_lines''"
  shows "\<exists>st ls mo i v. kw = [] \<and> args = [st, ls, mo] \<and> i < j \<and>
     trace (final (run W galaxy_lines)) ! i = Ev (QMethod (spectra_for m) []) [st, mo] (Inr v)"
proof -
  let ?tr = "trace (final (run W galaxy_lines))"
  have "ordered initial (final (run W galaxy_lines))"
    unfolding run_def by (rule galaxy_lines_ordered)
  then have "spectra_first [] ?tr"
    by (simp add: ordered_def initial_def)
  from spectra_first_nth[OF this j] ev
  have p: "prepared (rev (take j ?tr)) (Ev (QMethod m kw) args r)" by simp
  with m obtain st ls mo where args: "args = [st, ls, mo]" and kw: "kw = []"
    and ex: "list_ex (answered (spectra_for m) [st, mo]) (rev (take j ?tr))"
    by (auto split: list.splits)
  from ex obtain x where x: "x \<in> set (take j ?tr)" "answered (spectra_for m) [st, mo] x"
    by (auto simp: list_ex_iff)
  from x(1) obtain i where i: "i < length (take j ?tr)" "take j ?tr ! i = x"
    by (auto simp: in_set_conv_nth)
  from i j have "i < j" "?tr ! i = x" by simp_all
  moreover from x(2) obtain v where "x = Ev (QMethod (spectra_for m) []) [st, mo] (Inr v)"
    by (auto simp: answered_iff)
  ultimately show ?thesis using args kw by blast
qed

theorem spectra_before_lines_witness:
  "28 < length (trace (final (run stopping_world galaxy_lines))) \<and>
   trace (final (run stopping_world galaxy_lines)) ! 28 =
     Ev (QMethod ''get_lines'' []) [VObj 16, VTuple [VObj 25, VObj 26, VObj 27], VObj 23]
        (Inr (VObj 28)) \<and>
   (\<exists>st ls mo i v. [VObj 16, VTuple [VObj 25, VObj 26, VObj 27], VObj 23] = [st, ls, mo] \<and>
      i < 28 \<and>
      trace (final (run stopping_world galaxy_lines)) ! i =
        Ev (QMethod (spectra_for ''get_lines'') []) [st, mo] (Inr v))"
proof -
  let ?tr = "trace (final (run stopping_world galaxy_lines))"
  have j: "28 < length ?tr" by (simp add: stopped_run(1))
  have "?tr ! (24 + 4) = drop 24 ?tr ! 4"
    by (simp add: stopped_run(1))
  then have ev: "?tr ! 28 =
     Ev (QMethod ''get_lines'' []) [VObj 16, VTuple [VObj 25, VObj 26, VObj 27], VObj 23]
        (Inr (VObj 28))"
    by (simp add: stopped_run(2))
  from spectra_before_lines[OF j ev] j ev show ?thesis by simp
qed
subsection \<open>C8: the R23 loop fills \<open>ratios\<close> in step with the metallicity grid\<close>

lemma r23_loop_run:
  "loop W (TTuple [TName ''iZ'', TName ''Z'']) r23_loop_body (enumerate_from i ms) s = Inr s' \<Longrightarrow>
   env s ''grid'' = Some g \<Longrightarrow> env s ''ia'' = Some (VInt 0) \<Longrightarrow>
   env s ''ratio_id'' = Some (VStr ''R23'') \<Longrightarrow> env s ''ratios'' = Some (VList rs) \<Longrightarrow>
   \<exists>ps. length ps = length ms \<and> env s' ''ratios'' = Some (VList (rs @ map snd ps))
      \<and> trace s' = trace s @ r23_trace g i ps \<and> r23_answers W g (trace s) i ps
      \<and> env s' ''grid'' = Some g \<and> env s' ''plt'' = env s ''plt''"
proof (induction ms arbitrary: s i rs)
  case Nil
  then show ?case by simp
next
  case (Cons z ms)
  from Cons.prems(2-5) Cons.prems(1)
  obtain L r s2 where
    s2: "loop W (TTuple [TName ''iZ'', TName ''Z'']) r23_loop_body (enumerate_from (i + 1) ms) s2 = Inr s'"
      "env s2 ''grid'' = Some g" "env s2 ''ia'' = Some (VInt 0)"
      "env s2 ''ratio_id'' = Some (VStr ''R23'')" "env s2 ''ratios'' = Some (VList (rs @ [r]))"
    and tr2: "trace s2 = trace s @ r23_trace g i [(L, r)]"
    and w: "r23_answers W g (trace s) i [(L, r)]"
    and plt: "env s2 ''plt'' = env s ''plt''"
    by (auto simp: r23_loop_body_def items_def bind_name_def lookup_def ask_def call_method_def
        is_list_def list_append_def split: sum.splits)
  from Cons.IH[OF s2] obtain ps where ps:
    "length ps = length ms" "env s' ''ratios'' = Some (VList ((rs @ [r]) @ map snd ps))"
    "trace s' = trace s2 @ r23_trace g (i + 1) ps" "r23_answers W g (trace s2) (i + 1) ps"
    "env s' ''grid'' = Some g" "env s' ''plt'' = env s2 ''plt''" by blast
  then show ?case using tr2 w plt
    by (intro exI[of _ "(L, r) # ps"]) simp
qed

lemma r23_trace_length: "length (r23_trace g i ps) = 2 * length ps"
  by (induction g i ps rule: r23_trace.induct) simp_all

lemma r23_trace_nth:
  "k < length ps \<Longrightarrow>
   r23_trace g i ps ! (2 * k) =
     Ev (QMethod ''get_lines'' []) [g, VTuple [VInt 0, VInt (i + int k)]] (Inr (fst (ps ! k))) \<and>
   r23_trace g i ps ! (2 * k + 1) =
     Ev (QMethod ''get_ratio'' []) [fst (ps ! k), VStr ''R23''] (Inr (snd (ps ! k)))"
proof (induction g i ps arbitrary: k rule: r23_trace.induct)
  case (1 g i)
  then show ?case by simp
next
  case (2 g i L r ps)
  show ?case
  proof (cases k)
    case 0
    then show ?thesis by simp
  next
    case (Suc j)
    with 2 show ?thesis by (simp add: algebra_simps)
  qed
qed

lemma r23_answers_nth:
  "r23_answers W g tr i ps \<Longrightarrow> k < length ps \<Longrightarrow>
   W (tr @ take (2 * k) (r23_trace g i ps)) (QMethod ''get_lines'' [])
     [g, VTuple [VInt 0, VInt (i + int k)]] = Inr (fst (ps ! k)) \<and>
   W (tr @ take (2 * k + 1) (r23_trace g i ps)) (QMethod ''get_ratio'' [])
     [fst (ps ! k), VStr ''R23''] = Inr (snd (ps ! k))"
proof (induction ps arbitrary: tr i k)
  case Nil
  then show ?case by simp
next
  case (Cons p ps)
  obtain L r where p: "p = (L, r)" by (cases p)
  show ?case
  proof (cases k)
    case 0
    with Cons.prems p show ?thesis by simp
  next
    case (Suc j)
    with Cons.prems p have a: "r23_answers W g (tr @ r23_trace g i [(L, r)]) (i + 1) ps"
      and j: "j < length ps" by simp_all
    from Cons.IH[OF a j] Suc p show ?thesis by (simp add: algebra_simps)
  qed
qed

lemma plot_ratios:
  assumes run: "execs W [part_000_cell11 ! 4, part_000_cell11 ! 5] s = Inr s'"
    and g: "env s ''grid'' = Some g" and rs: "env s ''ratios'' = Some (VList rs)"
  shows "\<exists>p m z v. env s ''plt'' = Some p \<and>
     trace s' = trace s @
       [Ev (QGetAttr ''metallicity'') [g] (Inr m),
        Ev (QBinOp Div) [m, VFloat ''0.0124''] (Inr z),
        Ev (QMethod ''plot'' []) [p, z, VList rs] (Inr v)]"
  using run g rs
  by (auto simp: part_000_cell11_def r23_loop_def interp split: sum.splits option.splits if_splits)

text \<open>
  C8. Run the grid-lines notebook from a fresh kernel up to the R23 loop (cells 1 to 10 and
  lines 248 to 250), reaching state \<open>sa\<close>. Let \<open>g\<close> be the grid, let the read of
  \<open>grid.metallicity\<close> answer with the array object \<open>a\<close>, and let iterating
  \<open>a\<close> yield the elements \<open>ms\<close>. If the loop of lines 251 to 254 completes, in
  state \<open>s'\<close>, then \<open>ratios\<close> is a list \<open>rs\<close> with exactly one entry per
  element of \<open>ms\<close>; the loop put exactly two calls per element to the library; and for
  every index \<open>i\<close>, the \<open>i\<close>-th entry of \<open>ratios\<close> is what the world
  answers to \<open>get_ratio("R23")\<close> on the object \<open>L\<close> that it answered to
  \<open>grid.get_lines((0, i))\<close>. If lines 256 and 257 then complete, \<open>plt.plot\<close>
  receives \<open>ratios\<close> itself, against the library's quotient by 0.0124 of
  \<open>grid.metallicity\<close> as read again on line 256.
\<close>

theorem r23_ratios_aligned:
  assumes before: "execs W (concat (take 10 part_000) @ take 3 part_000_cell11) initial = Inr sa"
    and grid: "env sa ''grid'' = Some g"
    and read: "W (trace sa) (QGetAttr ''metallicity'') [g] = Inr (VObj a)"
    and iter: "W (trace sa @ [Ev (QGetAttr ''metallicity'') [g] (Inr (VObj a))]) QIter [VObj a]
               = Inr (VList ms)"
    and loop: "exec W (part_000_cell11 ! 3) sa = Inr s'"
  shows "\<exists>rs. env s' ''ratios'' = Some (VList rs) \<and> length rs = length ms \<and>
      length (trace s') = length (trace sa) + 2 + 2 * length ms \<and>
      take (length (trace sa) + 2) (trace s') =
        trace sa @ [Ev (QGetAttr ''metallicity'') [g] (Inr (VObj a)),
                    Ev QIter [VObj a] (Inr (VList ms))] \<and>
      (\<forall>i<length ms. \<exists>L.
         W (take (length (trace sa) + 2 + 2 * i) (trace s')) (QMethod ''get_lines'' [])
           [g, VTuple [VInt 0, VInt (int i)]] = Inr L \<and>
         trace s' ! (length (trace sa) + 2 + 2 * i) =
           Ev (QMethod ''get_lines'' []) [g, VTuple [VInt 0, VInt (int i)]] (Inr L) \<and>
         W (take (length (trace sa) + 2 + 2 * i + 1) (trace s')) (QMethod ''get_ratio'' [])
           [L, VStr ''R23''] = Inr (rs ! i) \<and>
         trace s' ! (length (trace sa) + 2 + 2 * i + 1) =
           Ev (QMethod ''get_ratio'' []) [L, VStr ''R23''] (Inr (rs ! i))) \<and>
      (\<forall>s''. execs W [part_000_cell11 ! 4, part_000_cell11 ! 5] s' = Inr s'' \<longrightarrow>
         (\<exists>p m z v. env sa ''plt'' = Some p \<and>
            trace s'' = trace s' @
              [Ev (QGetAttr ''metallicity'') [g] (Inr m),
               Ev (QBinOp Div) [m, VFloat ''0.0124''] (Inr z),
               Ev (QMethod ''plot'' []) [p, z, VList rs] (Inr v)]))"
proof -
  let ?tr0 = "trace sa @ [Ev (QGetAttr ''metallicity'') [g] (Inr (VObj a)),
                          Ev QIter [VObj a] (Inr (VList ms))]"
  let ?s0 = "sa\<lparr>trace := ?tr0\<rparr>"
  have "''enumerate'' \<notin> set (binders_list (concat (take 10 part_000) @ take 3 part_000_cell11))"
    by (simp add: part_000_cells import_name_def)
  with before have builtin: "env sa ''enumerate'' = None"
    by (rule enumerate_unshadowed)
  from before obtain s9 where "execs W (take 3 part_000_cell11) s9 = Inr sa"
    by (auto simp: execs_append split: sum.splits)
  then have envs: "env sa ''ia'' = Some (VInt 0)" "env sa ''ratio_id'' = Some (VStr ''R23'')"
    "env sa ''ratios'' = Some (VList [])"
    by (auto simp: part_000_cell11_def bind_name_def)
  have "part_000_cell11 ! 3 = For (TTuple [TName ''iZ'', TName ''Z''])
      (Call (Name ''enumerate'') [Attribute (Name ''grid'') ''metallicity''] []) r23_loop_body"
    by (simp add: part_000_cell11_def r23_loop_def)
  with loop enumerate_loop_entry[OF builtin grid read iter]
  have l: "loop W (TTuple [TName ''iZ'', TName ''Z'']) r23_loop_body (enumerate_from 0 ms) ?s0 = Inr s'"
    by simp
  from r23_loop_run[OF l, of g "[]"] envs grid
  obtain ps where ps: "length ps = length ms" "env s' ''ratios'' = Some (VList (map snd ps))"
      "trace s' = ?tr0 @ r23_trace g 0 ps" "r23_answers W g ?tr0 0 ps"
      "env s' ''grid'' = Some g" "env s' ''plt'' = env sa ''plt''" by auto
  have len0: "length ?tr0 = length (trace sa) + 2" by simp
  have idx: "\<exists>L.
         W (take (length (trace sa) + 2 + 2 * i) (trace s')) (QMethod ''get_lines'' [])
           [g, VTuple [VInt 0, VInt (int i)]] = Inr L \<and>
         trace s' ! (length (trace sa) + 2 + 2 * i) =
           Ev (QMethod ''get_lines'' []) [g, VTuple [VInt 0, VInt (int i)]] (Inr L) \<and>
         W (take (length (trace sa) + 2 + 2 * i + 1) (trace s')) (QMethod ''get_ratio'' [])
           [L, VStr ''R23''] = Inr (map snd ps ! i) \<and>
         trace s' ! (length (trace sa) + 2 + 2 * i + 1) =
           Ev (QMethod ''get_ratio'' []) [L, VStr ''R23''] (Inr (map snd ps ! i))"
    if "i < length ms" for i
  proof -
    from that ps(1) have i: "i < length ps" by simp
    have tk: "take (length (trace sa) + 2 + n) (trace s') = ?tr0 @ take n (r23_trace g 0 ps)" for n
    proof -
      have "take (length ?tr0 + n) (?tr0 @ r23_trace g 0 ps) = ?tr0 @ take n (r23_trace g 0 ps)"
        by (rule take_length_plus)
      then show ?thesis unfolding ps(3) len0 .
    qed
    have nt: "trace s' ! (length (trace sa) + 2 + n) = r23_trace g 0 ps ! n" for n
      unfolding ps(3) using nth_append_length_plus[of ?tr0 "r23_trace g 0 ps" n]
      unfolding len0 .
    have t1: "take (length (trace sa) + 2 + 2 * i) (trace s') = ?tr0 @ take (2 * i) (r23_trace g 0 ps)"
      by (rule tk)
    have t2: "take (length (trace sa) + 2 + 2 * i + 1) (trace s') = ?tr0 @ take (2 * i + 1) (r23_trace g 0 ps)"
      using tk[of "2 * i + 1"] by (simp only: add.assoc)
    have n1: "trace s' ! (length (trace sa) + 2 + 2 * i) = r23_trace g 0 ps ! (2 * i)"
      by (rule nt)
    have n2: "trace s' ! (length (trace sa) + 2 + 2 * i + 1) = r23_trace g 0 ps ! (2 * i + 1)"
      using nt[of "2 * i + 1"] by (simp only: add.assoc)
    from r23_trace_nth[OF i, of g 0] r23_answers_nth[OF ps(4) i] i show ?thesis
      unfolding t1 t2 n1 n2 by simp
  qed
  have plot: "\<exists>p m z v. env sa ''plt'' = Some p \<and>
            trace s'' = trace s' @
              [Ev (QGetAttr ''metallicity'') [g] (Inr m),
               Ev (QBinOp Div) [m, VFloat ''0.0124''] (Inr z),
               Ev (QMethod ''plot'' []) [p, z, VList (map snd ps)] (Inr v)]"
    if "execs W [part_000_cell11 ! 4, part_000_cell11 ! 5] s' = Inr s''" for s''
    using plot_ratios[OF that ps(5) ps(2)] ps(6) by simp
  from ps have "length (trace s') = length (trace sa) + 2 + 2 * length ms"
    "take (length (trace sa) + 2) (trace s') = ?tr0" "length (map snd ps) = length ms"
    by (simp_all add: r23_trace_length)
  with ps(2) idx plot show ?thesis by blast
qed

theorem r23_ratios_aligned_witness:
  "\<exists>sa s' s''.
     execs library_world (concat (take 10 part_000) @ take 3 part_000_cell11) initial = Inr sa \<and>
     env sa ''grid'' = Some (VObj 13) \<and>
     library_world (trace sa) (QGetAttr ''metallicity'') [VObj 13] = Inr (VObj 1) \<and>
     library_world (trace sa @ [Ev (QGetAttr ''metallicity'') [VObj 13] (Inr (VObj 1))]) QIter [VObj 1]
       = Inr (VList [VFloat ''0.0001'', VFloat ''0.001'', VFloat ''0.01'']) \<and>
     exec library_world (part_000_cell11 ! 3) sa = Inr s' \<and>
     execs library_world [part_000_cell11 ! 4, part_000_cell11 ! 5] s' = Inr s'' \<and>
     length (trace sa) = 39 \<and>
     drop 39 (trace s'') =
       [Ev (QGetAttr ''metallicity'') [VObj 13] (Inr (VObj 1)),
        Ev QIter [VObj 1] (Inr (VList [VFloat ''0.0001'', VFloat ''0.001'', VFloat ''0.01''])),
        Ev (QMethod ''get_lines'' []) [VObj 13, VTuple [VInt 0, VInt 0]] (Inr (VObj 43)),
        Ev (QMethod ''get_ratio'' []) [VObj 43, VStr ''R23''] (Inr (VObj 44)),
        Ev (QMethod ''get_lines'' []) [VObj 13, VTuple [VInt 0, VInt 1]] (Inr (VObj 45)),
        Ev (QMethod ''get_ratio'' []) [VObj 45, VStr ''R23''] (Inr (VObj 46)),
        Ev (QMethod ''get_lines'' []) [VObj 13, VTuple [VInt 0, VInt 2]] (Inr (VObj 47)),
        Ev (QMethod ''get_ratio'' []) [VObj 47, VStr ''R23''] (Inr (VObj 48)),
        Ev (QGetAttr ''metallicity'') [VObj 13] (Inr (VObj 1)),
        Ev (QBinOp Div) [VObj 1, VFloat ''0.0124''] (Inr (VObj 50)),
        Ev (QMethod ''plot'' []) [VObj 2, VObj 50, VList [VObj 44, VObj 46, VObj 48]] (Inr (VObj 51))] \<and>
     env s' ''ratios'' = Some (VList [VObj 44, VObj 46, VObj 48]) \<and>
     length [VObj 44, VObj 46, VObj 48] = length [VFloat ''0.0001'', VFloat ''0.001'', VFloat ''0.01''] \<and>
     length (trace s') = length (trace sa) + 2 + 2 * length [VFloat ''0.0001'', VFloat ''0.001'', VFloat ''0.01''] \<and>
     (\<forall>i<length [VFloat ''0.0001'', VFloat ''0.001'', VFloat ''0.01'']. \<exists>L.
         library_world (take (length (trace sa) + 2 + 2 * i) (trace s')) (QMethod ''get_lines'' [])
           [VObj 13, VTuple [VInt 0, VInt (int i)]] = Inr L \<and>
         trace s' ! (length (trace sa) + 2 + 2 * i) =
           Ev (QMethod ''get_lines'' []) [VObj 13, VTuple [VInt 0, VInt (int i)]] (Inr L) \<and>
         library_world (take (length (trace sa) + 2 + 2 * i + 1) (trace s')) (QMethod ''get_ratio'' [])
           [L, VStr ''R23''] = Inr ([VObj 44, VObj 46, VObj 48] ! i) \<and>
         trace s' ! (length (trace sa) + 2 + 2 * i + 1) =
           Ev (QMethod ''get_ratio'' []) [L, VStr ''R23''] (Inr ([VObj 44, VObj 46, VObj 48] ! i)))"
proof -
  let ?ms = "[VFloat ''0.0001'', VFloat ''0.001'', VFloat ''0.01'']"
  from library_run[of library_world] obtain s10 where
    run10: "execs library_world (concat (take 10 part_000)) initial = Inr s10"
    and s10: "length (trace s10) = 39" "env s10 ''grid'' = Some (VObj 13)"
      "env s10 ''plt'' = Some (VObj 2)" "env s10 ''enumerate'' = None"
    by auto
  have "\<exists>sa s' s''.
     execs library_world (take 3 part_000_cell11) s10 = Inr sa \<and>
     exec library_world (part_000_cell11 ! 3) sa = Inr s' \<and>
     execs library_world [part_000_cell11 ! 4, part_000_cell11 ! 5] s' = Inr s'' \<and>
     env sa ''grid'' = Some (VObj 13) \<and> length (trace sa) = 39 \<and>
     env s' ''ratios'' = Some (VList [VObj 44, VObj 46, VObj 48]) \<and>
     drop 39 (trace s'') =
       [Ev (QGetAttr ''metallicity'') [VObj 13] (Inr (VObj 1)),
        Ev QIter [VObj 1] (Inr (VList ?ms)),
        Ev (QMethod ''get_lines'' []) [VObj 13, VTuple [VInt 0, VInt 0]] (Inr (VObj 43)),
        Ev (QMethod ''get_ratio'' []) [VObj 43, VStr ''R23''] (Inr (VObj 44)),
        Ev (QMethod ''get_lines'' []) [VObj 13, VTuple [VInt 0, VInt 1]] (Inr (VObj 45)),
        Ev (QMethod ''get_ratio'' []) [VObj 45, VStr ''R23''] (Inr (VObj 46)),
        Ev (QMethod ''get_lines'' []) [VObj 13, VTuple [VInt 0, VInt 2]] (Inr (VObj 47)),
        Ev (QMethod ''get_ratio'' []) [VObj 47, VStr ''R23''] (Inr (VObj 48)),
        Ev (QGetAttr ''metallicity'') [VObj 13] (Inr (VObj 1)),
        Ev (QBinOp Div) [VObj 1, VFloat ''0.0124''] (Inr (VObj 50)),
        Ev (QMethod ''plot'' []) [VObj 2, VObj 50, VList [VObj 44, VObj 46, VObj 48]] (Inr (VObj 51))]"
    using s10 by (simp add: part_000_cells interp library_world_def)
  then obtain sa s' s'' where
    cont: "execs library_world (take 3 part_000_cell11) s10 = Inr sa" and
    loop: "exec library_world (part_000_cell11 ! 3) sa = Inr s'"
    and rest: "execs library_world [part_000_cell11 ! 4, part_000_cell11 ! 5] s' = Inr s''"
    and grid: "env sa ''grid'' = Some (VObj 13)" and len: "length (trace sa) = 39"
    and ratios: "env s' ''ratios'' = Some (VList [VObj 44, VObj 46, VObj 48])"
    and tr: "drop 39 (trace s'') =
       [Ev (QGetAttr ''metallicity'') [VObj 13] (Inr (VObj 1)),
        Ev QIter [VObj 1] (Inr (VList ?ms)),
        Ev (QMethod ''get_lines'' []) [VObj 13, VTuple [VInt 0, VInt 0]] (Inr (VObj 43)),
        Ev (QMethod ''get_ratio'' []) [VObj 43, VStr ''R23''] (Inr (VObj 44)),
        Ev (QMethod ''get_lines'' []) [VObj 13, VTuple [VInt 0, VInt 1]] (Inr (VObj 45)),
        Ev (QMethod ''get_ratio'' []) [VObj 45, VStr ''R23''] (Inr (VObj 46)),
        Ev (QMethod ''get_lines'' []) [VObj 13, VTuple [VInt 0, VInt 2]] (Inr (VObj 47)),
        Ev (QMethod ''get_ratio'' []) [VObj 47, VStr ''R23''] (Inr (VObj 48)),
        Ev (QGetAttr ''metallicity'') [VObj 13] (Inr (VObj 1)),
        Ev (QBinOp Div) [VObj 1, VFloat ''0.0124''] (Inr (VObj 50)),
        Ev (QMethod ''plot'' []) [VObj 2, VObj 50, VList [VObj 44, VObj 46, VObj 48]] (Inr (VObj 51))]"
    by blast
  from run10 cont have
    before: "execs library_world (concat (take 10 part_000) @ take 3 part_000_cell11) initial = Inr sa"
    by (simp add: execs_append)
  have read: "library_world (trace sa) (QGetAttr ''metallicity'') [VObj 13] = Inr (VObj 1)"
    by (simp add: library_world_def)
  have iter: "library_world (trace sa @ [Ev (QGetAttr ''metallicity'') [VObj 13] (Inr (VObj 1))]) QIter [VObj 1]
       = Inr (VList ?ms)"
    by (simp add: library_world_def)
  from r23_ratios_aligned[OF before grid read iter loop] obtain rs where
    rs: "env s' ''ratios'' = Some (VList rs)" and
    c: "length rs = length ?ms"
     "length (trace s') = length (trace sa) + 2 + 2 * length ?ms"
     "\<forall>i<length ?ms. \<exists>L.
         library_world (take (length (trace sa) + 2 + 2 * i) (trace s')) (QMethod ''get_lines'' [])
           [VObj 13, VTuple [VInt 0, VInt (int i)]] = Inr L \<and>
         trace s' ! (length (trace sa) + 2 + 2 * i) =
           Ev (QMethod ''get_lines'' []) [VObj 13, VTuple [VInt 0, VInt (int i)]] (Inr L) \<and>
         library_world (take (length (trace sa) + 2 + 2 * i + 1) (trace s')) (QMethod ''get_ratio'' [])
           [L, VStr ''R23''] = Inr (rs ! i) \<and>
         trace s' ! (length (trace sa) + 2 + 2 * i + 1) =
           Ev (QMethod ''get_ratio'' []) [L, VStr ''R23''] (Inr (rs ! i))"
    by blast
  from rs ratios have "rs = [VObj 44, VObj 46, VObj 48]" by simp
  note c' = c[unfolded this]
  from before grid read iter loop rest len tr ratios c' show ?thesis by blast
qed

subsection \<open>C9: the BPT loop appends to \<open>x\<close> and \<open>y\<close> in step\<close>

lemma unpack_pair:
  assumes "assign W (TTuple [TName a, TName b]) v s = Inr s1"
  shows "\<exists>va vb s0. env s0 = env s \<and> s1 = bind_name b vb (bind_name a va s0)"
proof -
  from assms obtain vs s0 where it: "items W v s = Inr (vs, s0)" and len: "length vs = 2"
    and as: "assigns W [TName a, TName b] vs s0 = Inr s1"
    by (auto split: sum.splits if_splits)
  from it have env0: "env s0 = env s"
    by (auto simp: items_def ask_def split: val.splits sum.splits)
  from len obtain va vb where "vs = [va, vb]"
    by (auto simp: length_Suc_conv numeral_2_eq_2)
  with as have "s1 = bind_name b vb (bind_name a va s0)" by simp
  with env0 show ?thesis by blast
qed

lemma bpt_head_same:
  "same ''x'' s (final (execs W (take 3 bpt_loop_body) s))"
  "same ''y'' s (final (execs W (take 3 bpt_loop_body) s))"
  by (rule exec_same(2);
      simp add: bpt_loop_body_def queries_of_def all_exprs_def expr_queries_def)+

lemma bpt_head_binds:
  assumes "execs W (take 3 bpt_loop_body) s = Inr s3"
  shows "\<exists>a b. env s3 ''x_'' = Some a \<and> env s3 ''y_'' = Some b"
proof -
  from assms obtain s2 where
    "exec W (Assign (TTuple [TName ''x_'', TName ''y_''])
        (MethodCall (Name ''lines'') ''get_diagram'' [Name ''diagram_id''] [])) s2 = Inr s3"
    by (auto simp: bpt_loop_body_def split: sum.splits)
  then obtain v sv where "assign W (TTuple [TName ''x_'', TName ''y_'']) v sv = Inr s3"
    by (auto split: sum.splits)
  from unpack_pair[OF this] show ?thesis by (auto simp: bind_name_def)
qed

lemma bpt_tail:
  assumes "env s ''x'' = Some (VList xs)" "env s ''y'' = Some (VList ys)"
    "env s ''x_'' = Some a" "env s ''y_'' = Some b"
  shows "\<exists>s'. execs W (drop 3 bpt_loop_body) s = Inr s' \<and>
     env s' ''x'' = Some (VList (xs @ [a])) \<and> env s' ''y'' = Some (VList (ys @ [b]))"
  using assms
  by (simp add: bpt_loop_body_def lookup_def call_method_def is_list_def list_append_def bind_name_def)

lemma bpt_body_any:
  assumes x: "env s ''x'' = Some (VList xs)" and y: "env s ''y'' = Some (VList ys)"
  shows "case execs W bpt_loop_body s of
      Inl (e, s') \<Rightarrow> env s' ''x'' = Some (VList xs) \<and> env s' ''y'' = Some (VList ys)
    | Inr s' \<Rightarrow> \<exists>a b. env s' ''x'' = Some (VList (xs @ [a])) \<and> env s' ''y'' = Some (VList (ys @ [b]))"
proof -
  have split: "execs W bpt_loop_body s =
      (case execs W (take 3 bpt_loop_body) s of Inl e \<Rightarrow> Inl e
       | Inr s3 \<Rightarrow> execs W (drop 3 bpt_loop_body) s3)"
    using execs_append[of W "take 3 bpt_loop_body" "drop 3 bpt_loop_body" s] by simp
  show ?thesis
  proof (cases "execs W (take 3 bpt_loop_body) s")
    case (Inl err)
    obtain e s1 where err: "err = (e, s1)" by (cases err)
    from bpt_head_same[of s W] Inl err x y
    have "env s1 ''x'' = Some (VList xs)" "env s1 ''y'' = Some (VList ys)"
      by (simp_all add: same_def final_def)
    with split Inl err show ?thesis by simp
  next
    case (Inr s3)
    from bpt_head_same[of s W] Inr x y
    have e3: "env s3 ''x'' = Some (VList xs)" "env s3 ''y'' = Some (VList ys)"
      by (simp_all add: same_def final_def)
    from bpt_head_binds[OF Inr] obtain a b where
      ab: "env s3 ''x_'' = Some a" "env s3 ''y_'' = Some b" by blast
    from bpt_tail[OF e3 ab, of W] obtain s' where
      "execs W (drop 3 bpt_loop_body) s3 = Inr s'"
      "env s' ''x'' = Some (VList (xs @ [a]))" "env s' ''y'' = Some (VList (ys @ [b]))" by blast
    with split Inr show ?thesis by auto
  qed
qed

lemma bpt_loop_any:
  "env s ''x'' = Some (VList xs) \<Longrightarrow> env s ''y'' = Some (VList ys) \<Longrightarrow>
   \<exists>xs' ys'.
     env (final (loop W (TTuple [TName ''iZ'', TName ''Z'']) bpt_loop_body (enumerate_from i ms) s)) ''x''
       = Some (VList (xs @ xs')) \<and>
     env (final (loop W (TTuple [TName ''iZ'', TName ''Z'']) bpt_loop_body (enumerate_from i ms) s)) ''y''
       = Some (VList (ys @ ys')) \<and>
     length xs' = length ys' \<and>
     (case loop W (TTuple [TName ''iZ'', TName ''Z'']) bpt_loop_body (enumerate_from i ms) s of
        Inl err \<Rightarrow> length xs' < length ms
      | Inr s' \<Rightarrow> length xs' = length ms)"
proof (induction ms arbitrary: s i xs ys)
  case Nil
  then show ?case by (simp add: final_def)
next
  case (Cons z ms)
  define s1 where "s1 = bind_name ''Z'' z (bind_name ''iZ'' (VInt i) s)"
  have e1: "env s1 ''x'' = Some (VList xs)" "env s1 ''y'' = Some (VList ys)"
    using Cons.prems by (simp_all add: s1_def bind_name_def)
  have unfold: "loop W (TTuple [TName ''iZ'', TName ''Z'']) bpt_loop_body (enumerate_from i (z # ms)) s =
      (case execs W bpt_loop_body s1 of Inl e \<Rightarrow> Inl e
       | Inr s2 \<Rightarrow> loop W (TTuple [TName ''iZ'', TName ''Z'']) bpt_loop_body (enumerate_from (i + 1) ms) s2)"
    by (simp add: items_def s1_def)
  show ?case
  proof (cases "execs W bpt_loop_body s1")
    case (Inl err)
    obtain e s2 where err: "err = (e, s2)" by (cases err)
    from bpt_body_any[OF e1, of W] Inl err
    have "env s2 ''x'' = Some (VList xs)" "env s2 ''y'' = Some (VList ys)" by simp_all
    then show ?thesis unfolding unfold Inl err
      by (intro exI[of _ "[]"]) (simp add: final_def)
  next
    case (Inr s2)
    from bpt_body_any[OF e1, of W] Inr obtain a b where
      e2: "env s2 ''x'' = Some (VList (xs @ [a]))" "env s2 ''y'' = Some (VList (ys @ [b]))"
      by auto
    from Cons.IH[OF e2, of "i + 1"] obtain xs' ys' where r:
      "env (final (loop W (TTuple [TName ''iZ'', TName ''Z'']) bpt_loop_body (enumerate_from (i + 1) ms) s2)) ''x''
         = Some (VList ((xs @ [a]) @ xs'))"
      "env (final (loop W (TTuple [TName ''iZ'', TName ''Z'']) bpt_loop_body (enumerate_from (i + 1) ms) s2)) ''y''
         = Some (VList ((ys @ [b]) @ ys'))"
      "length xs' = length ys'"
      "case loop W (TTuple [TName ''iZ'', TName ''Z'']) bpt_loop_body (enumerate_from (i + 1) ms) s2 of
        Inl err \<Rightarrow> length xs' < length ms
      | Inr s' \<Rightarrow> length xs' = length ms"
      by blast
    show ?thesis unfolding unfold Inr
      using r by (intro exI[of _ "a # xs'"] exI[of _ "b # ys'"]) (auto split: sum.splits)
  qed
qed

lemma plot_xy:
  assumes run: "execs W (take 4 (drop 5 part_000_cell12)) s = Inr s'"
    and x: "env s ''x'' = Some (VList xs)" and y: "env s ''y'' = Some (VList ys)"
  shows "\<exists>p v pre. env s ''plt'' = Some p \<and>
     trace s' = pre @ [Ev (QMethod ''plot'' []) [p, VList xs, VList ys] (Inr v)]"
proof -
  let ?q = "take 3 (drop 5 part_000_cell12)"
  have "take 4 (drop 5 part_000_cell12) =
      ?q @ [ExprStmt (MethodCall (Name ''plt'') ''plot'' [Name ''x'', Name ''y''] [])]"
    by (simp add: part_000_cell12_def)
  with run obtain s3 where q: "execs W ?q s = Inr s3"
    and p: "exec W (ExprStmt (MethodCall (Name ''plt'') ''plot'' [Name ''x'', Name ''y''] [])) s3 = Inr s'"
    by (auto simp: execs_append split: sum.splits)
  have "same ''x'' s (final (execs W ?q s))" "same ''y'' s (final (execs W ?q s))"
    "same ''plt'' s (final (execs W ?q s))"
    by (rule exec_same(2);
        simp add: part_000_cell12_def queries_of_def all_exprs_def expr_queries_def)+
  with q x y have e3: "env s3 ''x'' = Some (VList xs)" "env s3 ''y'' = Some (VList ys)"
    "env s3 ''plt'' = env s ''plt''"
    by (simp_all add: same_def final_def)
  from p e3 show ?thesis
    by (cases "env s ''plt''")
       (auto simp: lookup_def builtins_def call_method_def is_list_def ask_def split: sum.splits)
qed

lemma enumerate_from_take: "take k (enumerate_from i ms) = enumerate_from i (take k ms)"
proof (induction ms arbitrary: i k)
  case Nil
  then show ?case by simp
next
  case (Cons z ms)
  then show ?case by (cases k) simp_all
qed

text \<open>
  C9. Run the grid-lines notebook from a fresh kernel up to the BPT loop (cells 1 to 11 and
  lines 286 to 289), reaching state \<open>sa\<close>. Let \<open>g\<close> be the grid, let the read of
  \<open>grid.metallicity\<close> answer with the array object \<open>a\<close>, and let iterating
  \<open>a\<close> yield the elements \<open>ms\<close>. Then the loop of lines 290 to 295 is the iteration
  of its body over \<open>ms\<close>, and whatever the library answers or raises:
  after the first \<open>k\<close> iterations (or where they stopped, if one of them raised),
  \<open>x\<close> and \<open>y\<close> are lists of equal length, of length \<open>k\<close> if none raised and
  shorter if one did; if the loop completes, both have length \<open>length ms\<close>, the number
  of grid metallicities, and if the four statements after the loop complete, the last call
  is \<open>plt.plot\<close> on exactly these two lists; if the loop raises, \<open>x\<close> and
  \<open>y\<close> still have equal length, below \<open>length ms\<close>.
\<close>

theorem bpt_xy_aligned:
  assumes before: "execs W (concat (take 11 part_000) @ take 4 part_000_cell12) initial = Inr sa"
    and grid: "env sa ''grid'' = Some g"
    and read: "W (trace sa) (QGetAttr ''metallicity'') [g] = Inr (VObj a)"
    and iter: "W (trace sa @ [Ev (QGetAttr ''metallicity'') [g] (Inr (VObj a))]) QIter [VObj a]
               = Inr (VList ms)"
  shows "exec W (part_000_cell12 ! 4) sa =
       loop W (TTuple [TName ''iZ'', TName ''Z'']) bpt_loop_body (enumerate_from 0 ms)
         (metallicity_read sa g a ms) \<and>
     (\<forall>k\<le>length ms. \<exists>xs ys.
        env (final (loop W (TTuple [TName ''iZ'', TName ''Z'']) bpt_loop_body
               (take k (enumerate_from 0 ms)) (metallicity_read sa g a ms))) ''x'' = Some (VList xs) \<and>
        env (final (loop W (TTuple [TName ''iZ'', TName ''Z'']) bpt_loop_body
               (take k (enumerate_from 0 ms)) (metallicity_read sa g a ms))) ''y'' = Some (VList ys) \<and>
        length xs = length ys \<and>
        (case loop W (TTuple [TName ''iZ'', TName ''Z'']) bpt_loop_body
                (take k (enumerate_from 0 ms)) (metallicity_read sa g a ms) of
           Inl err \<Rightarrow> length xs < k
         | Inr sk \<Rightarrow> length xs = k)) \<and>
     (\<forall>s'. exec W (part_000_cell12 ! 4) sa = Inr s' \<longrightarrow>
        (\<exists>xs ys. env s' ''x'' = Some (VList xs) \<and> env s' ''y'' = Some (VList ys) \<and>
           length xs = length ms \<and> length ys = length ms \<and>
           (\<forall>s''. execs W (take 4 (drop 5 part_000_cell12)) s' = Inr s'' \<longrightarrow>
              (\<exists>p v pre. env s' ''plt'' = Some p \<and>
                 trace s'' = pre @ [Ev (QMethod ''plot'' []) [p, VList xs, VList ys] (Inr v)])))) \<and>
     (\<forall>e s'. exec W (part_000_cell12 ! 4) sa = Inl (e, s') \<longrightarrow>
        (\<exists>xs ys. env s' ''x'' = Some (VList xs) \<and> env s' ''y'' = Some (VList ys) \<and>
           length xs = length ys \<and> length xs < length ms))"
proof -
  let ?T = "TTuple [TName ''iZ'', TName ''Z'']"
  let ?s0 = "metallicity_read sa g a ms"
  have "''enumerate'' \<notin> set (binders_list (concat (take 11 part_000) @ take 4 part_000_cell12))"
    by (simp add: part_000_cells import_name_def)
  with before have builtin: "env sa ''enumerate'' = None"
    by (rule enumerate_unshadowed)
  from before obtain s9 where "execs W (take 4 part_000_cell12) s9 = Inr sa"
    by (auto simp: execs_append split: sum.splits)
  then have "env sa ''x'' = Some (VList [])" "env sa ''y'' = Some (VList [])"
    by (auto simp: part_000_cell12_def bind_name_def)
  then have e0: "env ?s0 ''x'' = Some (VList [])" "env ?s0 ''y'' = Some (VList [])"
    by (simp_all add: metallicity_read_def)
  have stmt: "part_000_cell12 ! 4 = For ?T
      (Call (Name ''enumerate'') [Attribute (Name ''grid'') ''metallicity''] []) bpt_loop_body"
    by (simp add: part_000_cell12_def bpt_loop_def)
  have entry: "exec W (part_000_cell12 ! 4) sa = loop W ?T bpt_loop_body (enumerate_from 0 ms) ?s0"
    unfolding stmt metallicity_read_def
    by (rule enumerate_loop_entry[OF builtin grid read iter])
  have step: "\<exists>xs ys.
        env (final (loop W ?T bpt_loop_body (take k (enumerate_from 0 ms)) ?s0)) ''x'' = Some (VList xs) \<and>
        env (final (loop W ?T bpt_loop_body (take k (enumerate_from 0 ms)) ?s0)) ''y'' = Some (VList ys) \<and>
        length xs = length ys \<and>
        (case loop W ?T bpt_loop_body (take k (enumerate_from 0 ms)) ?s0 of
           Inl err \<Rightarrow> length xs < k
         | Inr sk \<Rightarrow> length xs = k)" if k: "k \<le> length ms" for k
  proof -
    from k have len: "length (take k ms) = k" by simp
    from bpt_loop_any[OF e0, of W 0 "take k ms"] show ?thesis
      unfolding enumerate_from_take len by simp
  qed
  from bpt_loop_any[OF e0, of W 0 ms] obtain xs ys where all:
    "env (final (loop W ?T bpt_loop_body (enumerate_from 0 ms) ?s0)) ''x'' = Some (VList xs)"
    "env (final (loop W ?T bpt_loop_body (enumerate_from 0 ms) ?s0)) ''y'' = Some (VList ys)"
    "length xs = length ys"
    "case loop W ?T bpt_loop_body (enumerate_from 0 ms) ?s0 of
       Inl err \<Rightarrow> length xs < length ms | Inr s' \<Rightarrow> length xs = length ms"
    by auto
  have completed: "\<exists>xs ys. env s' ''x'' = Some (VList xs) \<and> env s' ''y'' = Some (VList ys) \<and>
           length xs = length ms \<and> length ys = length ms \<and>
           (\<forall>s''. execs W (take 4 (drop 5 part_000_cell12)) s' = Inr s'' \<longrightarrow>
              (\<exists>p v pre. env s' ''plt'' = Some p \<and>
                 trace s'' = pre @ [Ev (QMethod ''plot'' []) [p, VList xs, VList ys] (Inr v)]))"
    if "exec W (part_000_cell12 ! 4) sa = Inr s'" for s'
  proof -
    from that entry have l: "loop W ?T bpt_loop_body (enumerate_from 0 ms) ?s0 = Inr s'" by simp
    from all have x: "env s' ''x'' = Some (VList xs)" and y: "env s' ''y'' = Some (VList ys)"
      and len: "length xs = length ms" "length ys = length ms"
      unfolding l by (simp_all add: final_def)
    from plot_xy[OF _ x y] have "\<forall>s''. execs W (take 4 (drop 5 part_000_cell12)) s' = Inr s'' \<longrightarrow>
              (\<exists>p v pre. env s' ''plt'' = Some p \<and>
                 trace s'' = pre @ [Ev (QMethod ''plot'' []) [p, VList xs, VList ys] (Inr v)])"
      by blast
    with x y len show ?thesis by blast
  qed
  have raised: "\<exists>xs ys. env s' ''x'' = Some (VList xs) \<and> env s' ''y'' = Some (VList ys) \<and>
           length xs = length ys \<and> length xs < length ms"
    if "exec W (part_000_cell12 ! 4) sa = Inl (e, s')" for e s'
  proof -
    from that entry have l: "loop W ?T bpt_loop_body (enumerate_from 0 ms) ?s0 = Inl (e, s')" by simp
    from all show ?thesis unfolding l by (simp add: final_def)
  qed
  from entry step completed raised show ?thesis by blast
qed

theorem bpt_xy_aligned_witness:
  "(\<exists>sa s' s''.
      execs library_world (concat (take 11 part_000) @ take 4 part_000_cell12) initial = Inr sa \<and>
      env sa ''grid'' = Some (VObj 13) \<and>
      library_world (trace sa) (QGetAttr ''metallicity'') [VObj 13] = Inr (VObj 1) \<and>
      library_world (trace sa @ [Ev (QGetAttr ''metallicity'') [VObj 13] (Inr (VObj 1))]) QIter [VObj 1]
        = Inr (VList [VFloat ''0.0001'', VFloat ''0.001'', VFloat ''0.01'']) \<and>
      exec library_world (part_000_cell12 ! 4) sa = Inr s' \<and>
      env s' ''x'' = Some (VList [VObj 62, VObj 64, VObj 66]) \<and>
      env s' ''y'' = Some (VList [VObj 1062, VObj 1064, VObj 1066]) \<and>
      (\<exists>s2. loop library_world (TTuple [TName ''iZ'', TName ''Z'']) bpt_loop_body
             (take 2 (enumerate_from 0 [VFloat ''0.0001'', VFloat ''0.001'', VFloat ''0.01'']))
             (metallicity_read sa (VObj 13) 1 [VFloat ''0.0001'', VFloat ''0.001'', VFloat ''0.01''])
           = Inr s2 \<and>
         env s2 ''x'' = Some (VList [VObj 62, VObj 64]) \<and>
         env s2 ''y'' = Some (VList [VObj 1062, VObj 1064])) \<and>
      execs library_world (take 4 (drop 5 part_000_cell12)) s' = Inr s'' \<and>
      last (trace s'') =
        Ev (QMethod ''plot'' [])
          [VObj 2, VList [VObj 62, VObj 64, VObj 66], VList [VObj 1062, VObj 1064, VObj 1066]]
          (Inr (VObj 72)) \<and>
      (\<forall>k\<le>length [VFloat ''0.0001'', VFloat ''0.001'', VFloat ''0.01'']. \<exists>xs ys.
         env (final (loop library_world (TTuple [TName ''iZ'', TName ''Z'']) bpt_loop_body
                (take k (enumerate_from 0 [VFloat ''0.0001'', VFloat ''0.001'', VFloat ''0.01'']))
                (metallicity_read sa (VObj 13) 1 [VFloat ''0.0001'', VFloat ''0.001'', VFloat ''0.01''])))
           ''x'' = Some (VList xs) \<and>
         env (final (loop library_world (TTuple [TName ''iZ'', TName ''Z'']) bpt_loop_body
                (take k (enumerate_from 0 [VFloat ''0.0001'', VFloat ''0.001'', VFloat ''0.01'']))
                (metallicity_read sa (VObj 13) 1 [VFloat ''0.0001'', VFloat ''0.001'', VFloat ''0.01''])))
           ''y'' = Some (VList ys) \<and>
         length xs = length ys \<and>
         (case loop library_world (TTuple [TName ''iZ'', TName ''Z'']) bpt_loop_body
                 (take k (enumerate_from 0 [VFloat ''0.0001'', VFloat ''0.001'', VFloat ''0.01'']))
                 (metallicity_read sa (VObj 13) 1 [VFloat ''0.0001'', VFloat ''0.001'', VFloat ''0.01'']) of
            Inl err \<Rightarrow> length xs < k
          | Inr sk \<Rightarrow> length xs = k))) \<and>
   (\<exists>sa s'.
      execs interrupted_world (concat (take 11 part_000) @ take 4 part_000_cell12) initial = Inr sa \<and>
      env sa ''grid'' = Some (VObj 13) \<and>
      interrupted_world (trace sa) (QGetAttr ''metallicity'') [VObj 13] = Inr (VObj 1) \<and>
      interrupted_world (trace sa @ [Ev (QGetAttr ''metallicity'') [VObj 13] (Inr (VObj 1))]) QIter [VObj 1]
        = Inr (VList [VFloat ''0.0001'', VFloat ''0.001'', VFloat ''0.01'']) \<and>
      exec interrupted_world (part_000_cell12 ! 4) sa = Inl (LibraryError ''KeyError'', s') \<and>
      env s' ''x'' = Some (VList [VObj 62]) \<and> env s' ''y'' = Some (VList [VObj 1062]) \<and>
      (\<exists>xs ys. env s' ''x'' = Some (VList xs) \<and> env s' ''y'' = Some (VList ys) \<and>
         length xs = length ys \<and>
         length xs < length [VFloat ''0.0001'', VFloat ''0.001'', VFloat ''0.01'']))"
proof -
  let ?ms = "[VFloat ''0.0001'', VFloat ''0.001'', VFloat ''0.01'']"
  let ?T = "TTuple [TName ''iZ'', TName ''Z'']"
  have cells: "concat (take 11 part_000) = concat (take 10 part_000) @ part_000_cell11"
    by (simp add: part_000_def)
  from library_run[of library_world] obtain s10 where
    run10: "execs library_world (concat (take 10 part_000)) initial = Inr s10"
    and s10: "length (trace s10) = 39" "env s10 ''grid'' = Some (VObj 13)"
      "env s10 ''plt'' = Some (VObj 2)" "env s10 ''np'' = Some (VObj 3)"
      "env s10 ''line_ratios'' = Some (VObj 4)" "env s10 ''enumerate'' = None"
    by auto
  have "\<exists>sa s' s''.
      execs library_world (part_000_cell11 @ take 4 part_000_cell12) s10 = Inr sa \<and>
      exec library_world (part_000_cell12 ! 4) sa = Inr s' \<and>
      execs library_world (take 4 (drop 5 part_000_cell12)) s' = Inr s'' \<and>
      env sa ''grid'' = Some (VObj 13) \<and>
      library_world (trace sa) (QGetAttr ''metallicity'') [VObj 13] = Inr (VObj 1) \<and>
      library_world (trace sa @ [Ev (QGetAttr ''metallicity'') [VObj 13] (Inr (VObj 1))]) QIter [VObj 1]
        = Inr (VList ?ms) \<and>
      env s' ''x'' = Some (VList [VObj 62, VObj 64, VObj 66]) \<and>
      env s' ''y'' = Some (VList [VObj 1062, VObj 1064, VObj 1066]) \<and>
      (\<exists>s2. loop library_world ?T bpt_loop_body (take 2 (enumerate_from 0 ?ms))
             (metallicity_read sa (VObj 13) 1 ?ms) = Inr s2 \<and>
         env s2 ''x'' = Some (VList [VObj 62, VObj 64]) \<and>
         env s2 ''y'' = Some (VList [VObj 1062, VObj 1064])) \<and>
      last (trace s'') =
        Ev (QMethod ''plot'' [])
          [VObj 2, VList [VObj 62, VObj 64, VObj 66], VList [VObj 1062, VObj 1064, VObj 1066]]
          (Inr (VObj 72))"
    using s10 by (simp add: part_000_cells interp library_world_def metallicity_read_def)
  then obtain sa s' s'' where
    cont: "execs library_world (part_000_cell11 @ take 4 part_000_cell12) s10 = Inr sa" and
    loop: "exec library_world (part_000_cell12 ! 4) sa = Inr s'"
    and rest: "execs library_world (take 4 (drop 5 part_000_cell12)) s' = Inr s''"
    and grid: "env sa ''grid'' = Some (VObj 13)"
    and read: "library_world (trace sa) (QGetAttr ''metallicity'') [VObj 13] = Inr (VObj 1)"
    and iter: "library_world (trace sa @ [Ev (QGetAttr ''metallicity'') [VObj 13] (Inr (VObj 1))]) QIter [VObj 1]
        = Inr (VList ?ms)"
    and vals: "env s' ''x'' = Some (VList [VObj 62, VObj 64, VObj 66])"
      "env s' ''y'' = Some (VList [VObj 1062, VObj 1064, VObj 1066])"
      "\<exists>s2. loop library_world ?T bpt_loop_body (take 2 (enumerate_from 0 ?ms))
             (metallicity_read sa (VObj 13) 1 ?ms) = Inr s2 \<and>
         env s2 ''x'' = Some (VList [VObj 62, VObj 64]) \<and>
         env s2 ''y'' = Some (VList [VObj 1062, VObj 1064])"
      "last (trace s'') =
        Ev (QMethod ''plot'' [])
          [VObj 2, VList [VObj 62, VObj 64, VObj 66], VList [VObj 1062, VObj 1064, VObj 1066]]
          (Inr (VObj 72))"
    by blast
  from run10 cont have
    before: "execs library_world (concat (take 11 part_000) @ take 4 part_000_cell12) initial = Inr sa"
    by (simp add: cells execs_append)
  note a = bpt_xy_aligned[OF before grid read iter]
  from a have steps: "\<forall>k\<le>length ?ms. \<exists>xs ys.
         env (final (loop library_world ?T bpt_loop_body (take k (enumerate_from 0 ?ms))
                (metallicity_read sa (VObj 13) 1 ?ms))) ''x'' = Some (VList xs) \<and>
         env (final (loop library_world ?T bpt_loop_body (take k (enumerate_from 0 ?ms))
                (metallicity_read sa (VObj 13) 1 ?ms))) ''y'' = Some (VList ys) \<and>
         length xs = length ys \<and>
         (case loop library_world ?T bpt_loop_body (take k (enumerate_from 0 ?ms))
                 (metallicity_read sa (VObj 13) 1 ?ms) of
            Inl err \<Rightarrow> length xs < k
          | Inr sk \<Rightarrow> length xs = k)"
    by blast
  from before grid read iter loop rest vals steps have first: "\<exists>sa s' s''.
      execs library_world (concat (take 11 part_000) @ take 4 part_000_cell12) initial = Inr sa \<and>
      env sa ''grid'' = Some (VObj 13) \<and>
      library_world (trace sa) (QGetAttr ''metallicity'') [VObj 13] = Inr (VObj 1) \<and>
      library_world (trace sa @ [Ev (QGetAttr ''metallicity'') [VObj 13] (Inr (VObj 1))]) QIter [VObj 1]
        = Inr (VList ?ms) \<and>
      exec library_world (part_000_cell12 ! 4) sa = Inr s' \<and>
      env s' ''x'' = Some (VList [VObj 62, VObj 64, VObj 66]) \<and>
      env s' ''y'' = Some (VList [VObj 1062, VObj 1064, VObj 1066]) \<and>
      (\<exists>s2. loop library_world ?T bpt_loop_body (take 2 (enumerate_from 0 ?ms))
             (metallicity_read sa (VObj 13) 1 ?ms) = Inr s2 \<and>
         env s2 ''x'' = Some (VList [VObj 62, VObj 64]) \<and>
         env s2 ''y'' = Some (VList [VObj 1062, VObj 1064])) \<and>
      execs library_world (take 4 (drop 5 part_000_cell12)) s' = Inr s'' \<and>
      last (trace s'') =
        Ev (QMethod ''plot'' [])
          [VObj 2, VList [VObj 62, VObj 64, VObj 66], VList [VObj 1062, VObj 1064, VObj 1066]]
          (Inr (VObj 72)) \<and>
      (\<forall>k\<le>length ?ms. \<exists>xs ys.
         env (final (loop library_world ?T bpt_loop_body (take k (enumerate_from 0 ?ms))
                (metallicity_read sa (VObj 13) 1 ?ms))) ''x'' = Some (VList xs) \<and>
         env (final (loop library_world ?T bpt_loop_body (take k (enumerate_from 0 ?ms))
                (metallicity_read sa (VObj 13) 1 ?ms))) ''y'' = Some (VList ys) \<and>
         length xs = length ys \<and>
         (case loop library_world ?T bpt_loop_body (take k (enumerate_from 0 ?ms))
                 (metallicity_read sa (VObj 13) 1 ?ms) of
            Inl err \<Rightarrow> length xs < k
          | Inr sk \<Rightarrow> length xs = k))"
    by blast
  have "\<exists>s. execs interrupted_world (concat (take 10 part_000)) initial = Inr s \<and>
     length (trace s) = 39 \<and>
     \<not> list_ex (\<lambda>ev. query_of ev = QMethod ''get_diagram'' []) (trace s) \<and>
     env s ''grid'' = Some (VObj 13) \<and> env s ''plt'' = Some (VObj 2) \<and>
     env s ''np'' = Some (VObj 3) \<and> env s ''line_ratios'' = Some (VObj 4) \<and>
     env s ''enumerate'' = None"
    by (rule library_run) (auto simp: interrupted_world_def)
  then obtain t10 where
    run20: "execs interrupted_world (concat (take 10 part_000)) initial = Inr t10"
    and t10: "length (trace t10) = 39"
      "\<not> list_ex (\<lambda>ev. query_of ev = QMethod ''get_diagram'' []) (trace t10)"
      "env t10 ''grid'' = Some (VObj 13)"
      "env t10 ''plt'' = Some (VObj 2)" "env t10 ''np'' = Some (VObj 3)"
      "env t10 ''line_ratios'' = Some (VObj 4)" "env t10 ''enumerate'' = None"
    by auto
  have "\<exists>sa s'.
      execs interrupted_world (part_000_cell11 @ take 4 part_000_cell12) t10 = Inr sa \<and>
      exec interrupted_world (part_000_cell12 ! 4) sa = Inl (LibraryError ''KeyError'', s') \<and>
      env sa ''grid'' = Some (VObj 13) \<and>
      interrupted_world (trace sa) (QGetAttr ''metallicity'') [VObj 13] = Inr (VObj 1) \<and>
      interrupted_world (trace sa @ [Ev (QGetAttr ''metallicity'') [VObj 13] (Inr (VObj 1))]) QIter [VObj 1]
        = Inr (VList ?ms) \<and>
      env s' ''x'' = Some (VList [VObj 62]) \<and> env s' ''y'' = Some (VList [VObj 1062])"
    using t10 by (simp add: part_000_cells interp interrupted_world_def library_world_def)
  then obtain sb sb' where
    cont2: "execs interrupted_world (part_000_cell11 @ take 4 part_000_cell12) t10 = Inr sb" and
    loop2: "exec interrupted_world (part_000_cell12 ! 4) sb = Inl (LibraryError ''KeyError'', sb')"
    and grid2: "env sb ''grid'' = Some (VObj 13)"
    and read2: "interrupted_world (trace sb) (QGetAttr ''metallicity'') [VObj 13] = Inr (VObj 1)"
    and iter2: "interrupted_world (trace sb @ [Ev (QGetAttr ''metallicity'') [VObj 13] (Inr (VObj 1))]) QIter [VObj 1]
        = Inr (VList ?ms)"
    and vals2: "env sb' ''x'' = Some (VList [VObj 62])" "env sb' ''y'' = Some (VList [VObj 1062])"
    by blast
  from run20 cont2 have
    before2: "execs interrupted_world (concat (take 11 part_000) @ take 4 part_000_cell12) initial = Inr sb"
    by (simp add: cells execs_append)
  from bpt_xy_aligned[OF before2 grid2 read2 iter2] loop2
  have "\<exists>xs ys. env sb' ''x'' = Some (VList xs) \<and> env sb' ''y'' = Some (VList ys) \<and>
         length xs = length ys \<and> length xs < length ?ms"
    by blast
  with before2 grid2 read2 iter2 loop2 vals2 have second: "\<exists>sa s'.
      execs interrupted_world (concat (take 11 part_000) @ take 4 part_000_cell12) initial = Inr sa \<and>
      env sa ''grid'' = Some (VObj 13) \<and>
      interrupted_world (trace sa) (QGetAttr ''metallicity'') [VObj 13] = Inr (VObj 1) \<and>
      interrupted_world (trace sa @ [Ev (QGetAttr ''metallicity'') [VObj 13] (Inr (VObj 1))]) QIter [VObj 1]
        = Inr (VList ?ms) \<and>
      exec interrupted_world (part_000_cell12 ! 4) sa = Inl (LibraryError ''KeyError'', s') \<and>
      env s' ''x'' = Some (VList [VObj 62]) \<and> env s' ''y'' = Some (VList [VObj 1062]) \<and>
      (\<exists>xs ys. env s' ''x'' = Some (VList xs) \<and> env s' ''y'' = Some (VList ys) \<and>
         length xs = length ys \<and> length xs < length ?ms)"
    by blast
  from first second show ?thesis by (rule conjI)
qed

subsection \<open>C1: control flow of the notebooks\<close>

lemma trace_grows: "length (trace s) \<le> length (trace (final (execs W p s)))"
proof -
  have "issues (queries_of p) s (final (execs W p s))"
    by (rule exec_issues(2)) simp
  then show ?thesis by (auto simp: issues_def)
qed

lemma r23_loop_total:
  assumes total: "\<And>tr m kw args. \<exists>v. W tr (QMethod m kw) args = Inr v"
  shows "env s ''grid'' = Some g \<Longrightarrow> env s ''ia'' = Some (VInt 0) \<Longrightarrow>
   env s ''ratio_id'' = Some (VStr ''R23'') \<Longrightarrow> env s ''ratios'' = Some (VList rs) \<Longrightarrow>
   \<exists>s'. loop W (TTuple [TName ''iZ'', TName ''Z'']) r23_loop_body (enumerate_from i ms) s = Inr s' \<and>
     length (trace s') = length (trace s) + 2 * length ms"
proof (induction ms arbitrary: s i rs)
  case Nil
  then show ?case by simp
next
  case (Cons z ms)
  from total obtain L where
    L: "W (trace s) (QMethod ''get_lines'' []) [g, VTuple [VInt 0, VInt i]] = Inr L" by blast
  from total obtain r where
    r: "W (trace s @ [Ev (QMethod ''get_lines'' []) [g, VTuple [VInt 0, VInt i]] (Inr L)])
          (QMethod ''get_ratio'' []) [L, VStr ''R23''] = Inr r" by blast
  from Cons.prems L r obtain s2 where
    s2: "loop W (TTuple [TName ''iZ'', TName ''Z'']) r23_loop_body (enumerate_from i (z # ms)) s =
         loop W (TTuple [TName ''iZ'', TName ''Z'']) r23_loop_body (enumerate_from (i + 1) ms) s2"
      "env s2 ''grid'' = Some g" "env s2 ''ia'' = Some (VInt 0)"
      "env s2 ''ratio_id'' = Some (VStr ''R23'')" "env s2 ''ratios'' = Some (VList (rs @ [r]))"
    and len: "length (trace s2) = length (trace s) + 2"
    by (simp add: r23_loop_body_def items_def bind_name_def lookup_def ask_def call_method_def
        is_list_def list_append_def)
  from Cons.IH[OF s2(2-5), of "i + 1"] s2(1) len show ?case by auto
qed

lemma long_run:
  "41 + 2 * n \<le> length (trace (final (run (long_world n) part_000)))"
proof -
  let ?W = "long_world n"
  let ?ms = "replicate n (VFloat ''0.01'')"
  have "\<exists>s. execs ?W (concat (take 10 part_000)) initial = Inr s \<and>
     length (trace s) = 39 \<and>
     \<not> list_ex (\<lambda>ev. query_of ev = QMethod ''get_diagram'' []) (trace s) \<and>
     env s ''grid'' = Some (VObj 13) \<and> env s ''plt'' = Some (VObj 2) \<and>
     env s ''np'' = Some (VObj 3) \<and> env s ''line_ratios'' = Some (VObj 4) \<and>
     env s ''enumerate'' = None"
    by (rule library_run) (auto simp: long_world_def)
  then obtain s10 where
    run10: "execs ?W (concat (take 10 part_000)) initial = Inr s10"
    and s10: "length (trace s10) = 39" "env s10 ''grid'' = Some (VObj 13)"
      "env s10 ''enumerate'' = None"
    by blast
  define sa where "sa = bind_name ''ratios'' (VList [])
      (bind_name ''ia'' (VInt 0) (bind_name ''ratio_id'' (VStr ''R23'') s10))"
  have cont: "execs ?W (take 3 part_000_cell11) s10 = Inr sa"
    by (simp add: part_000_cell11_def sa_def)
  have sa: "trace sa = trace s10" "env sa ''grid'' = Some (VObj 13)" "env sa ''enumerate'' = None"
    "env sa ''ia'' = Some (VInt 0)" "env sa ''ratio_id'' = Some (VStr ''R23'')"
    "env sa ''ratios'' = Some (VList [])"
    using s10 by (simp_all add: sa_def bind_name_def)
  have read: "?W (trace sa) (QGetAttr ''metallicity'') [VObj 13] = Inr (VObj 1)"
    by (simp add: long_world_def library_world_def)
  have iter: "?W (trace sa @ [Ev (QGetAttr ''metallicity'') [VObj 13] (Inr (VObj 1))]) QIter [VObj 1]
      = Inr (VList ?ms)"
    by (simp add: long_world_def)
  let ?s0 = "sa\<lparr>trace := trace sa @ [Ev (QGetAttr ''metallicity'') [VObj 13] (Inr (VObj 1)),
                                      Ev QIter [VObj 1] (Inr (VList ?ms))]\<rparr>"
  have stmt: "part_000_cell11 ! 3 = For (TTuple [TName ''iZ'', TName ''Z''])
      (Call (Name ''enumerate'') [Attribute (Name ''grid'') ''metallicity''] []) r23_loop_body"
    by (simp add: part_000_cell11_def r23_loop_def)
  have entry: "exec ?W (part_000_cell11 ! 3) sa =
      loop ?W (TTuple [TName ''iZ'', TName ''Z'']) r23_loop_body (enumerate_from 0 ?ms) ?s0"
    unfolding stmt by (rule enumerate_loop_entry[OF sa(3) sa(2) read iter])
  have total: "\<exists>v. ?W tr (QMethod m kw) args = Inr v" for tr m kw args
    by (simp add: long_world_def library_world_def)
  from r23_loop_total[of ?W ?s0 "VObj 13" "[]" 0 ?ms, OF total] sa obtain s' where
    l: "loop ?W (TTuple [TName ''iZ'', TName ''Z'']) r23_loop_body (enumerate_from 0 ?ms) ?s0 = Inr s'"
    and "length (trace s') = length (trace ?s0) + 2 * length ?ms"
    by auto
  then have len: "length (trace s') = 41 + 2 * n"
    using sa(1) s10(1) by simp
  have split: "concat part_000 =
      concat (take 10 part_000) @ take 3 part_000_cell11 @ [part_000_cell11 ! 3] @
      (drop 4 part_000_cell11 @ part_000_cell12)"
    by (simp add: part_000_def part_000_cell11_def)
  have "run ?W part_000 = execs ?W (drop 4 part_000_cell11 @ part_000_cell12) s'"
    unfolding run_def split using run10 cont entry l by (simp add: execs_append)
  with trace_grows[of s' ?W "drop 4 part_000_cell11 @ part_000_cell12"] len
  show ?thesis by simp
qed

text \<open>
  C1, as stated, fails: the grid-lines notebook is not extensionally equal to any
  loop-free, branch-free sequence of statements. Whatever straight-line program \<open>p\<close>
  is proposed, there is a world (a grid with enough metallicities) under which the notebook
  puts more queries to the library than \<open>p\<close> has query sites, so the two runs differ
  already in their traces.
\<close>

theorem no_straight_line_equivalent:
  "\<not> (\<exists>p. straight_line p \<and> (\<forall>W. trace (final (run W [p])) = trace (final (run W part_000))))"
proof
  assume "\<exists>p. straight_line p \<and> (\<forall>W. trace (final (run W [p])) = trace (final (run W part_000)))"
  then obtain p where p: "straight_line p"
    and eq: "\<And>W. trace (final (run W [p])) = trace (final (run W part_000))" by blast
  let ?n = "length (program_sites p)"
  from straight_line_bounded[OF p, of "long_world ?n"]
  have "length (trace (final (run (long_world ?n) part_000))) \<le> ?n"
    by (simp add: eq)
  with long_run[of ?n] show False by simp
qed

text \<open>
  C1, amended. The particle/parametric notebook and the galaxy-lines notebook are
  straight-line sequences of imports, assignments and calls, and in every run, under every
  world, the queries they put are a subsequence of their query sites: each call in the text
  is made at most once, in text order. In the grid-lines notebook every statement, however
  nested, is an import, an assignment or a call except exactly three \<open>for\<close> loops
  over sequences the library supplies: the loop over \<open>lines.available_ratios\<close> of cell 9
  and the two loops over \<open>enumerate(grid.metallicity)\<close> of cells 11 and 12; their bodies
  are straight-line. No notebook contains a branch, a try statement or a definition.
\<close>

theorem loops_are_the_only_control_flow:
  "straight_line (concat part_001) \<and>
   straight_line (concat galaxy_lines) \<and>
   subseq (map query_of (trace (final (run W part_001)))) (program_sites (concat part_001)) \<and>
   subseq (map query_of (trace (final (run W galaxy_lines)))) (program_sites (concat galaxy_lines)) \<and>
   filter (\<lambda>c. \<not> simple c) (substmts_list (concat part_000)) =
     [For (TName ''ratio_id'') (Attribute (Name ''lines'') ''available_ratios'')
        [Assign (TName ''ratio'') (MethodCall (Name ''lines'') ''get_ratio'' [Name ''ratio_id''] []),
         print_ratio],
      For (TTuple [TName ''iZ'', TName ''Z''])
        (Call (Name ''enumerate'') [Attribute (Name ''grid'') ''metallicity''] []) r23_loop_body,
      For (TTuple [TName ''iZ'', TName ''Z''])
        (Call (Name ''enumerate'') [Attribute (Name ''grid'') ''metallicity''] []) bpt_loop_body] \<and>
   straight_line
     [Assign (TName ''ratio'') (MethodCall (Name ''lines'') ''get_ratio'' [Name ''ratio_id''] []),
      print_ratio] \<and>
   straight_line r23_loop_body \<and> straight_line bpt_loop_body"
proof -
  have sl: "straight_line (concat part_001)" "straight_line (concat galaxy_lines)"
    by (simp_all add: straight_line_def part_001_cells galaxy_lines_cells)
  have run: "subseq (map query_of (trace (final (run W nb)))) (program_sites (concat nb))"
    if "straight_line (concat nb)" for nb
    using straight_line_within[OF that, of initial W]
    by (auto simp: within_def initial_def run_def)
  have rest: "filter (\<lambda>c. \<not> simple c) (substmts_list (concat part_000)) =
     [For (TName ''ratio_id'') (Attribute (Name ''lines'') ''available_ratios'')
        [Assign (TName ''ratio'') (MethodCall (Name ''lines'') ''get_ratio'' [Name ''ratio_id''] []),
         print_ratio],
      For (TTuple [TName ''iZ'', TName ''Z''])
        (Call (Name ''enumerate'') [Attribute (Name ''grid'') ''metallicity''] []) r23_loop_body,
      For (TTuple [TName ''iZ'', TName ''Z''])
        (Call (Name ''enumerate'') [Attribute (Name ''grid'') ''metallicity''] []) bpt_loop_body]"
    "straight_line
     [Assign (TName ''ratio'') (MethodCall (Name ''lines'') ''get_ratio'' [Name ''ratio_id''] []),
      print_ratio]"
    "straight_line r23_loop_body" "straight_line bpt_loop_body"
    by (simp_all add: straight_line_def part_000_cells)
  from sl run[OF sl(1)] run[OF sl(2)] rest show ?thesis by simp
qed

subsection \<open>C6: which notebooks call the line methods and plot\<close>




subsection \<open>C3: data is loaded through the library's loaders\<close>







subsection \<open>C7: what the cells share\<close>

lemma cell9_after_cell8:
  "\<exists>s8 s9. execs library_world (concat (take 8 part_000)) initial = Inr s8 \<and>
     execs library_world part_000_cell9 s8 = Inr s9"
proof -
  have split: "concat (take 10 part_000) =
      concat (take 8 part_000) @ part_000_cell9 @ part_000_cell10"
    by (simp add: part_000_def)
  from library_run[of library_world] obtain s10 where
    "execs library_world (concat (take 10 part_000)) initial = Inr s10" by auto
  then show ?thesis
    unfolding split by (auto simp: execs_append split: sum.splits)
qed

text \<open>
  C7, as stated, fails: a cell's result does not depend on its own inputs only. Cell 9 of
  the grid-lines notebook reads \<open>lines\<close>, which cell 8 binds: run after cells 1 to 8
  (under \<open>library_world\<close>) it completes; run on its own, under any world, it stops with
  a \<open>NameError\<close>.
\<close>

theorem cells_not_self_contained:
  "\<not> list_all (\<lambda>nb. list_all self_contained nb) notebooks \<and>
   free_names part_000_cell9 = [''lines'', ''print''] \<and>
   (\<forall>W. execs W part_000_cell9 initial =
      Inl (NameError ''lines'', bind_name ''ratio_id'' (VStr ''BalmerDecrement'') initial)) \<and>
   (\<exists>s8 s9. execs library_world (concat (take 8 part_000)) initial = Inr s8 \<and>
      execs library_world part_000_cell9 s8 = Inr s9)"
proof -
  have "\<not> self_contained part_000_cell9"
    "free_names part_000_cell9 = [''lines'', ''print'']"
    by (simp_all add: self_contained_def free_names_def unbound_def builtins_def
        part_000_cell9_def print_ratio_def)
  moreover have "\<forall>W. execs W part_000_cell9 initial =
      Inl (NameError ''lines'', bind_name ''ratio_id'' (VStr ''BalmerDecrement'') initial)"
    by (simp add: part_000_cell9_def builtins_def lookup_def initial_def bind_name_def)
  ultimately show ?thesis
    using cell9_after_cell8 by (simp add: notebooks_def part_000_def)
qed

lemma free_names_of_cells:
  "map free_names part_000 =
     [[], [''print'', ''line_ratios''], [''Grid''], [''print'', ''grid''], [''print'', ''grid''],
      [''line_ratios'', ''grid'', ''print''],
      [''grid'', ''grid_point'', ''line_ratios'', ''print''],
      [''grid'', ''grid_point'', ''print''], [''lines'', ''print''], [''lines''],
      [''enumerate'', ''grid'', ''plt''],
      [''enumerate'', ''grid'', ''np'', ''line_ratios'', ''get_diagram_labels'', ''plt'']]"
  "map free_names part_001 =
     [[''print'', ''type''], [''part_stars'', ''param_stars'', ''print''],
      [''part_stars'', ''print''], [''param_stars'', ''print'']]"
  "map free_names galaxy_lines =
     [[''print''],
      [''grid'', ''PowerLaw'', ''Blackbody'', ''kelvin'', ''line_ratios'', ''print'']]"
  by (simp_all add: free_names_def unbound_def import_name_def top_package_def
      part_000_cells part_001_cells galaxy_lines_cells)

lemma single_writers:
  "single_writer [] part_000" "single_writer [] part_001" "single_writer [] galaxy_lines"
  by (simp_all add: free_names_def unbound_def writes_def builtins_def import_name_def
      top_package_def all_exprs_def part_000_cells part_001_cells galaxy_lines_cells)

text \<open>
  C7, amended. The cells of a notebook share its module-level bindings: a later cell reads
  names an earlier cell bound (\<open>grid\<close>, \<open>grid_point\<close>, \<open>lines\<close>, the imports).
  But every name a cell reads from outside itself was, when the cell runs, written exactly
  once by the cells before it: bound once, outside any loop, and never appended to. A name
  that is rebound or appended to (\<open>line\<close>, \<open>ratio_id\<close>, \<open>grid_point\<close>,
  \<open>lines\<close>, \<open>ratios\<close>, \<open>x\<close>, \<open>y\<close>, \<open>stars\<close>, \<open>model\<close>,
  \<open>Galaxy\<close>, ...) is read afterwards only by the cell that rewrote it.
\<close>

theorem shared_bindings_written_once:
  "list_all (single_writer []) notebooks \<and>
   map free_names part_000 =
     [[], [''print'', ''line_ratios''], [''Grid''], [''print'', ''grid''], [''print'', ''grid''],
      [''line_ratios'', ''grid'', ''print''],
      [''grid'', ''grid_point'', ''line_ratios'', ''print''],
      [''grid'', ''grid_point'', ''print''], [''lines'', ''print''], [''lines''],
      [''enumerate'', ''grid'', ''plt''],
      [''enumerate'', ''grid'', ''np'', ''line_ratios'', ''get_diagram_labels'', ''plt'']] \<and>
   map free_names part_001 =
     [[''print'', ''type''], [''part_stars'', ''param_stars'', ''print''],
      [''part_stars'', ''print''], [''param_stars'', ''print'']] \<and>
   map free_names galaxy_lines =
     [[''print''],
      [''grid'', ''PowerLaw'', ''Blackbody'', ''kelvin'', ''line_ratios'', ''print'']]"
  using single_writers free_names_of_cells by (simp add: notebooks_def)


end
